(* ===== verification/FFADO_Prelude.thy ===== *)
theory FFADO_Prelude
  imports Complex_Main "HOL-Library.Word"
begin

text \<open>
  Shared vocabulary of the development: the machine types of the C++ sources, the result type of
  operations that may trip an assertion or touch memory outside an object, byte-level memory
  access, and the generic lemmas on words and lists that the component theories rely on.

  The sources are read for the LP64 data model that the build targets: \<open>unsigned int\<close> and
  \<open>uint32_t\<close> have 32 bits, \<open>unsigned long\<close>, \<open>size_t\<close> and \<open>uint64_t\<close> have 64 bits. A signed
  integer is the word of the same width, read with \<open>sint\<close> and compared with the signed order.
\<close>

unbundle bit_operations_syntax

section \<open>Types\<close>

type_synonym byte = "8 word"
type_synonym u16 = "16 word"
type_synonym u32 = "32 word"
type_synonym u64 = "64 word"

text \<open>
  Ways in which an operation ends without returning: a failed \<open>assert\<close>, an access outside the
  object a pointer points into, a null pointer, an arithmetic trap (division by zero), a shift
  whose result the language leaves undefined, and a floating point operation whose result is not
  a finite number, which ends the part of the execution the model describes.
\<close>

datatype fault = AssertFailed | OutOfBounds | NullPointer | DivByZero | ShiftOverflow | NotFinite

type_synonym 'a result = "fault + 'a"

fun bind_result :: "'a result \<Rightarrow> ('a \<Rightarrow> 'b result) \<Rightarrow> 'b result" where
  "bind_result (Inl e) f = Inl e"
| "bind_result (Inr x) f = f x"

definition assert_result :: "bool \<Rightarrow> 'a result \<Rightarrow> 'a result" where
  "assert_result b r = (if b then r else Inl AssertFailed)"

lemma bind_result_Inr_iff:
  "bind_result r f = Inr y \<longleftrightarrow> (\<exists>x. r = Inr x \<and> f x = Inr y)"
  by (cases r) auto

lemma bind_result_assoc:
  "bind_result (bind_result r f) g = bind_result r (\<lambda>x. bind_result (f x) g)"
  by (cases r) simp_all

lemma assert_result_Inr_iff [simp]: "assert_result b r = Inr y \<longleftrightarrow> b \<and> r = Inr y"
  by (simp add: assert_result_def)

lemma assert_result_True [simp]: "assert_result True r = r"
  by (simp add: assert_result_def)

section \<open>Collections of facts\<close>

named_theorems word_nat \<open>moving word operations to natural numbers\<close>
named_theorems ring_arith \<open>arithmetic of ring buffer positions\<close>
named_theorems ops \<open>definitions of the operations of a component\<close>

section \<open>Memory\<close>

text \<open>\<open>memcpy\<close> out of and into an object of known size, checked against its bounds.\<close>

definition mem_read :: "byte list \<Rightarrow> nat \<Rightarrow> nat \<Rightarrow> byte list result" where
  "mem_read m off n = (if off + n \<le> length m then Inr (take n (drop off m)) else Inl OutOfBounds)"

definition mem_write :: "byte list \<Rightarrow> nat \<Rightarrow> byte list \<Rightarrow> byte list result" where
  "mem_write m off bs =
     (if off + length bs \<le> length m then Inr (take off m @ bs @ drop (off + length bs) m)
      else Inl OutOfBounds)"

lemma mem_read_Inr: "off + n \<le> length m \<Longrightarrow> mem_read m off n = Inr (take n (drop off m))"
  by (simp add: mem_read_def)

lemma mem_write_Inr:
  "off + length bs \<le> length m \<Longrightarrow>
   mem_write m off bs = Inr (take off m @ bs @ drop (off + length bs) m)"
  by (simp add: mem_write_def)

lemma mem_write_length: "mem_write m off bs = Inr m' \<Longrightarrow> length m' = length m"
  by (auto simp: mem_write_def split: if_splits)

section \<open>Words and natural numbers\<close>

lemma unat_plus_mod [word_nat]:
  fixes x y :: u64
  shows "unat (x + y) = (unat x + unat y) mod 2 ^ 64"
  by (simp add: unat_word_ariths)

lemma unat_plus_small:
  fixes x y :: "'a::len word"
  assumes "unat x + unat y < 2 ^ LENGTH('a)"
  shows "unat (x + y) = unat x + unat y"
  using assms by (simp add: unat_word_ariths)

lemma unat_mult_small:
  fixes x y :: "'a::len word"
  assumes "unat x * unat y < 2 ^ LENGTH('a)"
  shows "unat (x * y) = unat x * unat y"
  using assms by (simp add: unat_word_ariths)

lemma unat_minus_small:
  fixes x y :: "'a::len word"
  assumes "unat y \<le> unat x"
  shows "unat (x - y) = unat x - unat y"
  using assms by (simp add: unat_sub word_le_nat_alt)

text \<open>Masking with \<open>2 ^ n - 1\<close> is reduction modulo \<open>2 ^ n\<close>.\<close>

lemma unat_and_mask_minus_one:
  fixes x m :: "'a::len word"
  assumes "m = 2 ^ n - 1"
  shows "unat (x AND m) = unat x mod 2 ^ n"
proof -
  have "x AND m = take_bit n x"
    by (simp add: assms take_bit_eq_mask mask_eq_exp_minus_1)
  then show ?thesis
    by (simp add: unsigned_take_bit_eq take_bit_eq_mod [of n "unat x"])
qed

text \<open>A signed value that fits is read back exactly.\<close>

lemma sint_word_of_int_64:
  assumes "- 9223372036854775808 \<le> k" and "k < 9223372036854775808"
  shows "sint (word_of_int k :: u64) = k"
  using assms by (simp add: sint_sbintrunc' signed_take_bit_int_eq_self)

lemma sint_word_of_int_32:
  assumes "- 2147483648 \<le> k" and "k < 2147483648"
  shows "sint (word_of_int k :: u32) = k"
  using assms by (simp add: sint_sbintrunc' signed_take_bit_int_eq_self)

lemma sint_affine_32:
  fixes x y :: u32
  assumes "uint x < 0x20000000" "uint y < 0x20000000" "- 0x20000000 \<le> c" "c < 0x20000000"
  shows "sint (x - y + word_of_int c) = uint x - uint y + c"
proof -
  have "x - y + word_of_int c = word_of_int (uint x - uint y + c)" by simp
  moreover have "- 2147483648 \<le> uint x - uint y + c" "uint x - uint y + c < 2147483648"
    using assms uint_ge_0 [of x] uint_ge_0 [of y] by linarith+
  ultimately show ?thesis by (simp only: sint_word_of_int_32)
qed

lemma sint_affine_64:
  fixes x y :: u64
  assumes "uint x < 0x2000000000000000" "uint y < 0x2000000000000000"
    "- 0x2000000000000000 \<le> c" "c < 0x2000000000000000"
  shows "sint (x - y + word_of_int c) = uint x - uint y + c"
proof -
  have "x - y + word_of_int c = word_of_int (uint x - uint y + c)" by simp
  moreover have "- 9223372036854775808 \<le> uint x - uint y + c" "uint x - uint y + c < 9223372036854775808"
    using assms uint_ge_0 [of x] uint_ge_0 [of y] by linarith+
  ultimately show ?thesis by (simp only: sint_word_of_int_64)
qed

lemma mod_int_window:
  fixes k m :: int
  assumes "- m < k" and "k < m"
  shows "k mod m = (if k < 0 then k + m else k)"
  using assms mod_add_self2 [of k m] mod_pos_pos_trivial [of "k + m" m] by simp

lemma zmod_window_double:
  fixes k m :: int
  assumes "0 \<le> k" and "k < 2 * m"
  shows "k mod m = (if k < m then k else k - m)"
  using assms mod_pos_pos_trivial [of "k - m" m] minus_mod_self2 [of k m] by simp

lemma symmetric_window:
  fixes a b m w :: int
  assumes "w = 2 * m" "0 \<le> a" "a < w" "0 \<le> b" "b < w"
  shows "\<bar>if m < a - b then a - b - w else if a - b < - m then a - b + w else a - b\<bar> \<le> m"
  using assms by auto

lemma div_mod_carry:
  fixes n k m :: nat
  assumes "k < m"
  shows "(n + k) div m = n div m + (if n mod m + k < m then 0 else 1)"
proof -
  have "(n + k) div m = n div m + (n mod m + k) div m"
    using assms by (metis div_less mod_less add_cancel_right_right div_add1_eq)
  moreover have "(n mod m + k) div m = 1" if "m \<le> n mod m + k"
  proof (rule div_nat_eqI)
    show "m * 1 \<le> n mod m + k" using that by simp
    have "n mod m + k < m + m" using assms by (intro add_strict_mono) simp_all
    then show "n mod m + k < m * Suc 1" by simp
  qed
  ultimately show ?thesis by (simp add: not_less)
qed

text \<open>Fields packed side by side into a word.\<close>

lemma take_bit_small:
  fixes x :: "'a::len word"
  assumes "unat x < 2 ^ n"
  shows "take_bit n x = x"
  using assms by (metis unsigned_take_bit_eq word_unat_eq_iff take_bit_nat_eq_self)

lemma push_bit_or_eq_plus:
  fixes a c :: "'a::len word"
  assumes "unat c < 2 ^ n"
  shows "push_bit n a OR c = push_bit n a + c"
proof -
  have "take_bit n (unat c) = unat c"
    using assms by (simp add: take_bit_nat_eq_self)
  then have c: "take_bit n c = c"
    by (metis unsigned_take_bit_eq word_unat_eq_iff)
  have "\<not> bit (push_bit n a) k \<or> \<not> bit c k" for k
  proof (cases "k < n")
    case True
    then show ?thesis by (simp add: bit_push_bit_iff)
  next
    case False
    have "\<not> bit (take_bit n c) k" using False by (simp add: bit_take_bit_iff)
    then show ?thesis using c by simp
  qed
  then have "push_bit n a AND c = 0"
    by (auto simp: bit_eq_iff bit_and_iff)
  then show ?thesis by (simp add: disjunctive_add_eq_or)
qed

lemma unat_push_bit_small:
  fixes a :: u64
  assumes "unat a * 2 ^ n < 2 ^ 64" and "n < 64"
  shows "unat (push_bit n a) = unat a * 2 ^ n"
proof -
  have "unat ((2::u64) ^ n) = 2 ^ n"
    using assms(2) unat_of_nat [of "2 ^ n", where 'a = 64] power_strict_increasing [of n 64 "2::nat"]
    by simp
  then show ?thesis using assms(1) by (simp add: push_bit_eq_mult unat_mult_small)
qed

text \<open>Conversions between widths.\<close>

lemma unat_of_nat_64 [simp]: "n < 18446744073709551616 \<Longrightarrow> unat (word_of_nat n :: u64) = n"
  by (simp add: unat_of_nat)

lemma unat_of_nat_32 [simp]: "n < 4294967296 \<Longrightarrow> unat (word_of_nat n :: u32) = n"
  by (simp add: unat_of_nat)

lemma unat_ucast_32_64 [simp]: "unat (ucast (x::u32) :: u64) = unat x"
  by (simp add: unsigned_ucast_eq take_bit_nat_eq_self less_trans [OF unsigned_less])

lemma unat_ucast_64_32: "unat x < 4294967296 \<Longrightarrow> unat (ucast (x::u64) :: u32) = unat x"
  by (simp add: unsigned_ucast_eq take_bit_nat_eq_self)

lemma uint_eq_of_unat: "unat w = n \<Longrightarrow> uint w = int n"
  by (metis uint_nat)

section \<open>Lists\<close>

lemma take_drop_append_same:
  "take n (drop k (take k xs @ ys @ zs)) = take n (ys @ zs)" if "k \<le> length xs"
  using that by simp

lemma rotate_take_drop_mod: "xs \<noteq> [] \<Longrightarrow> rotate n xs = drop (n mod length xs) xs @ take (n mod length xs) xs"
  by (simp add: rotate_drop_take)

end
