(* ===== verification/CycleTimer.thy ===== *)
theory CycleTimer
  imports FFADO_Prelude
begin

text \<open>
  The bus time arithmetic of \<open>src/src/libieee1394/cycletimer.h\<close>. The 1394 cycle timer counts
  seconds (modulo 128), cycles (8000 per second) and offsets (3072 per cycle); the streaming
  engine computes with the equivalent tick count, which wraps at 128 seconds. The theory models
  the field macros, the wrapping sums and differences and the functions that rebuild a full
  timestamp from the 16-bit SYT field of a packet, for the build without \<open>DEBUG\<close> (the
  debug build only adds warnings).
\<close>

section \<open>Constants and field macros\<close>

abbreviation CYCLES_PER_SECOND :: "'a::len word" where "CYCLES_PER_SECOND \<equiv> 8000"
abbreviation TICKS_PER_CYCLE :: "'a::len word" where "TICKS_PER_CYCLE \<equiv> 3072"
abbreviation TICKS_PER_SECOND :: u64 where "TICKS_PER_SECOND \<equiv> 24576000"

definition CYCLE_TIMER_GET_SECS :: "u64 \<Rightarrow> u64" where
  "CYCLE_TIMER_GET_SECS x = drop_bit 25 (x AND 0xFE000000)"

definition CYCLE_TIMER_GET_CYCLES :: "u64 \<Rightarrow> u64" where
  "CYCLE_TIMER_GET_CYCLES x = drop_bit 12 (x AND 0x01FFF000)"

definition CYCLE_TIMER_GET_OFFSET :: "u64 \<Rightarrow> u64" where
  "CYCLE_TIMER_GET_OFFSET x = x AND 0x00000FFF"

definition CYCLE_TIMER_SET_SECS :: "u64 \<Rightarrow> u64 \<Rightarrow> u64" where
  "CYCLE_TIMER_SET_SECS v x = (v AND NOT 0xFE000000) OR push_bit 25 (x AND 0x7F)"

definition CYCLE_TIMER_SET_CYCLES :: "u64 \<Rightarrow> u64 \<Rightarrow> u64" where
  "CYCLE_TIMER_SET_CYCLES v x = (v AND NOT 0x01FFF000) OR push_bit 12 (x AND 0x1FFF)"

definition CYCLE_TIMER_SET_OFFSET :: "u64 \<Rightarrow> u64 \<Rightarrow> u64" where
  "CYCLE_TIMER_SET_OFFSET v x = (v AND NOT 0x00000FFF) OR (x AND 0xFFF)"

definition CYCLE_TIMER_TO_TICKS :: "u64 \<Rightarrow> u64" where
  "CYCLE_TIMER_TO_TICKS x =
     CYCLE_TIMER_GET_SECS x * TICKS_PER_SECOND
     + CYCLE_TIMER_GET_CYCLES x * TICKS_PER_CYCLE
     + CYCLE_TIMER_GET_OFFSET x"

definition TICKS_TO_SECS :: "u64 \<Rightarrow> u64" where
  "TICKS_TO_SECS x = x div TICKS_PER_SECOND"

definition TICKS_TO_CYCLES :: "u64 \<Rightarrow> u64" where
  "TICKS_TO_CYCLES x = (x div TICKS_PER_CYCLE) mod CYCLES_PER_SECOND"

definition TICKS_TO_OFFSET :: "u64 \<Rightarrow> u64" where
  "TICKS_TO_OFFSET x = x mod TICKS_PER_CYCLE"

definition TICKS_TO_CYCLE_TIMER :: "u64 \<Rightarrow> u64" where
  "TICKS_TO_CYCLE_TIMER x =
     push_bit 25 (TICKS_TO_SECS x AND 0x7F)
     OR push_bit 12 (TICKS_TO_CYCLES x AND 0x1FFF)
     OR (TICKS_TO_OFFSET x AND 0xFFF)"

definition TICKS_TO_SYT :: "u64 \<Rightarrow> u64" where
  "TICKS_TO_SYT x =
     push_bit 12 (TICKS_TO_CYCLES x AND 0xF) OR (TICKS_TO_OFFSET x AND 0xFFF)"

section \<open>Wrapping arithmetic\<close>

definition wrapAtMaxTicks :: "u64 \<Rightarrow> u64" where
  "wrapAtMaxTicks x = (if TICKS_PER_SECOND * 128 \<le> x then x - TICKS_PER_SECOND * 128 else x)"

definition wrapAtMinTicks :: "u64 \<Rightarrow> u64" where
  "wrapAtMinTicks x = (if x <s 0 then x + TICKS_PER_SECOND * 128 else x)"

definition wrapAtMinMaxTicks :: "u64 \<Rightarrow> u64" where
  "wrapAtMinMaxTicks x =
     (if x <s 0 then x + TICKS_PER_SECOND * 128
      else if TICKS_PER_SECOND * 128 \<le>s x then x - TICKS_PER_SECOND * 128
      else x)"

definition addCycles :: "u32 \<Rightarrow> u32 \<Rightarrow> u32" where
  "addCycles x y =
     (let sum = x + y in if CYCLES_PER_SECOND < sum then sum - CYCLES_PER_SECOND else sum)"

definition diffCycles :: "u32 \<Rightarrow> u32 \<Rightarrow> u32" where
  "diffCycles x y =
     (let diff = x - y; max = CYCLES_PER_SECOND div 2
      in if max <s diff then diff - CYCLES_PER_SECOND
         else if diff <s - max then diff + CYCLES_PER_SECOND
         else diff)"

definition diffTicks :: "u64 \<Rightarrow> u64 \<Rightarrow> u64" where
  "diffTicks x y =
     (let diff = x - y; wrapvalue = TICKS_PER_SECOND * 128; max = wrapvalue div 2
      in if max <s diff then diff - wrapvalue
         else if diff <s - max then diff + wrapvalue
         else diff)"

definition addTicks :: "u64 \<Rightarrow> u64 \<Rightarrow> u64" where
  "addTicks x y = wrapAtMaxTicks (x + y)"

definition substractTicks :: "u64 \<Rightarrow> u64 \<Rightarrow> u64" where
  "substractTicks x y = wrapAtMinTicks (x - y)"

section \<open>Full timestamps from SYT timestamps\<close>

definition sytRecvToFullTicks :: "u64 \<Rightarrow> u32 \<Rightarrow> u64 \<Rightarrow> u64" where
  "sytRecvToFullTicks syt_timestamp rcv_cycle ctr_now =
     (let cc_cycles = CYCLE_TIMER_GET_CYCLES ctr_now;
          cc_seconds = CYCLE_TIMER_GET_SECS ctr_now;
          diff_cycles = diffCycles (ucast cc_cycles) rcv_cycle;
          cc_seconds = (if cc_cycles < ucast rcv_cycle \<and> 0 \<le>s diff_cycles
                        then (if cc_seconds \<noteq> 0 then cc_seconds - 1 else 127)
                        else cc_seconds);
          rcv_cycle_masked = ucast (rcv_cycle AND 0xF);
          syt_cycle = CYCLE_TIMER_GET_CYCLES syt_timestamp;
          syt_cycle = (if syt_cycle < rcv_cycle_masked then syt_cycle + 0x10 else syt_cycle);
          delta_cycles = syt_cycle - rcv_cycle_masked;
          new_cycles = ucast rcv_cycle + delta_cycles;
          timestamp = (if new_cycles < 8000 then new_cycles * TICKS_PER_CYCLE
                       else (new_cycles - 8000) * TICKS_PER_CYCLE + TICKS_PER_SECOND);
          timestamp = timestamp + CYCLE_TIMER_GET_OFFSET syt_timestamp
      in addTicks timestamp (cc_seconds * TICKS_PER_SECOND))"

definition sytRecvToFullTicks2 :: "u64 \<Rightarrow> u32 \<Rightarrow> u64" where
  "sytRecvToFullTicks2 syt_timestamp rcv_ctr =
     (let rcv_cycle = ucast (CYCLE_TIMER_GET_CYCLES (ucast rcv_ctr)) :: u32;
          rcv_cycle_masked = rcv_cycle AND 0xF;
          syt_cycle = ucast (CYCLE_TIMER_GET_CYCLES syt_timestamp) :: u32;
          syt_cycle = (if syt_cycle < rcv_cycle_masked then syt_cycle + 0x10 else syt_cycle);
          delta_cycles = syt_cycle - rcv_cycle_masked;
          rcv_cycle = rcv_cycle + delta_cycles;
          timestamp = (if rcv_cycle < 8000 then ucast (rcv_cycle * TICKS_PER_CYCLE)
                       else ucast ((rcv_cycle - 8000) * TICKS_PER_CYCLE) + TICKS_PER_SECOND) :: u64;
          timestamp = timestamp + CYCLE_TIMER_GET_OFFSET syt_timestamp
      in addTicks timestamp (CYCLE_TIMER_GET_SECS (ucast rcv_ctr) * TICKS_PER_SECOND))"

definition sytXmitToFullTicks :: "u64 \<Rightarrow> u32 \<Rightarrow> u64 \<Rightarrow> u64" where
  "sytXmitToFullTicks syt_timestamp xmt_cycle ctr_now =
     (let cc_cycles = CYCLE_TIMER_GET_CYCLES ctr_now;
          cc_seconds = CYCLE_TIMER_GET_SECS ctr_now;
          diff_cycles = diffCycles xmt_cycle (ucast cc_cycles);
          cc_seconds = (if ucast xmt_cycle < cc_cycles \<and> 0 \<le>s diff_cycles
                        then (if cc_seconds \<noteq> 0 then cc_seconds - 1 else 127)
                        else cc_seconds);
          xmt_cycle_masked = ucast (xmt_cycle AND 0xF);
          syt_cycle = CYCLE_TIMER_GET_CYCLES syt_timestamp;
          syt_cycle = (if syt_cycle < xmt_cycle_masked then syt_cycle + 0x10 else syt_cycle);
          delta_cycles = syt_cycle - xmt_cycle_masked;
          new_cycles = ucast xmt_cycle + delta_cycles;
          timestamp = (if new_cycles < 8000 then new_cycles * TICKS_PER_CYCLE
                       else (new_cycles - 8000) * TICKS_PER_CYCLE + TICKS_PER_SECOND);
          timestamp = timestamp + CYCLE_TIMER_GET_OFFSET syt_timestamp
      in addTicks timestamp (cc_seconds * TICKS_PER_SECOND))"

section \<open>Field values\<close>

lemma unat_GET_SECS: "unat (CYCLE_TIMER_GET_SECS x) = unat x div 2 ^ 25 mod 2 ^ 7"
proof -
  have "CYCLE_TIMER_GET_SECS x = drop_bit 25 x AND 0x7F"
    by (simp add: CYCLE_TIMER_GET_SECS_def drop_bit_and)
  then show ?thesis
    by (simp add: unat_and_mask_minus_one [where n = 7] unat_drop_bit_eq drop_bit_eq_div unat_div_distrib)
qed

lemma unat_GET_CYCLES: "unat (CYCLE_TIMER_GET_CYCLES x) = unat x div 2 ^ 12 mod 2 ^ 13"
proof -
  have "CYCLE_TIMER_GET_CYCLES x = drop_bit 12 x AND 0x1FFF"
    by (simp add: CYCLE_TIMER_GET_CYCLES_def drop_bit_and)
  then show ?thesis
    by (simp add: unat_and_mask_minus_one [where n = 13] unat_drop_bit_eq drop_bit_eq_div unat_div_distrib)
qed

lemma unat_GET_OFFSET: "unat (CYCLE_TIMER_GET_OFFSET x) = unat x mod 2 ^ 12"
  by (simp add: CYCLE_TIMER_GET_OFFSET_def unat_and_mask_minus_one [where n = 12])

lemma sint_diffCycles:
  assumes "uint x < 8000" and "uint y < 8000"
  shows "sint (diffCycles x y) =
    (let k = uint x - uint y
     in if 4000 < k then k - 8000 else if k < - 4000 then k + 8000 else k)"
  using assms sint_affine_32 [of x y 0] sint_affine_32 [of x y 8000] sint_affine_32 [of x y "- 8000"]
  by (simp add: diffCycles_def Let_def word_sless_alt)

lemma sint_diffTicks:
  assumes "uint x < 3145728000" and "uint y < 3145728000"
  shows "sint (diffTicks x y) =
    (let k = uint x - uint y
     in if 1572864000 < k then k - 3145728000
        else if k < - 1572864000 then k + 3145728000 else k)"
  using assms sint_affine_64 [of x y 0] sint_affine_64 [of x y 3145728000]
    sint_affine_64 [of x y "- 3145728000"]
  by (simp add: diffTicks_def Let_def word_sless_alt)

lemma unat_wrapAtMaxTicks:
  "unat x < 2 * 3145728000 \<Longrightarrow> unat (wrapAtMaxTicks x) = unat x mod 3145728000"
  by (auto simp: wrapAtMaxTicks_def word_le_nat_alt unat_minus_small mod_if)

lemma unat_addTicks:
  assumes "unat x + unat y < 2 * 3145728000"
  shows "unat (addTicks x y) = (unat x + unat y) mod 3145728000"
proof -
  have "unat (x + y) = unat x + unat y" using assms by (simp add: unat_plus_small)
  then show ?thesis using assms by (simp add: addTicks_def unat_wrapAtMaxTicks)
qed

lemma uint_substractTicks:
  assumes "uint x < 3145728000" "uint y < 3145728000"
  shows "uint (substractTicks x y) = (uint x - uint y) mod 3145728000"
proof -
  have u: "uint (word_of_int j :: u64) = j" if "0 \<le> j" "j < 3145728000" for j
    using that by (simp add: uint_word_of_int_eq take_bit_int_eq_self)
  have "uint (x - y) = uint x - uint y" if "0 \<le> uint x - uint y"
    using u [of "uint x - uint y"] that assms uint_ge_0 [of y] by simp
  moreover have "uint (x - y + 3145728000) = uint x - uint y + 3145728000" if "uint x - uint y < 0"
    using u [of "uint x - uint y + 3145728000"] that assms uint_ge_0 [of x] by simp
  moreover have "(uint x - uint y) mod 3145728000 =
      (if uint x - uint y < 0 then uint x - uint y + 3145728000 else uint x - uint y)"
    using assms uint_ge_0 [of x] uint_ge_0 [of y] by (intro mod_int_window) linarith+
  ultimately show ?thesis
    using assms sint_affine_64 [of x y 0]
    by (simp add: substractTicks_def wrapAtMinTicks_def word_sless_alt)
qed

text \<open>A cycle timer value as a number: seconds, cycles and offset in their fields.\<close>

lemma unat_pack_ctr:
  fixes s c f :: u64
  assumes "unat s < 2 ^ 7" "unat c < 2 ^ 13" "unat f < 2 ^ 12"
  shows "unat (push_bit 25 s OR push_bit 12 c OR f) = unat s * 2 ^ 25 + unat c * 2 ^ 12 + unat f"
proof -
  have ps: "unat (push_bit 25 s) = unat s * 2 ^ 25"
    using assms by (intro unat_push_bit_small) auto
  have pc: "unat (push_bit 12 c) = unat c * 2 ^ 12"
    using assms by (intro unat_push_bit_small) auto
  have cf: "push_bit 12 c OR f = push_bit 12 c + f"
    using assms by (intro push_bit_or_eq_plus) simp
  have ucf: "unat (push_bit 12 c + f) = unat c * 2 ^ 12 + unat f"
    using assms pc by (subst unat_plus_small) auto
  have "push_bit 25 s OR (push_bit 12 c + f) = push_bit 25 s + (push_bit 12 c + f)"
    using assms ucf by (intro push_bit_or_eq_plus) auto
  moreover have "unat (push_bit 25 s + (push_bit 12 c + f)) = unat s * 2 ^ 25 + unat c * 2 ^ 12 + unat f"
    using assms ps ucf by (subst unat_plus_small) auto
  ultimately show ?thesis by (simp add: cf)
qed

lemma unat_TICKS_TO:
  "unat (TICKS_TO_SECS t) = unat t div 24576000"
  "unat (TICKS_TO_CYCLES t) = unat t div 3072 mod 8000"
  "unat (TICKS_TO_OFFSET t) = unat t mod 3072"
  by (simp_all add: TICKS_TO_SECS_def TICKS_TO_CYCLES_def TICKS_TO_OFFSET_def
      unat_div_distrib unat_mod_distrib)

lemma unat_TICKS_TO_CYCLE_TIMER:
  "unat (TICKS_TO_CYCLE_TIMER t) =
     (unat t div 24576000 mod 128) * 2 ^ 25 + (unat t div 3072 mod 8000) * 2 ^ 12 + unat t mod 3072"
proof -
  have "unat (TICKS_TO_SECS t AND 0x7F) = unat t div 24576000 mod 128"
    "unat (TICKS_TO_CYCLES t AND 0x1FFF) = unat t div 3072 mod 8000"
    "unat (TICKS_TO_OFFSET t AND 0xFFF) = unat t mod 3072"
    by (simp_all add: unat_and_mask_minus_one [where n = 7] unat_and_mask_minus_one [where n = 13]
        unat_and_mask_minus_one [where n = 12] unat_TICKS_TO)
  moreover have "unat t div 3072 mod 8000 < 8000" "unat t mod 3072 < 3072" by simp_all
  ultimately show ?thesis
    unfolding TICKS_TO_CYCLE_TIMER_def by (subst unat_pack_ctr) auto
qed

lemma unat_TICKS_TO_SYT:
  "unat (TICKS_TO_SYT t) = (unat t div 3072 mod 16) * 2 ^ 12 + unat t mod 3072"
proof -
  have c: "unat (TICKS_TO_CYCLES t AND 0xF) = unat t div 3072 mod 16"
    using mod_mod_cancel [of 16 8000 "unat t div 3072"]
    by (simp add: unat_and_mask_minus_one [where n = 4] unat_TICKS_TO)
  have f: "unat (TICKS_TO_OFFSET t AND 0xFFF) = unat t mod 3072"
    by (simp add: unat_and_mask_minus_one [where n = 12] unat_TICKS_TO)
  have f': "unat t mod 3072 < 3072" by simp
  have "TICKS_TO_SYT t = push_bit 25 0 OR push_bit 12 (TICKS_TO_CYCLES t AND 0xF) OR (TICKS_TO_OFFSET t AND 0xFFF)"
    by (simp add: TICKS_TO_SYT_def)
  moreover have "unat t div 3072 mod 16 < 16" by simp
  ultimately show ?thesis
    using c f f' by (simp only:) (subst unat_pack_ctr, auto)
qed

lemma unat_CYCLE_TIMER_TO_TICKS:
  "unat (CYCLE_TIMER_TO_TICKS x) =
     unat (CYCLE_TIMER_GET_SECS x) * 24576000 + unat (CYCLE_TIMER_GET_CYCLES x) * 3072
     + unat (CYCLE_TIMER_GET_OFFSET x)"
proof -
  have b: "unat (CYCLE_TIMER_GET_SECS x) < 128" "unat (CYCLE_TIMER_GET_CYCLES x) < 8192"
    "unat (CYCLE_TIMER_GET_OFFSET x) < 4096"
    by (simp_all add: unat_GET_SECS unat_GET_CYCLES unat_GET_OFFSET)
  have m1: "unat (CYCLE_TIMER_GET_SECS x * 24576000) = unat (CYCLE_TIMER_GET_SECS x) * 24576000"
    using b by (subst unat_mult_small) auto
  have m2: "unat (CYCLE_TIMER_GET_CYCLES x * 3072) = unat (CYCLE_TIMER_GET_CYCLES x) * 3072"
    using b by (subst unat_mult_small) auto
  have a: "unat (CYCLE_TIMER_GET_SECS x * 24576000 + CYCLE_TIMER_GET_CYCLES x * 3072) =
     unat (CYCLE_TIMER_GET_SECS x) * 24576000 + unat (CYCLE_TIMER_GET_CYCLES x) * 3072"
    using b m1 m2 by (subst unat_plus_small) auto
  show ?thesis
    unfolding CYCLE_TIMER_TO_TICKS_def using b a by (subst unat_plus_small) auto
qed

lemma ctr_fields_of_nat:
  fixes x :: u64
  assumes "unat x = s * 2 ^ 25 + c * 2 ^ 12 + f" "s < 128" "c < 8192" "f < 4096"
  shows "unat (CYCLE_TIMER_GET_SECS x) = s" "unat (CYCLE_TIMER_GET_CYCLES x) = c"
    "unat (CYCLE_TIMER_GET_OFFSET x) = f"
proof -
  have 1: "unat x div 2 ^ 25 = s"
    by (rule div_nat_eqI) (use assms in auto)
  have 2: "unat x div 2 ^ 12 = s * 2 ^ 13 + c"
    by (rule div_nat_eqI) (use assms in auto)
  have "unat x = (s * 2 ^ 13 + c) * 2 ^ 12 + f" using assms by simp
  then have 3: "unat x mod 2 ^ 12 = f" using assms(4) by (simp only: mod_mult_self3) simp
  show "unat (CYCLE_TIMER_GET_SECS x) = s" using 1 assms(2) by (simp add: unat_GET_SECS)
  show "unat (CYCLE_TIMER_GET_CYCLES x) = c" using 2 assms(3) by (simp add: unat_GET_CYCLES)
  show "unat (CYCLE_TIMER_GET_OFFSET x) = f" using 3 by (simp add: unat_GET_OFFSET)
qed

lemma ticks_fields_of_nat:
  fixes t :: u64
  assumes "unat t = s * 24576000 + c * 3072 + f" "c < 8000" "f < 3072"
  shows "unat t div 24576000 = s" "unat t div 3072 mod 8000 = c" "unat t mod 3072 = f"
proof -
  show "unat t div 24576000 = s"
    by (rule div_nat_eqI) (use assms in auto)
  have "unat t div 3072 = s * 8000 + c"
    by (rule div_nat_eqI) (use assms in auto)
  then show "unat t div 3072 mod 8000 = c" using assms(2) by simp
  have "unat t = (s * 8000 + c) * 3072 + f" using assms by simp
  then show "unat t mod 3072 = f" using assms(3) by (simp only: mod_mult_self3) simp
qed

lemma nat_ticks_split:
  "(t::nat) = (t div 24576000) * 24576000 + (t div 3072 mod 8000) * 3072 + t mod 3072"
proof -
  have "t div 24576000 = t div 3072 div 8000" by (simp add: div_mult2_eq [symmetric])
  moreover have "t div 3072 = (t div 3072 div 8000) * 8000 + t div 3072 mod 8000" by simp
  moreover have "t = t div 3072 * 3072 + t mod 3072" by simp
  ultimately show ?thesis by linarith
qed

lemma nat_ctr_split:
  "(x::nat) = (x div 33554432) * 33554432 + (x div 4096 mod 8192) * 4096 + x mod 4096"
proof -
  have "x div 33554432 = x div 4096 div 8192" by (simp add: div_mult2_eq [symmetric])
  moreover have "x div 4096 = (x div 4096 div 8192) * 8192 + x div 4096 mod 8192" by simp
  moreover have "x = x div 4096 * 4096 + x mod 4096" by simp
  ultimately show ?thesis by linarith
qed

section \<open>The common tail of the SYT functions\<close>

definition syt_expand :: "u64 \<Rightarrow> u32 \<Rightarrow> u64 \<Rightarrow> u64" where
  "syt_expand syt cycle secs =
     (let cycle_masked = ucast (cycle AND 0xF);
          syt_cycle = CYCLE_TIMER_GET_CYCLES syt;
          syt_cycle = (if syt_cycle < cycle_masked then syt_cycle + 0x10 else syt_cycle);
          new_cycles = ucast cycle + (syt_cycle - cycle_masked);
          timestamp = (if new_cycles < 8000 then new_cycles * TICKS_PER_CYCLE
                       else (new_cycles - 8000) * TICKS_PER_CYCLE + TICKS_PER_SECOND)
      in addTicks (timestamp + CYCLE_TIMER_GET_OFFSET syt) (secs * TICKS_PER_SECOND))"

lemma sytRecvToFullTicks_expand:
  "sytRecvToFullTicks syt cycle now =
     syt_expand syt cycle
       (if CYCLE_TIMER_GET_CYCLES now < ucast cycle
           \<and> 0 \<le>s diffCycles (ucast (CYCLE_TIMER_GET_CYCLES now)) cycle
        then (if CYCLE_TIMER_GET_SECS now \<noteq> 0 then CYCLE_TIMER_GET_SECS now - 1 else 127)
        else CYCLE_TIMER_GET_SECS now)"
  by (simp only: sytRecvToFullTicks_def syt_expand_def Let_def)

lemma sytXmitToFullTicks_expand:
  "sytXmitToFullTicks syt cycle now =
     syt_expand syt cycle
       (if ucast cycle < CYCLE_TIMER_GET_CYCLES now
           \<and> 0 \<le>s diffCycles cycle (ucast (CYCLE_TIMER_GET_CYCLES now))
        then (if CYCLE_TIMER_GET_SECS now \<noteq> 0 then CYCLE_TIMER_GET_SECS now - 1 else 127)
        else CYCLE_TIMER_GET_SECS now)"
  by (simp only: sytXmitToFullTicks_def syt_expand_def Let_def)

lemma syt_delta:
  fixes R d :: nat
  assumes "d < 16"
  shows "(if (R + d) mod 16 < R mod 16 then (R + d) mod 16 + 16 else (R + d) mod 16) = R mod 16 + d"
proof -
  define q where "q = R mod 16"
  have q: "q < 16" by (simp add: q_def)
  have "(R + d) mod 16 = (q + d) mod 16" by (simp add: q_def mod_simps)
  also have "\<dots> = (if q + d < 16 then q + d else q + d - 16)"
    using q assms by (simp add: mod_if)
  finally show ?thesis using q assms by (auto simp: q_def [symmetric])
qed

text \<open>The cycle the SYT points at, at both widths the sources compute it with.\<close>

lemma unat_syt_cycles_64:
  fixes c s :: u64
  assumes "d < 16" "unat c < 8000" "unat s = (unat c + d) mod 16" "unat m = unat c mod 16"
  shows "unat (c + ((if s < m then s + 0x10 else s) - m)) = unat c + d"
proof -
  have "unat (s + 0x10) = unat s + 16"
    using assms(3) by (subst unat_plus_small) (simp_all add: less_trans [OF mod_less_divisor])
  then have "unat (if s < m then s + 0x10 else s) = unat c mod 16 + d"
    using syt_delta [OF assms(1), of "unat c"] assms(3,4)
    by (simp add: word_less_nat_alt split: if_splits)
  then have "unat ((if s < m then s + 0x10 else s) - m) = d"
    using assms(4) by (subst unat_minus_small) simp_all
  then show ?thesis using assms(1,2) by (subst unat_plus_small) simp_all
qed

lemma unat_syt_cycles_32:
  fixes c s :: u32
  assumes "d < 16" "unat c < 8000" "unat s = (unat c + d) mod 16" "unat m = unat c mod 16"
  shows "unat (c + ((if s < m then s + 0x10 else s) - m)) = unat c + d"
proof -
  have "unat (s + 0x10) = unat s + 16"
    using assms(3) by (subst unat_plus_small) (simp_all add: less_trans [OF mod_less_divisor])
  then have "unat (if s < m then s + 0x10 else s) = unat c mod 16 + d"
    using syt_delta [OF assms(1), of "unat c"] assms(3,4)
    by (simp add: word_less_nat_alt split: if_splits)
  then have "unat ((if s < m then s + 0x10 else s) - m) = d"
    using assms(4) by (subst unat_minus_small) simp_all
  then show ?thesis using assms(1,2) by (subst unat_plus_small) simp_all
qed

text \<open>Both branches of the wrap at 8000 cycles give the same number of ticks.\<close>

lemma cycles_to_ticks_64:
  fixes nc :: u64
  shows "(if nc < 8000 then nc * TICKS_PER_CYCLE
          else (nc - 8000) * TICKS_PER_CYCLE + TICKS_PER_SECOND) = nc * TICKS_PER_CYCLE"
  by simp

lemma cycles_to_ticks_32:
  fixes nc :: u32
  assumes "unat nc < 16000"
  shows "unat (if nc < 8000 then ucast (nc * TICKS_PER_CYCLE)
          else ucast ((nc - 8000) * TICKS_PER_CYCLE) + TICKS_PER_SECOND) = unat nc * 3072"
proof (cases "nc < 8000")
  case True
  then show ?thesis using assms by (simp add: unat_mult_small)
next
  case False
  then have ge: "8000 \<le> unat nc" by (simp add: word_less_nat_alt)
  then have "unat (nc - 8000) = unat nc - 8000" by (simp add: unat_minus_small)
  then have "unat ((nc - 8000) * TICKS_PER_CYCLE) = (unat nc - 8000) * 3072"
    using assms by (subst unat_mult_small) simp_all
  moreover have "(unat nc - 8000) * 3072 + 24576000 = unat nc * 3072"
    using ge by (simp add: diff_mult_distrib)
  ultimately have "unat (ucast ((nc - 8000) * TICKS_PER_CYCLE) + TICKS_PER_SECOND) = unat nc * 3072"
    using assms by (subst unat_plus_small) (simp_all only: unat_ucast_32_64, simp_all)
  then show ?thesis using False by (simp only: if_False)
qed

lemma unat_add_second_ticks:
  fixes ts f secs :: u64
  assumes "unat ts + unat f < 25000000" "unat secs < 128"
  shows "unat (addTicks (ts + f) (secs * TICKS_PER_SECOND)) =
    (unat ts + unat f + unat secs * 24576000) mod 3145728000"
  using assms by (subst unat_addTicks) (simp_all add: unat_plus_small unat_mult_small)

lemma unat_syt_expand:
  assumes "unat cycle < 8000" "unat secs < 128" "d < 16" "off < 3072"
    and syt: "unat syt = ((unat cycle + d) mod 16) * 2 ^ 12 + off"
  shows "unat (syt_expand syt cycle secs) =
    ((unat cycle + d) * 3072 + off + unat secs * 24576000) mod 3145728000"
proof -
  have f: "unat (CYCLE_TIMER_GET_CYCLES syt) = (unat cycle + d) mod 16"
    "unat (CYCLE_TIMER_GET_OFFSET syt) = off"
    using ctr_fields_of_nat [of syt 0 "(unat cycle + d) mod 16" off] syt assms(4)
    by (simp_all add: less_trans [OF mod_less_divisor])
  define nc where "nc = ucast cycle + ((if CYCLE_TIMER_GET_CYCLES syt < ucast (cycle AND 0xF)
    then CYCLE_TIMER_GET_CYCLES syt + 0x10 else CYCLE_TIMER_GET_CYCLES syt) - ucast (cycle AND 0xF))"
  have nc: "unat nc = unat cycle + d"
    using unat_syt_cycles_64 [of d "ucast cycle" "CYCLE_TIMER_GET_CYCLES syt" "ucast (cycle AND 0xF)"]
      assms f by (simp add: nc_def unat_and_mask_minus_one [where n = 4])
  have "syt_expand syt cycle secs =
      addTicks (nc * TICKS_PER_CYCLE + CYCLE_TIMER_GET_OFFSET syt) (secs * TICKS_PER_SECOND)"
    by (simp only: syt_expand_def Let_def nc_def cycles_to_ticks_64)
  then show ?thesis
    using assms f nc by (simp add: unat_add_second_ticks unat_mult_small)
qed

lemma unat_sytRecvToFullTicks2:
  fixes ctr :: u32
  defines "x \<equiv> ucast ctr :: u64"
  assumes ctr: "unat (CYCLE_TIMER_GET_CYCLES x) < 8000" "d < 16" "off < 3072"
    and syt: "unat syt = ((unat (CYCLE_TIMER_GET_CYCLES x) + d) mod 16) * 2 ^ 12 + off"
  shows "unat (sytRecvToFullTicks2 syt ctr) =
    ((unat (CYCLE_TIMER_GET_CYCLES x) + d) * 3072 + off
      + unat (CYCLE_TIMER_GET_SECS x) * 24576000) mod 3145728000"
proof -
  let ?c = "ucast (CYCLE_TIMER_GET_CYCLES x) :: u32" and ?R = "unat (CYCLE_TIMER_GET_CYCLES x)"
  have c: "unat ?c = ?R" using ctr by (simp add: unat_ucast_64_32)
  have f: "unat (CYCLE_TIMER_GET_CYCLES syt) = (?R + d) mod 16" "unat (CYCLE_TIMER_GET_OFFSET syt) = off"
    using ctr_fields_of_nat [of syt 0 "(?R + d) mod 16" off] syt assms(4)
    by (simp_all add: less_trans [OF mod_less_divisor])
  then have f32: "unat (ucast (CYCLE_TIMER_GET_CYCLES syt) :: u32) = (?R + d) mod 16"
    by (simp add: unat_ucast_64_32 less_trans [OF mod_less_divisor])
  define nc :: u32 where "nc = ?c + ((if ucast (CYCLE_TIMER_GET_CYCLES syt) < ?c AND 0xF
    then ucast (CYCLE_TIMER_GET_CYCLES syt) + 0x10 else ucast (CYCLE_TIMER_GET_CYCLES syt)) - (?c AND 0xF))"
  have nc: "unat nc = ?R + d"
    unfolding nc_def using ctr c f32
    by (subst unat_syt_cycles_32 [where d = d]) (simp_all add: unat_and_mask_minus_one [where n = 4])
  have "sytRecvToFullTicks2 syt ctr = addTicks
      ((if nc < 8000 then ucast (nc * TICKS_PER_CYCLE)
        else ucast ((nc - 8000) * TICKS_PER_CYCLE) + TICKS_PER_SECOND) + CYCLE_TIMER_GET_OFFSET syt)
      (CYCLE_TIMER_GET_SECS x * TICKS_PER_SECOND)"
    by (simp only: sytRecvToFullTicks2_def Let_def nc_def x_def)
  moreover have "unat (if nc < 8000 then ucast (nc * TICKS_PER_CYCLE)
      else ucast ((nc - 8000) * TICKS_PER_CYCLE) + TICKS_PER_SECOND) = (?R + d) * 3072"
    using nc ctr by (subst cycles_to_ticks_32) simp_all
  ultimately show ?thesis
    using ctr f by (simp only:) (subst unat_add_second_ticks, simp_all add: unat_GET_SECS)
qed

lemma ticks_of_cycle_mod:
  fixes c f :: nat
  assumes "f < 3072"
  shows "(c * 3072 + f) mod 3145728000 = (c mod 1024000) * 3072 + f"
  using assms mod_mult2_eq [of "c * 3072 + f" 3072 1024000] by simp

lemma unat_TICKS_TO_SYT_of_cycle:
  assumes "d < 16" "off < 3072"
  shows "unat (TICKS_TO_SYT (word_of_nat (((r + d) * 3072 + off) mod 3145728000))) =
    ((r mod 8000 + d) mod 16) * 2 ^ 12 + off"
proof -
  let ?c = "(r + d) mod 1024000"
  have c: "?c < 1024000" by simp
  then have "?c * 3072 + off < 3145728000" using assms(2) by linarith
  then have "unat (word_of_nat (((r + d) * 3072 + off) mod 3145728000) :: u64) = ?c * 3072 + off"
    unfolding ticks_of_cycle_mod [OF assms(2)] by (intro unat_of_nat_64) linarith
  moreover have "(?c * 3072 + off) div 3072 = ?c" "(?c * 3072 + off) mod 3072 = off"
    using assms(2) by simp_all
  moreover have "?c mod 16 = (r + d) mod 16" by (rule mod_mod_cancel) simp
  moreover have "(r mod 8000 + d) mod 16 = (r mod 8000 mod 16 + d) mod 16" by (simp add: mod_simps)
  moreover have "r mod 8000 mod 16 = r mod 16" by (rule mod_mod_cancel) simp
  moreover have "(r mod 16 + d) mod 16 = (r + d) mod 16" by (simp add: mod_simps)
  ultimately show ?thesis by (simp add: unat_TICKS_TO_SYT)
qed

lemma ctr_now_fields:
  fixes c f :: nat
  assumes "f < 3072"
  defines "x \<equiv> TICKS_TO_CYCLE_TIMER (word_of_nat ((c * 3072 + f) mod 3145728000))"
  shows "unat (CYCLE_TIMER_GET_SECS x) = c div 8000 mod 128"
    and "unat (CYCLE_TIMER_GET_CYCLES x) = c mod 8000"
    and "unat (CYCLE_TIMER_GET_OFFSET x) = f"
proof -
  let ?c = "c mod 1024000"
  have c: "?c < 1024000" by simp
  then have "?c * 3072 + f < 3145728000" using assms(1) by linarith
  then have t: "unat (word_of_nat ((c * 3072 + f) mod 3145728000) :: u64) = ?c * 3072 + f"
    unfolding ticks_of_cycle_mod [OF assms(1)] by (intro unat_of_nat_64) linarith
  have "c mod (8000 * 128) = 8000 * (c div 8000 mod 128) + c mod 8000" by (rule mod_mult2_eq)
  then have e: "?c = 8000 * (c div 8000 mod 128) + c mod 8000" by simp
  then have d: "?c div 8000 = c div 8000 mod 128" "?c mod 8000 = c mod 8000"
    by (simp_all only: div_mult_self4 mod_mult_self4) simp_all
  have "(?c * 3072 + f) div 24576000 = (?c * 3072 + f) div 3072 div 8000"
    by (simp only: div_mult2_eq [symmetric]) simp
  moreover have "(?c * 3072 + f) div 3072 = ?c" "(?c * 3072 + f) mod 3072 = f"
    using assms(1) by simp_all
  ultimately have "unat x = (c div 8000 mod 128) * 2 ^ 25 + (c mod 8000) * 2 ^ 12 + f"
    unfolding x_def unat_TICKS_TO_CYCLE_TIMER t using d by simp
  moreover have "c div 8000 mod 128 < 128" "c mod 8000 < 8192" "f < 4096"
    using assms(1) by (simp_all add: less_trans [OF mod_less_divisor])
  ultimately show "unat (CYCLE_TIMER_GET_SECS x) = c div 8000 mod 128"
    "unat (CYCLE_TIMER_GET_CYCLES x) = c mod 8000" "unat (CYCLE_TIMER_GET_OFFSET x) = f"
    using ctr_fields_of_nat [of x] by blast+
qed

lemma unat_pred_mod_128:
  fixes w :: u64
  assumes "unat w = S mod 128"
  shows "unat (if w \<noteq> 0 then w - 1 else 127) = (S + 127) mod 128"
proof -
  define q where "q = S mod 128"
  have q: "q < 128" by (simp add: q_def)
  have w: "w = 0 \<longleftrightarrow> q = 0" using assms by (simp add: q_def unat_eq_zero flip: unat_eq_zero)
  have "(S + 127) mod 128 = (q + 127) mod 128" by (simp add: q_def mod_simps)
  also have "\<dots> = (if q = 0 then 127 else q - 1)" using q by (simp add: mod_if)
  finally have e: "(S + 127) mod 128 = (if q = 0 then 127 else q - 1)" .
  have "unat (w - 1) = q - 1" if "q \<noteq> 0"
    using assms that q by (subst unat_minus_small) (simp_all add: q_def)
  then show ?thesis using w e by simp
qed

lemma recv_seconds:
  fixes r lag f :: nat
  assumes "lag < 4000" "unat cycle = r mod 8000" "f < 3072"
  defines "x \<equiv> TICKS_TO_CYCLE_TIMER (word_of_nat (((r + lag) * 3072 + f) mod 3145728000))"
  shows "unat (if CYCLE_TIMER_GET_CYCLES x < ucast cycle
           \<and> 0 \<le>s diffCycles (ucast (CYCLE_TIMER_GET_CYCLES x)) cycle
        then (if CYCLE_TIMER_GET_SECS x \<noteq> 0 then CYCLE_TIMER_GET_SECS x - 1 else 127)
        else CYCLE_TIMER_GET_SECS x) = r div 8000 mod 128"
proof -
  define R where "R = r mod 8000"
  define S where "S = r div 8000"
  have r: "r = S * 8000 + R" and R: "R < 8000" by (simp_all add: R_def S_def)
  note fx = ctr_now_fields [OF assms(3), of "r + lag", folded x_def]
  have C: "uint (ucast (CYCLE_TIMER_GET_CYCLES x) :: u32) = int ((r + lag) mod 8000)"
    using fx(2) unat_ucast_64_32 [of "CYCLE_TIMER_GET_CYCLES x"]
    by (simp add: less_trans [OF mod_less_divisor] uint_eq_of_unat)
  have cy: "uint cycle = int R" using assms(2) by (simp add: R_def uint_eq_of_unat)
  show ?thesis
  proof (cases "R + lag < 8000")
    case True
    have "(r + lag) div 8000 = S" "(r + lag) mod 8000 = R + lag"
      using True unfolding r by (simp_all add: add.assoc)
    then show ?thesis
      using fx assms(2) by (simp add: word_less_nat_alt R_def [symmetric] S_def [symmetric])
  next
    case False
    have e: "r + lag = (S + 1) * 8000 + (R + lag - 8000)" using False r by simp
    have l: "R + lag - 8000 < 8000" using R assms(1) by simp
    have dm: "(q * 8000 + y) div 8000 = q" "(q * 8000 + y) mod 8000 = y" if "y < 8000" for q y :: nat
      using that by simp_all
    have "(r + lag) div 8000 = S + 1" "(r + lag) mod 8000 = R + lag - 8000"
      unfolding e using dm [OF l, of "S + 1"] by (simp_all only:)
    then have secs: "unat (CYCLE_TIMER_GET_SECS x) = (S + 1) mod 128"
      and cyc: "unat (CYCLE_TIMER_GET_CYCLES x) = R + lag - 8000"
      and C': "uint (ucast (CYCLE_TIMER_GET_CYCLES x) :: u32) = int R + int lag - 8000"
      using fx C False by simp_all
    have "sint (diffCycles (ucast (CYCLE_TIMER_GET_CYCLES x)) cycle) = int lag"
      using sint_diffCycles [of "ucast (CYCLE_TIMER_GET_CYCLES x)" cycle] C' cy R assms(1)
      by (simp add: Let_def)
    then have "CYCLE_TIMER_GET_CYCLES x < ucast cycle \<and>
        0 \<le>s diffCycles (ucast (CYCLE_TIMER_GET_CYCLES x)) cycle"
      using cyc assms(1,2) False R by (simp add: word_less_nat_alt word_sle_eq R_def [symmetric])
    moreover have "unat (if CYCLE_TIMER_GET_SECS x \<noteq> 0 then CYCLE_TIMER_GET_SECS x - 1 else 127) =
        (S + 1 + 127) mod 128"
      by (rule unat_pred_mod_128) (simp add: secs)
    ultimately show ?thesis by (simp add: S_def)
  qed
qed

lemma ticks_wrap_split:
  fixes r d off :: nat
  assumes "off < 3072"
  shows "((r mod 8000 + d) * 3072 + off + (r div 8000 mod 128) * 24576000) mod 3145728000 =
    ((r + d) * 3072 + off) mod 3145728000"
proof -
  have q: "r mod 1024000 = 8000 * (r div 8000 mod 128) + r mod 8000"
    using mod_mult2_eq [of r 8000 128] by simp
  have "(r mod 8000 + d) * 3072 + off + (r div 8000 mod 128) * 24576000 = (r mod 1024000 + d) * 3072 + off"
    unfolding q by simp
  moreover have "(r mod 1024000 + d) mod 1024000 = (r + d) mod 1024000" by (simp add: mod_simps)
  ultimately show ?thesis by (simp only: ticks_of_cycle_mod [OF assms])
qed

lemma ucast_ucast_ctr: "ucast (ucast (TICKS_TO_CYCLE_TIMER t) :: u32) = TICKS_TO_CYCLE_TIMER t"
proof -
  have "(unat t div 24576000 mod 128) * 2 ^ 25 + (unat t div 3072 mod 8000) * 2 ^ 12 + unat t mod 3072
      < 4294967296"
    using mod_less_divisor [of 128 "unat t div 24576000"] mod_less_divisor [of 8000 "unat t div 3072"]
      mod_less_divisor [of 3072 "unat t"] by simp
  then have "unat (ucast (TICKS_TO_CYCLE_TIMER t) :: u32) = unat (TICKS_TO_CYCLE_TIMER t)"
    by (intro unat_ucast_64_32) (simp add: unat_TICKS_TO_CYCLE_TIMER)
  then show ?thesis by (simp add: word_unat_eq_iff)
qed

lemma xmit_seconds:
  fixes n lead f :: nat
  assumes "lead < 4000" "unat cycle = (n + lead) mod 8000" "f < 3072"
  defines "x \<equiv> TICKS_TO_CYCLE_TIMER (word_of_nat ((n * 3072 + f) mod 3145728000))"
  shows "unat (if ucast cycle < CYCLE_TIMER_GET_CYCLES x
           \<and> 0 \<le>s diffCycles cycle (ucast (CYCLE_TIMER_GET_CYCLES x))
        then (if CYCLE_TIMER_GET_SECS x \<noteq> 0 then CYCLE_TIMER_GET_SECS x - 1 else 127)
        else CYCLE_TIMER_GET_SECS x) =
      (if n mod 8000 + lead < 8000 then n div 8000 else n div 8000 + 127) mod 128"
proof -
  define R where "R = n mod 8000"
  define S where "S = n div 8000"
  have R: "R < 8000" by (simp add: R_def)
  have cyc: "unat cycle = (R + lead) mod 8000"
    using assms(2) by (simp add: R_def mod_simps)
  note fx = ctr_now_fields [OF assms(3), of n, folded x_def R_def S_def]
  have C: "uint (ucast (CYCLE_TIMER_GET_CYCLES x) :: u32) = int R"
    using fx(2) R unat_ucast_64_32 [of "CYCLE_TIMER_GET_CYCLES x"] by (simp add: uint_eq_of_unat)
  show ?thesis
  proof (cases "R + lead < 8000")
    case True
    then show ?thesis using fx cyc by (simp add: word_less_nat_alt R_def [symmetric] S_def [symmetric])
  next
    case False
    then have cy: "unat cycle = R + lead - 8000" using cyc R assms(1) by (simp add: mod_if)
    then have "uint cycle = int R + int lead - 8000" using False uint_eq_of_unat [of cycle] by simp
    then have "sint (diffCycles cycle (ucast (CYCLE_TIMER_GET_CYCLES x))) = int lead"
      using sint_diffCycles [of cycle "ucast (CYCLE_TIMER_GET_CYCLES x)"] C R assms(1) by (simp add: Let_def)
    then have "ucast cycle < CYCLE_TIMER_GET_CYCLES x \<and>
        0 \<le>s diffCycles cycle (ucast (CYCLE_TIMER_GET_CYCLES x))"
      using cy fx(2) assms(1) False R by (simp add: word_less_nat_alt word_sle_eq)
    moreover have "unat (if CYCLE_TIMER_GET_SECS x \<noteq> 0 then CYCLE_TIMER_GET_SECS x - 1 else 127) =
        (S + 127) mod 128"
      by (rule unat_pred_mod_128) (simp add: fx)
    ultimately show ?thesis using False by (simp add: R_def S_def)
  qed
qed
section \<open>Correctness of the conversions\<close>

text \<open>C30. Converting a tick count below 128 seconds to a cycle timer register value and back
  gives the tick count again: no time within the range of the counter is lost.\<close>

theorem ticks_ctr_roundtrip:
  assumes "t < TICKS_PER_SECOND * 128"
  shows "CYCLE_TIMER_TO_TICKS (TICKS_TO_CYCLE_TIMER t) = t"
proof -
  have t: "unat t < 3145728000" using assms by (simp add: word_less_nat_alt)
  then have s: "unat t div 24576000 < 128" by (simp add: less_mult_imp_div_less)
  have "unat (CYCLE_TIMER_TO_TICKS (TICKS_TO_CYCLE_TIMER t)) =
      (unat t div 24576000) * 24576000 + (unat t div 3072 mod 8000) * 3072 + unat t mod 3072"
    using s ctr_fields_of_nat [of "TICKS_TO_CYCLE_TIMER t" "unat t div 24576000"
        "unat t div 3072 mod 8000" "unat t mod 3072"]
    by (simp add: unat_CYCLE_TIMER_TO_TICKS unat_TICKS_TO_CYCLE_TIMER less_trans [OF mod_less_divisor])
  then show ?thesis by (metis nat_ticks_split word_unat_eq_iff)
qed

theorem ticks_ctr_roundtrip_witness:
  "CYCLE_TIMER_TO_TICKS (TICKS_TO_CYCLE_TIMER 3145727999) = 3145727999"
  by (rule ticks_ctr_roundtrip) simp

text \<open>C31. Every 32-bit register value whose cycle and offset fields are in range survives the
  conversion to ticks and back.\<close>

theorem ctr_ticks_roundtrip:
  assumes "x < 0x100000000" "CYCLE_TIMER_GET_CYCLES x < 8000" "CYCLE_TIMER_GET_OFFSET x < 3072"
  shows "TICKS_TO_CYCLE_TIMER (CYCLE_TIMER_TO_TICKS x) = x"
proof -
  let ?s = "unat (CYCLE_TIMER_GET_SECS x)" and ?c = "unat (CYCLE_TIMER_GET_CYCLES x)"
    and ?f = "unat (CYCLE_TIMER_GET_OFFSET x)"
  have x: "unat x < 2 ^ 32" using assms(1) by (simp add: word_less_nat_alt)
  have cf: "?c < 8000" "?f < 3072" using assms(2,3) by (simp_all add: word_less_nat_alt)
  have s: "?s < 128" by (simp add: unat_GET_SECS)
  have "unat x div 2 ^ 25 < 2 ^ 7" using x by (simp add: less_mult_imp_div_less)
  then have "unat x = ?s * 2 ^ 25 + ?c * 2 ^ 12 + ?f"
    using nat_ctr_split [of "unat x"] by (simp add: unat_GET_SECS unat_GET_CYCLES unat_GET_OFFSET)
  then have "unat (TICKS_TO_CYCLE_TIMER (CYCLE_TIMER_TO_TICKS x)) = unat x"
    using s ticks_fields_of_nat [OF unat_CYCLE_TIMER_TO_TICKS [of x] cf]
    by (simp add: unat_TICKS_TO_CYCLE_TIMER)
  then show ?thesis by (simp only: word_unat_eq_iff)
qed

theorem ctr_ticks_roundtrip_witness:
  "TICKS_TO_CYCLE_TIMER (CYCLE_TIMER_TO_TICKS 0x140001DA) = 0x140001DA"
  by (rule ctr_ticks_roundtrip) (simp_all add: CYCLE_TIMER_GET_CYCLES_def CYCLE_TIMER_GET_OFFSET_def)

text \<open>On wrapped timestamps, \<open>addTicks\<close> and \<open>substractTicks\<close> are addition and subtraction
  modulo 128 seconds, and each undoes the other.\<close>

theorem addTicks_substractTicks:
  assumes "x < TICKS_PER_SECOND * 128" and "y < TICKS_PER_SECOND * 128"
  shows "unat (addTicks x y) = (unat x + unat y) mod 3145728000
    \<and> uint (substractTicks x y) = (uint x - uint y) mod 3145728000
    \<and> substractTicks (addTicks x y) y = x
    \<and> addTicks (substractTicks x y) y = x"
proof -
  have b: "unat x < 3145728000" "unat y < 3145728000" using assms by (simp_all add: word_less_nat_alt)
  have u: "uint x < 3145728000" "uint y < 3145728000" using assms by (simp_all add: word_less_def)
  have add: "unat (addTicks x y) = (unat x + unat y) mod 3145728000"
    using b by (simp add: unat_addTicks)
  have sub: "uint (substractTicks x y) = (uint x - uint y) mod 3145728000"
    using u by (simp add: uint_substractTicks)
  have ua: "uint (addTicks x y) = (uint x + uint y) mod 3145728000"
    using add uint_eq_of_unat [OF add] by (simp add: zmod_int)
  then have "uint (substractTicks (addTicks x y) y) = uint x"
    using u by (simp add: uint_substractTicks mod_simps)
  then have "substractTicks (addTicks x y) y = x" by (simp only: word_uint_eq_iff)
  moreover have "substractTicks x y < 3145728000" using sub by (simp add: word_less_def)
  then have us: "unat (substractTicks x y) < 3145728000" by (simp add: word_less_nat_alt)
  have "uint (addTicks (substractTicks x y) y) = (uint (substractTicks x y) + uint y) mod 3145728000"
    using us b uint_eq_of_unat [OF unat_addTicks [of "substractTicks x y" y]] by (simp add: zmod_int)
  then have "uint (addTicks (substractTicks x y) y) = uint x" using u sub by (simp add: mod_simps)
  then have "addTicks (substractTicks x y) y = x" by (simp only: word_uint_eq_iff)
  ultimately show ?thesis using add sub by blast
qed

theorem addTicks_substractTicks_witness:
  "unat (addTicks 3145727999 10) = 9 \<and> uint (substractTicks 3 10) = 3145727993
   \<and> substractTicks (addTicks 3145727999 10) 10 = 3145727999 \<and> addTicks (substractTicks 3 10) 10 = 3"
  using addTicks_substractTicks [of 3145727999 10] addTicks_substractTicks [of 3 10] by simp

text \<open>C25. \<open>diffTicks\<close> of wrapped timestamps is the difference modulo 128 seconds, taken in the
  symmetric window of 64 seconds; it therefore recovers every advance of less than 64 seconds,
  also across the wrap of the counter.\<close>

theorem diffTicks_window:
  assumes "x < TICKS_PER_SECOND * 128" and "y < TICKS_PER_SECOND * 128"
  shows "\<bar>sint (diffTicks x y)\<bar> \<le> 1572864000
    \<and> sint (diffTicks x y) mod 3145728000 = (uint x - uint y) mod 3145728000
    \<and> (y < 1572864000 \<longrightarrow> sint (diffTicks (addTicks x y) x) = uint y)"
proof (intro conjI impI)
  have b: "unat x < 3145728000" "unat y < 3145728000" using assms by (simp_all add: word_less_nat_alt)
  have u: "uint x < 3145728000" "uint y < 3145728000" using assms by (simp_all add: word_less_def)
  note d = sint_diffTicks [OF u, unfolded Let_def]
  show "\<bar>sint (diffTicks x y)\<bar> \<le> 1572864000"
    using symmetric_window [of 3145728000 1572864000 "uint x" "uint y"] u d by simp
  show "sint (diffTicks x y) mod 3145728000 = (uint x - uint y) mod 3145728000"
    unfolding d by simp
  assume "y < 1572864000"
  then have y: "uint y < 1572864000" by (simp add: word_less_def)
  have a: "uint (addTicks x y) = (uint x + uint y) mod 3145728000"
    using b uint_eq_of_unat [OF unat_addTicks [of x y]] by (simp add: zmod_int)
  have "(uint x + uint y) mod 3145728000 =
      (if uint x + uint y < 3145728000 then uint x + uint y else uint x + uint y - 3145728000)"
    using u by (intro zmod_window_double) simp_all
  moreover have "uint (addTicks x y) < 3145728000" unfolding a by simp
  moreover have "\<not> uint y < - 1572864000" using uint_ge_0 [of y] by linarith
  ultimately show "sint (diffTicks (addTicks x y) x) = uint y"
    using sint_diffTicks [of "addTicks x y" x] a u y by (simp add: Let_def split: if_splits)
qed

theorem diffTicks_window_witness:
  "\<bar>sint (diffTicks 5 3145727990)\<bar> \<le> 1572864000 \<and>
   sint (diffTicks 5 3145727990) mod 3145728000 = (5 - 3145727990) mod 3145728000 \<and>
   sint (diffTicks (addTicks 3145727990 15) 3145727990) = 15"
  using diffTicks_window [of 5 3145727990] diffTicks_window [of 3145727990 15] by simp

section \<open>Correctness of the SYT reconstruction\<close>

text \<open>C11. A packet is received in cycle \<open>r\<close> and handled less than half a second later, at
  \<open>lag\<close> cycles after \<open>r\<close>. Its SYT field is the low part of a presentation time at most 15 cycles
  after \<open>r\<close>. Then \<open>sytRecvToFullTicks\<close> rebuilds the whole presentation time, whatever wraps of
  the seconds or of the 128 second counter lie in between.\<close>

theorem sytRecvToFullTicks_correct:
  fixes r lag d off noff :: nat
  assumes "lag < 4000" "d < 16" "off < 3072" "noff < 3072"
  shows "sytRecvToFullTicks
           (TICKS_TO_SYT (word_of_nat (((r + d) * 3072 + off) mod 3145728000)))
           (word_of_nat (r mod 8000))
           (TICKS_TO_CYCLE_TIMER (word_of_nat (((r + lag) * 3072 + noff) mod 3145728000))) =
         word_of_nat (((r + d) * 3072 + off) mod 3145728000)"
    (is "sytRecvToFullTicks ?syt ?cycle ?now = word_of_nat ?t")
proof -
  have cy: "unat ?cycle = r mod 8000" by (simp add: less_trans [OF mod_less_divisor])
  then have "unat (sytRecvToFullTicks ?syt ?cycle ?now) =
      ((r mod 8000 + d) * 3072 + off + (r div 8000 mod 128) * 24576000) mod 3145728000"
    unfolding sytRecvToFullTicks_expand
    using recv_seconds [OF assms(1) cy assms(4)] unat_TICKS_TO_SYT_of_cycle [OF assms(2,3), of r] assms(2,3)
    by (subst unat_syt_expand [where d = d and off = off]) (simp_all only: cy, simp_all)
  also have "\<dots> = ?t" by (rule ticks_wrap_split [OF assms(3)])
  finally show ?thesis by (simp add: word_unat_eq_iff less_trans [OF mod_less_divisor])
qed


theorem sytRecvToFullTicks_correct_witness:
  "sytRecvToFullTicks (TICKS_TO_SYT (word_of_nat (((1023999 + 2) * 3072 + 7) mod 3145728000)))
     (word_of_nat (1023999 mod 8000))
     (TICKS_TO_CYCLE_TIMER (word_of_nat (((1023999 + 40) * 3072 + 100) mod 3145728000))) = 3079"
  using sytRecvToFullTicks_correct [of 40 2 7 100 1023999] by simp

text \<open>C32. The same for \<open>sytRecvToFullTicks2\<close>, which takes the cycle timer value of the reception
  itself instead of the receive cycle and the current time.\<close>

theorem sytRecvToFullTicks2_correct:
  fixes r d off roff :: nat
  assumes "d < 16" "off < 3072" "roff < 3072"
  shows "sytRecvToFullTicks2
           (TICKS_TO_SYT (word_of_nat (((r + d) * 3072 + off) mod 3145728000)))
           (ucast (TICKS_TO_CYCLE_TIMER (word_of_nat ((r * 3072 + roff) mod 3145728000)))) =
         word_of_nat (((r + d) * 3072 + off) mod 3145728000)"
    (is "sytRecvToFullTicks2 ?syt (ucast ?ctr) = word_of_nat ?t")
proof -
  note fx = ctr_now_fields [OF assms(3), of r]
  have "unat (sytRecvToFullTicks2 ?syt (ucast ?ctr)) =
      ((r mod 8000 + d) * 3072 + off + (r div 8000 mod 128) * 24576000) mod 3145728000"
    using unat_TICKS_TO_SYT_of_cycle [OF assms(1,2), of r] assms(1,2) fx
    by (subst unat_sytRecvToFullTicks2 [where d = d and off = off]) (simp_all add: ucast_ucast_ctr)
  also have "\<dots> = ?t" by (rule ticks_wrap_split [OF assms(2)])
  finally show ?thesis by (simp add: word_unat_eq_iff less_trans [OF mod_less_divisor])
qed

theorem sytRecvToFullTicks2_correct_witness:
  "sytRecvToFullTicks2 (TICKS_TO_SYT (word_of_nat (((15999 + 3) * 3072 + 7) mod 3145728000)))
     (ucast (TICKS_TO_CYCLE_TIMER (word_of_nat ((15999 * 3072 + 9) mod 3145728000)))) = 49158151"
  using sytRecvToFullTicks2_correct [of 3 7 9 15999] by simp

text \<open>C33. The transmit variant rebuilds the presentation time of a packet that leaves \<open>lead\<close>
  cycles after the current cycle as long as no full second lies in between. When one does, it
  takes a second off where it should add one, and the result is two seconds early.\<close>

theorem sytXmitToFullTicks_value:
  fixes n lead d off noff :: nat
  assumes "lead < 4000" "d < 16" "off < 3072" "noff < 3072"
  shows "sytXmitToFullTicks
           (TICKS_TO_SYT (word_of_nat (((n + lead + d) * 3072 + off) mod 3145728000)))
           (word_of_nat ((n + lead) mod 8000))
           (TICKS_TO_CYCLE_TIMER (word_of_nat ((n * 3072 + noff) mod 3145728000))) =
         word_of_nat (((n + lead + d) * 3072 + off
           + (if n mod 8000 + lead < 8000 then 0 else 126 * 24576000)) mod 3145728000)"
    (is "sytXmitToFullTicks ?syt ?cycle ?now = word_of_nat (?t mod _)")
proof -
  define r where "r = n + lead"
  define k where "k = (if n mod 8000 + lead < 8000 then 0 else 126 :: nat)"
  have cy: "unat ?cycle = (n + lead) mod 8000" by (simp add: less_trans [OF mod_less_divisor])
  have "(if n mod 8000 + lead < 8000 then n div 8000 else n div 8000 + 127) mod 128 =
      (r div 8000 + k) mod 128"
    using assms(1) div_mod_carry [of lead 8000 n] by (simp add: r_def k_def add.commute)
  then have "unat (sytXmitToFullTicks ?syt ?cycle ?now) =
      ((r mod 8000 + d) * 3072 + off + ((r div 8000 + k) mod 128) * 24576000) mod 3145728000"
    unfolding sytXmitToFullTicks_expand
    using xmit_seconds [OF assms(1) cy assms(4)] unat_TICKS_TO_SYT_of_cycle [OF assms(2,3), of r] assms(2,3)
    by (subst unat_syt_expand [where d = d and off = off]) (simp_all only: cy r_def, simp_all)
  also have "\<dots> = ((r + k * 8000 + d) * 3072 + off) mod 3145728000"
    using ticks_wrap_split [OF assms(3), of "r + k * 8000" d] by (simp add: add.commute)
  also have "(r + k * 8000 + d) * 3072 + off = ?t" by (simp add: r_def k_def)
  finally show ?thesis by (simp add: word_unat_eq_iff less_trans [OF mod_less_divisor])
qed

theorem sytXmitToFullTicks_value_witness:
  "sytXmitToFullTicks (TICKS_TO_SYT (word_of_nat (((23999 + 2 + 3) * 3072 + 7) mod 3145728000)))
     (word_of_nat ((23999 + 2) mod 8000))
     (TICKS_TO_CYCLE_TIMER (word_of_nat ((23999 * 3072 + 0) mod 3145728000))) = 24588295"
  using sytXmitToFullTicks_value [of 2 3 7 0 23999] by simp

section \<open>Cycle numbers\<close>

text \<open>\<open>diffCycles\<close> is the cycle difference modulo 8000 in the symmetric window of half a
  second.\<close>

theorem diffCycles_window:
  assumes "x < 8000" and "y < 8000"
  shows "\<bar>sint (diffCycles x y)\<bar> \<le> 4000
    \<and> sint (diffCycles x y) mod 8000 = (uint x - uint y) mod 8000"
proof (intro conjI)
  have u: "uint x < 8000" "uint y < 8000" using assms by (simp_all add: word_less_def)
  note d = sint_diffCycles [OF u, unfolded Let_def]
  show "\<bar>sint (diffCycles x y)\<bar> \<le> 4000"
    using symmetric_window [of 8000 4000 "uint x" "uint y"] u d by simp
  show "sint (diffCycles x y) mod 8000 = (uint x - uint y) mod 8000"
    unfolding d by simp
qed

theorem diffCycles_window_witness:
  "\<bar>sint (diffCycles 3 7998)\<bar> \<le> 4000 \<and> sint (diffCycles 3 7998) mod 8000 = 5"
  using diffCycles_window [of 3 7998] by simp

text \<open>C34. The sum of two cycle numbers is wrapped at 8000 cycles, except that a sum of exactly
  8000 is left as it is: there the result is not a valid cycle number.\<close>

theorem addCycles_value:
  assumes "x < 8000" and "y < 8000"
  shows "unat (addCycles x y) =
    (if unat x + unat y = 8000 then 8000 else (unat x + unat y) mod 8000)"
proof -
  have b: "unat x < 8000" "unat y < 8000" using assms by (simp_all add: word_less_nat_alt)
  then have s: "unat (x + y) = unat x + unat y" by (simp add: unat_plus_small)
  have "unat (x + y - 8000) = unat x + unat y - 8000" if "8000 < unat x + unat y"
    using s that by (subst unat_minus_small) simp_all
  then show ?thesis
    using b by (auto simp: addCycles_def Let_def word_less_nat_alt s mod_if)
qed

theorem addCycles_value_witness: "unat (addCycles 4000 4000) = 8000 \<and> unat (addCycles 7999 3) = 2"
  using addCycles_value [of 4000 4000] addCycles_value [of 7999 3] by simp

end
