(* ===== verification/Ring_Lists.thy ===== *)
theory Ring_Lists
  imports FFADO_Prelude
begin

text \<open>
  A list used as a ring: the segment of \<open>n\<close> elements that starts at a position and continues at
  the front of the list when it reaches the end, and the update of such a segment. The lemmas are
  the laws of segments that the ring buffers of the sources need: how segments compose, how they
  look when they do not wrap around, and which of them an update leaves alone.
\<close>

lemma mod_offset:
  fixes i n N :: nat
  assumes "i < N" and "n \<le> N"
  shows "(i + N - n) mod N = (if n \<le> i then i - n else i + N - n)"
proof (cases "n \<le> i")
  case True
  then have "i + N - n = (i - n) + N" by simp
  then have "(i + N - n) mod N = (i - n) mod N" by (simp only: mod_add_self2)
  then show ?thesis using assms True by (simp add: less_imp_diff_less)
next
  case False
  then show ?thesis using assms by simp
qed

definition ring_slice :: "'a list \<Rightarrow> nat \<Rightarrow> nat \<Rightarrow> 'a list" where
  "ring_slice xs r n = map (\<lambda>i. xs ! ((r + i) mod length xs)) [0..<n]"

definition ring_put :: "'a list \<Rightarrow> nat \<Rightarrow> 'a list \<Rightarrow> 'a list" where
  "ring_put xs w bs =
     map (\<lambda>j. let i = (j + length xs - w mod length xs) mod length xs
              in if i < length bs then bs ! i else xs ! j) [0..<length xs]"

section \<open>Distances on a ring\<close>

definition ring_dist :: "nat \<Rightarrow> nat \<Rightarrow> nat \<Rightarrow> nat" where
  "ring_dist N r w = (w mod N + N - r mod N) mod N"

lemma int_ring_dist:
  assumes "0 < N"
  shows "int (ring_dist N r w) = (int w - int r) mod int N"
proof -
  have "r mod N \<le> w mod N + N"
    using assms by (simp add: trans_le_add2 less_imp_le)
  then have "int (w mod N + N - r mod N) = int (w mod N) + int N - int (r mod N)"
    by (simp add: of_nat_diff)
  then have "int (ring_dist N r w) = (int w mod int N + int N - int r mod int N) mod int N"
    by (simp add: ring_dist_def zmod_int)
  also have "\<dots> = (int w - int r) mod int N"
    by (metis mod_add_self2 mod_diff_eq add_diff_eq diff_add_eq)
  finally show ?thesis .
qed

lemma ring_dist_less: "0 < N \<Longrightarrow> ring_dist N r w < N"
  by (simp add: ring_dist_def)

lemma ring_dist_add [ring_arith]:
  assumes "0 < N"
  shows "ring_dist N r (r + n) = n mod N"
proof -
  have "int (ring_dist N r (r + n)) = int (n mod N)"
    using assms by (simp add: int_ring_dist zmod_int)
  then show ?thesis by (simp only: of_nat_eq_iff)
qed

lemma ring_dist_mod [simp]: "ring_dist N (r mod N) w = ring_dist N r w" "ring_dist N r (w mod N) = ring_dist N r w"
  by (simp_all add: ring_dist_def)

text \<open>The position at a given distance.\<close>

lemma add_ring_dist:
  assumes "0 < N" and "w < N"
  shows "(r + ring_dist N r w) mod N = w"
proof -
  have "int ((r + ring_dist N r w) mod N) = (int r + (int w - int r) mod int N) mod int N"
    using assms by (simp add: zmod_int int_ring_dist)
  also have "\<dots> = int w"
    using assms by (simp add: mod_add_right_eq)
  finally show ?thesis by (simp only: of_nat_eq_iff)
qed

text \<open>Two walks from the same point end at a distance that is the difference of their lengths.\<close>

lemma ring_dist_walks [ring_arith]:
  assumes "n \<le> N" and "0 < N"
  shows "ring_dist N (r + n) (r + i) = (i + N - n) mod N"
proof -
  have "int (ring_dist N (r + n) (r + i)) = (int i - int n) mod int N"
    using assms by (simp add: int_ring_dist)
  also have "\<dots> = (int i + int N - int n) mod int N"
    by (metis mod_add_self2 add_diff_eq diff_add_eq)
  also have "\<dots> = int ((i + N - n) mod N)"
    using assms by (simp add: zmod_int of_nat_diff)
  finally show ?thesis by (simp only: of_nat_eq_iff)
qed

lemma ring_dist_advance_read [ring_arith]:
  assumes "0 < N" and "n \<le> ring_dist N r w"
  shows "ring_dist N (r + n) w = ring_dist N r w - n"
proof -
  have "int (ring_dist N (r + n) w) = (int w - int r - int n) mod int N"
    using assms by (simp add: int_ring_dist algebra_simps)
  also have "\<dots> = ((int w - int r) mod int N - int n) mod int N"
    by (metis mod_diff_left_eq)
  also have "\<dots> = int (ring_dist N r w - n) mod int N"
    using assms by (simp add: int_ring_dist of_nat_diff)
  also have "\<dots> = int (ring_dist N r w - n)"
    using ring_dist_less [OF assms(1), of r w] by simp
  finally show ?thesis by (simp only: of_nat_eq_iff)
qed

lemma ring_dist_advance_write [ring_arith]:
  assumes "0 < N" and "ring_dist N r w + n < N"
  shows "ring_dist N r (w + n) = ring_dist N r w + n"
proof -
  have "int (ring_dist N r (w + n)) = ((int w - int r) + int n) mod int N"
    using assms by (simp add: int_ring_dist algebra_simps)
  also have "\<dots> = ((int w - int r) mod int N + int n) mod int N"
    by (metis mod_add_left_eq)
  also have "\<dots> = int (ring_dist N r w + n)"
    using assms by (simp add: int_ring_dist [symmetric])
  finally show ?thesis by (simp only: of_nat_eq_iff)
qed

section \<open>Segments\<close>

lemma length_ring_slice [simp]: "length (ring_slice xs r n) = n"
  by (simp add: ring_slice_def)

lemma ring_slice_0 [simp]: "ring_slice xs r 0 = []"
  by (simp add: ring_slice_def)

lemma nth_ring_slice: "i < n \<Longrightarrow> ring_slice xs r n ! i = xs ! ((r + i) mod length xs)"
  by (simp add: ring_slice_def)

lemma ring_slice_mod [simp]: "ring_slice xs (r mod length xs) n = ring_slice xs r n"
  by (simp add: ring_slice_def mod_simps)

lemma ring_slice_add: "ring_slice xs r (m + n) = ring_slice xs r m @ ring_slice xs (r + m) n"
  by (rule nth_equalityI) (auto simp: nth_ring_slice nth_append)

lemma take_ring_slice: "take k (ring_slice xs r n) = ring_slice xs r (min k n)"
  by (rule nth_equalityI) (auto simp: nth_ring_slice)

lemma drop_ring_slice: "k \<le> n \<Longrightarrow> drop k (ring_slice xs r n) = ring_slice xs (r + k) (n - k)"
  by (rule nth_equalityI) (auto simp: nth_ring_slice ac_simps)

lemma ring_slice_flat:
  assumes "r + n \<le> length xs"
  shows "ring_slice xs r n = take n (drop r xs)"
  using assms by (intro nth_equalityI) (auto simp: nth_ring_slice)

section \<open>Updates\<close>

lemma length_ring_put [simp]: "length (ring_put xs w bs) = length xs"
  by (simp add: ring_put_def)

lemma nth_ring_put:
  assumes "j < length xs"
  shows "ring_put xs w bs ! j =
           (if ring_dist (length xs) w j < length bs then bs ! ring_dist (length xs) w j else xs ! j)"
  using assms by (simp add: ring_put_def ring_dist_def Let_def)

lemma ring_put_Nil [simp]: "ring_put xs w [] = xs"
  by (rule nth_equalityI) (simp_all add: nth_ring_put)

lemma ring_put_mod [simp]: "ring_put xs (w mod length xs) bs = ring_put xs w bs"
  by (simp add: ring_put_def)

lemma ring_put_flat:
  assumes "w + length bs \<le> length xs" "w < length xs"
  shows "take w xs @ bs @ drop (w + length bs) xs = ring_put xs w bs"
proof (rule nth_equalityI)
  fix j assume "j < length (take w xs @ bs @ drop (w + length bs) xs)"
  then have j: "j < length xs" using assms by simp
  have dist: "ring_dist (length xs) w j = (if w \<le> j then j - w else j + length xs - w)"
    using j assms mod_offset [of j "length xs" w] by (simp add: ring_dist_def)
  show "(take w xs @ bs @ drop (w + length bs) xs) ! j = ring_put xs w bs ! j"
    using j assms by (auto simp: nth_ring_put dist nth_append)
qed (use assms in simp)

lemma ring_put_append:
  assumes "length as + length bs \<le> length xs"
  shows "ring_put (ring_put xs w as) (w + length as) bs = ring_put xs w (as @ bs)"
proof (rule nth_equalityI)
  let ?N = "length xs"
  fix j assume "j < length (ring_put (ring_put xs w as) (w + length as) bs)"
  then have j: "j < ?N" and N: "0 < ?N" by auto
  define i where "i = ring_dist ?N w j"
  have iN: "i < ?N" using N by (simp add: i_def ring_dist_less)
  have "ring_dist ?N (w + length as) j = ring_dist ?N (w + length as) (w + i)"
    using add_ring_dist [OF N j, of w] by (metis i_def ring_dist_mod(2))
  also have "\<dots> = (i + ?N - length as) mod ?N"
    using assms N by (intro ring_dist_walks) auto
  also have "\<dots> = (if length as \<le> i then i - length as else i + ?N - length as)"
    using iN assms by (intro mod_offset) simp_all
  finally show "ring_put (ring_put xs w as) (w + length as) bs ! j = ring_put xs w (as @ bs) ! j"
    using j assms iN by (auto simp: nth_ring_put nth_append i_def [symmetric])
qed simp

text \<open>Writing right behind a segment extends it and keeps what it had.\<close>

lemma ring_slice_put:
  assumes "n + length bs \<le> length xs"
  shows "ring_slice (ring_put xs (r + n) bs) r (n + length bs) = ring_slice xs r n @ bs"
proof (rule nth_equalityI)
  let ?N = "length xs"
  fix i assume "i < length (ring_slice (ring_put xs (r + n) bs) r (n + length bs))"
  then have i: "i < n + length bs" and N: "0 < ?N" using assms by auto
  have "ring_dist ?N (r + n) ((r + i) mod ?N) = (i + ?N - n) mod ?N"
    using assms N by (simp add: ring_dist_walks)
  also have "\<dots> = (if n \<le> i then i - n else i + ?N - n)"
    using i assms by (intro mod_offset) simp_all
  finally show "ring_slice (ring_put xs (r + n) bs) r (n + length bs) ! i = (ring_slice xs r n @ bs) ! i"
    using i assms N by (auto simp: nth_ring_slice nth_ring_put nth_append)
qed simp

end
