(* ===== verification/RingBuffer.thy ===== *)
theory RingBuffer
  imports Ring_Lists
begin

text \<open>
  The lock-free byte ring buffer of \<open>src/src/libutil/ringbuffer.c\<close>, on which the timestamped
  buffers and the packet buffers of the streaming engine are built. All counters are \<open>size_t\<close>
  words; \<open>memcpy\<close> is checked against the bounds of the objects it touches, so an operation that
  returns \<open>Inr\<close> has stayed inside them. Memory allocation is assumed to succeed, as the code
  itself assumes (it never tests the result of \<open>malloc\<close>); the bytes it returns are arbitrary.

  The abstraction of a ring buffer is the list of bytes it holds, oldest first. Reading and
  writing refine the operations of a bounded first-in first-out queue; the interface is stated as
  the locale \<open>byte_fifo\<close> and interpreted on the functions below.
\<close>

section \<open>The data structure\<close>

record ringbuffer =
  rb_buf :: "byte list"
  rb_write_ptr :: u64
  rb_read_ptr :: u64
  rb_size :: u64
  rb_size_mask :: u64
  rb_mlocked :: bool

text \<open>A segment of the buffer: the pointer is the offset from the start of the storage.\<close>

record ringbuffer_data =
  rd_buf :: u64
  rd_len :: u64

text \<open>
  The loop that looks for the exponent of the size: the shift \<open>1 << power_of_two\<close> is done on an
  \<open>int\<close> and is undefined from 31 on.
\<close>

function create_power :: "nat \<Rightarrow> u64 \<Rightarrow> nat result" where
  "create_power p sz =
     (if 31 \<le> p then Inl ShiftOverflow
      else if 2 ^ p < sz then create_power (Suc p) sz
      else Inr p)"
  by pat_completeness auto
termination
  by (relation "measure (\<lambda>(p, sz). 31 - p)") auto

declare create_power.simps [simp del]

definition ffado_ringbuffer_create :: "(nat \<Rightarrow> byte) \<Rightarrow> u64 \<Rightarrow> ringbuffer result" where
  "ffado_ringbuffer_create heap sz =
     bind_result (create_power 1 sz) (\<lambda>power_of_two.
       Inr \<lparr>rb_buf = map heap [0..<2 ^ power_of_two], rb_write_ptr = 0, rb_read_ptr = 0,
            rb_size = 2 ^ power_of_two, rb_size_mask = 2 ^ power_of_two - 1, rb_mlocked = False\<rparr>)"

text \<open>\<open>mlock\<close> is the result of the system call of that name; it is only made in a build with
  \<open>USE_MLOCK\<close>.\<close>

definition ffado_ringbuffer_mlock :: "bool \<Rightarrow> (ringbuffer \<Rightarrow> int) \<Rightarrow> ringbuffer \<Rightarrow> int \<times> ringbuffer" where
  "ffado_ringbuffer_mlock use_mlock mlock rb =
     (if use_mlock \<and> mlock rb \<noteq> 0 then (- 1, rb) else (0, rb\<lparr>rb_mlocked := True\<rparr>))"

definition ffado_ringbuffer_reset :: "ringbuffer \<Rightarrow> ringbuffer" where
  "ffado_ringbuffer_reset rb = rb\<lparr>rb_read_ptr := 0, rb_write_ptr := 0\<rparr>"

definition ffado_ringbuffer_read_space :: "ringbuffer \<Rightarrow> u64" where
  "ffado_ringbuffer_read_space rb =
     (let w = rb_write_ptr rb; r = rb_read_ptr rb
      in if r < w then w - r else (w - r + rb_size rb) AND rb_size_mask rb)"

definition ffado_ringbuffer_write_space :: "ringbuffer \<Rightarrow> u64" where
  "ffado_ringbuffer_write_space rb =
     (let w = rb_write_ptr rb; r = rb_read_ptr rb
      in if r < w then ((r - w + rb_size rb) AND rb_size_mask rb) - 1
         else if w < r then (r - w) - 1
         else rb_size rb - 1)"

section \<open>Copying access\<close>

text \<open>The split of a transfer of \<open>n\<close> bytes at position \<open>pos\<close> into the part up to the end of the
  storage and the part that continues at its start.\<close>

definition split_count :: "ringbuffer \<Rightarrow> u64 \<Rightarrow> u64 \<Rightarrow> u64 \<times> u64" where
  "split_count rb pos n =
     (let cnt2 = pos + n
      in if rb_size rb < cnt2 then (rb_size rb - pos, cnt2 AND rb_size_mask rb) else (n, 0))"

definition ffado_ringbuffer_read :: "ringbuffer \<Rightarrow> u64 \<Rightarrow> (u64 \<times> byte list \<times> ringbuffer) result" where
  "ffado_ringbuffer_read rb cnt =
     (let free_cnt = ffado_ringbuffer_read_space rb
      in if free_cnt = 0 then Inr (0, [], rb)
         else let to_read = (if free_cnt < cnt then free_cnt else cnt);
                  (n1, n2) = split_count rb (rb_read_ptr rb) to_read
              in bind_result (mem_read (rb_buf rb) (unat (rb_read_ptr rb)) (unat n1)) (\<lambda>d1.
                 let rb1 = rb\<lparr>rb_read_ptr := (rb_read_ptr rb + n1) AND rb_size_mask rb\<rparr>
                 in if n2 \<noteq> 0
                    then bind_result (mem_read (rb_buf rb1) (unat (rb_read_ptr rb1)) (unat n2)) (\<lambda>d2.
                         Inr (to_read, d1 @ d2,
                              rb1\<lparr>rb_read_ptr := (rb_read_ptr rb1 + n2) AND rb_size_mask rb1\<rparr>))
                    else Inr (to_read, d1, rb1)))"

definition ffado_ringbuffer_peek :: "ringbuffer \<Rightarrow> u64 \<Rightarrow> (u64 \<times> byte list) result" where
  "ffado_ringbuffer_peek rb cnt =
     (let tmp_read_ptr = rb_read_ptr rb; free_cnt = ffado_ringbuffer_read_space rb
      in if free_cnt = 0 then Inr (0, [])
         else let to_read = (if free_cnt < cnt then free_cnt else cnt);
                  (n1, n2) = split_count rb tmp_read_ptr to_read
              in bind_result (mem_read (rb_buf rb) (unat tmp_read_ptr) (unat n1)) (\<lambda>d1.
                 let tmp_read_ptr = (tmp_read_ptr + n1) AND rb_size_mask rb
                 in if n2 \<noteq> 0
                    then bind_result (mem_read (rb_buf rb) (unat tmp_read_ptr) (unat n2)) (\<lambda>d2.
                         Inr (to_read, d1 @ d2))
                    else Inr (to_read, d1)))"

definition ffado_ringbuffer_write ::
  "ringbuffer \<Rightarrow> byte list \<Rightarrow> u64 \<Rightarrow> (u64 \<times> ringbuffer) result" where
  "ffado_ringbuffer_write rb src cnt =
     (let free_cnt = ffado_ringbuffer_write_space rb
      in if free_cnt = 0 then Inr (0, rb)
         else let to_write = (if free_cnt < cnt then free_cnt else cnt);
                  (n1, n2) = split_count rb (rb_write_ptr rb) to_write
              in bind_result (mem_read src 0 (unat n1)) (\<lambda>d1.
                 bind_result (mem_write (rb_buf rb) (unat (rb_write_ptr rb)) d1) (\<lambda>buf1.
                 let rb1 = rb\<lparr>rb_buf := buf1,
                              rb_write_ptr := (rb_write_ptr rb + n1) AND rb_size_mask rb\<rparr>
                 in if n2 \<noteq> 0
                    then bind_result (mem_read src (unat n1) (unat n2)) (\<lambda>d2.
                         bind_result (mem_write (rb_buf rb1) (unat (rb_write_ptr rb1)) d2) (\<lambda>buf2.
                         Inr (to_write,
                              rb1\<lparr>rb_buf := buf2,
                                  rb_write_ptr := (rb_write_ptr rb1 + n2) AND rb_size_mask rb1\<rparr>)))
                    else Inr (to_write, rb1))))"

section \<open>Access in place\<close>

definition ffado_ringbuffer_read_advance :: "ringbuffer \<Rightarrow> u64 \<Rightarrow> ringbuffer" where
  "ffado_ringbuffer_read_advance rb cnt =
     rb\<lparr>rb_read_ptr := (rb_read_ptr rb + cnt) AND rb_size_mask rb\<rparr>"

definition ffado_ringbuffer_write_advance :: "ringbuffer \<Rightarrow> u64 \<Rightarrow> ringbuffer" where
  "ffado_ringbuffer_write_advance rb cnt =
     rb\<lparr>rb_write_ptr := (rb_write_ptr rb + cnt) AND rb_size_mask rb\<rparr>"

text \<open>Both functions fill an array of two segments that the caller provides; the pointer of the
  second one is only set when that segment is in use.\<close>

definition ffado_ringbuffer_get_read_vector ::
  "ringbuffer \<Rightarrow> ringbuffer_data \<times> ringbuffer_data \<Rightarrow> ringbuffer_data \<times> ringbuffer_data" where
  "ffado_ringbuffer_get_read_vector rb vec =
     (let w = rb_write_ptr rb; r = rb_read_ptr rb;
          free_cnt = (if r < w then w - r else (w - r + rb_size rb) AND rb_size_mask rb);
          cnt2 = r + free_cnt
      in if rb_size rb < cnt2
         then (\<lparr>rd_buf = r, rd_len = rb_size rb - r\<rparr>,
               \<lparr>rd_buf = 0, rd_len = cnt2 AND rb_size_mask rb\<rparr>)
         else (\<lparr>rd_buf = r, rd_len = free_cnt\<rparr>, (snd vec)\<lparr>rd_len := 0\<rparr>))"

definition ffado_ringbuffer_get_write_vector ::
  "ringbuffer \<Rightarrow> ringbuffer_data \<times> ringbuffer_data \<Rightarrow> ringbuffer_data \<times> ringbuffer_data" where
  "ffado_ringbuffer_get_write_vector rb vec =
     (let w = rb_write_ptr rb; r = rb_read_ptr rb;
          free_cnt = (if r < w then ((r - w + rb_size rb) AND rb_size_mask rb) - 1
                      else if w < r then (r - w) - 1
                      else rb_size rb - 1);
          cnt2 = w + free_cnt
      in if rb_size rb < cnt2
         then (\<lparr>rd_buf = w, rd_len = rb_size rb - w\<rparr>,
               \<lparr>rd_buf = 0, rd_len = cnt2 AND rb_size_mask rb\<rparr>)
         else (\<lparr>rd_buf = w, rd_len = free_cnt\<rparr>, (snd vec)\<lparr>rd_len := 0\<rparr>))"

section \<open>Invariant and abstraction\<close>

text \<open>The size is a power of two that the creation function can reach, the mask fits it, the
  storage has that many bytes and both positions are inside it.\<close>

definition rb_inv :: "ringbuffer \<Rightarrow> bool" where
  "rb_inv rb \<longleftrightarrow>
     (\<exists>k\<in>{1..30}. rb_size rb = 2 ^ k) \<and> rb_size_mask rb = rb_size rb - 1 \<and>
     length (rb_buf rb) = unat (rb_size rb) \<and>
     rb_write_ptr rb < rb_size rb \<and> rb_read_ptr rb < rb_size rb"

definition rb_fill :: "ringbuffer \<Rightarrow> nat" where
  "rb_fill rb = ring_dist (length (rb_buf rb)) (unat (rb_read_ptr rb)) (unat (rb_write_ptr rb))"

definition rb_capacity :: "ringbuffer \<Rightarrow> nat" where
  "rb_capacity rb = unat (rb_size rb) - 1"

definition rb_contents :: "ringbuffer \<Rightarrow> byte list" where
  "rb_contents rb = ring_slice (rb_buf rb) (unat (rb_read_ptr rb)) (rb_fill rb)"

abbreviation rb_len :: "ringbuffer \<Rightarrow> nat" where
  "rb_len rb \<equiv> length (rb_buf rb)"

lemma rb_inv_size:
  assumes "rb_inv rb"
  obtains k where "1 \<le> k" "k \<le> 30" "rb_len rb = 2 ^ k" "rb_size_mask rb = 2 ^ k - 1"
    "unat (rb_size rb) = rb_len rb"
proof -
  from assms obtain k where k: "1 \<le> k" "k \<le> 30" "rb_size rb = 2 ^ k"
    by (auto simp: rb_inv_def)
  have "unat (2 ^ k :: u64) = 2 ^ k"
    using k(2) unat_of_nat [of "2 ^ k", where 'a = 64] power_strict_increasing [of k 64 "2::nat"]
    by simp
  then show thesis using that [of k] k assms by (simp add: rb_inv_def)
qed

lemma rb_inv_bounds:
  assumes "rb_inv rb"
  shows "2 \<le> rb_len rb" "rb_len rb \<le> 1073741824" "rb_len rb dvd 18446744073709551616"
    "unat (rb_size rb) = rb_len rb"
    "unat (rb_write_ptr rb) < rb_len rb" "unat (rb_read_ptr rb) < rb_len rb"
proof -
  obtain k where k: "1 \<le> k" "k \<le> 30" "rb_len rb = 2 ^ k" "unat (rb_size rb) = rb_len rb"
    using assms by (rule rb_inv_size)
  show "2 \<le> rb_len rb" using k power_increasing [of 1 k "2::nat"] by simp
  show "rb_len rb \<le> 1073741824" using k power_increasing [of k 30 "2::nat"] by simp
  show "rb_len rb dvd 18446744073709551616"
    using k le_imp_power_dvd [of k 64 "2::nat"] by simp
  show "unat (rb_size rb) = rb_len rb" by (rule k(4))
  show "unat (rb_write_ptr rb) < rb_len rb" "unat (rb_read_ptr rb) < rb_len rb"
    using assms k(4) by (simp_all add: rb_inv_def word_less_nat_alt)
qed

lemma unat_and_size_mask [ring_arith]:
  assumes "rb_inv rb"
  shows "unat (x AND rb_size_mask rb) = unat x mod rb_len rb"
  using assms by (rule rb_inv_size) (simp add: unat_and_mask_minus_one)

lemma unat_advance [ring_arith]:
  assumes "rb_inv rb"
  shows "unat ((p + n) AND rb_size_mask rb) = (unat p + unat n) mod rb_len rb"
  using assms rb_inv_bounds(3) [OF assms]
  by (simp add: unat_and_size_mask unat_plus_mod mod_mod_cancel)

lemma rb_fill_less: "rb_inv rb \<Longrightarrow> rb_fill rb < rb_len rb"
  using rb_inv_bounds(1) by (fastforce simp: rb_fill_def intro: ring_dist_less)

lemma length_rb_contents [simp]: "length (rb_contents rb) = rb_fill rb"
  by (simp add: rb_contents_def)

lemma rb_fill_alt:
  assumes "rb_inv rb"
  shows "rb_fill rb =
           (if rb_read_ptr rb \<le> rb_write_ptr rb
            then unat (rb_write_ptr rb) - unat (rb_read_ptr rb)
            else unat (rb_write_ptr rb) + rb_len rb - unat (rb_read_ptr rb))"
  using mod_offset [of "unat (rb_write_ptr rb)" "rb_len rb" "unat (rb_read_ptr rb)"] rb_inv_bounds [OF assms]
  by (simp add: rb_fill_def ring_dist_def word_le_nat_alt)

lemma unat_read_space:
  assumes "rb_inv rb"
  shows "unat (ffado_ringbuffer_read_space rb) = rb_fill rb"
proof (cases "rb_read_ptr rb < rb_write_ptr rb")
  case True
  then show ?thesis
    using assms
    by (simp add: ffado_ringbuffer_read_space_def rb_fill_alt unat_minus_small word_less_nat_alt
        word_le_nat_alt)
next
  case False
  let ?w = "rb_write_ptr rb" and ?r = "rb_read_ptr rb"
  have "unat (?w - ?r + rb_size rb) = unat (?w + rb_size rb - ?r)"
    by (simp add: algebra_simps)
  also have "\<dots> = unat ?w + rb_len rb - unat ?r"
    using rb_inv_bounds [OF assms] by (simp add: unat_minus_small unat_plus_small)
  finally show ?thesis
    using False assms rb_inv_bounds [OF assms]
    by (simp add: ffado_ringbuffer_read_space_def unat_and_size_mask rb_fill_def ring_dist_def)
qed

lemma unat_write_space:
  assumes "rb_inv rb"
  shows "unat (ffado_ringbuffer_write_space rb) = rb_len rb - 1 - rb_fill rb"
proof -
  let ?w = "rb_write_ptr rb" and ?r = "rb_read_ptr rb"
  note b = rb_inv_bounds [OF assms]
  consider "?r < ?w" | "?w < ?r" | "?r = ?w" by (meson less_linear)
  then show ?thesis
  proof cases
    case 1
    have "unat (?r - ?w + rb_size rb) = unat (?r + rb_size rb - ?w)"
      by (simp add: algebra_simps)
    also have "\<dots> = unat ?r + rb_len rb - unat ?w"
      using b by (simp add: unat_minus_small unat_plus_small)
    finally have "unat ((?r - ?w + rb_size rb) AND rb_size_mask rb) = unat ?r + rb_len rb - unat ?w"
      using 1 b by (simp add: unat_and_size_mask [OF assms] word_less_nat_alt)
    then show ?thesis using 1 b assms
      by (simp add: ffado_ringbuffer_write_space_def rb_fill_alt unat_minus_small word_less_nat_alt
          word_le_nat_alt)
  next
    case 2
    then have "unat (?r - ?w) = unat ?r - unat ?w" by (simp add: unat_minus_small word_less_nat_alt)
    then show ?thesis using 2 b assms
      by (simp add: ffado_ringbuffer_write_space_def rb_fill_alt unat_minus_small word_less_nat_alt
          word_le_nat_alt)
  next
    case 3
    then show ?thesis using b assms
      by (simp add: ffado_ringbuffer_write_space_def rb_fill_alt unat_minus_small)
  qed
qed

lemma split_count_sound:
  assumes "rb_inv rb" "split_count rb p n = (n1, n2)" "unat p < rb_len rb" "unat n < rb_len rb"
  shows "unat n1 + unat n2 = unat n" "unat p + unat n1 \<le> rb_len rb" "unat n2 < rb_len rb"
    "unat n2 \<noteq> 0 \<Longrightarrow> unat p + unat n1 = rb_len rb"
proof -
  note b = rb_inv_bounds [OF assms(1)]
  have sum: "unat (p + n) = unat p + unat n" using assms b by (simp add: unat_plus_small)
  have "rb_size rb < p + n \<longleftrightarrow> rb_len rb < unat p + unat n"
    using sum b by (simp add: word_less_nat_alt)
  moreover have "unat ((p + n) AND rb_size_mask rb) = unat p + unat n - rb_len rb"
    if "rb_len rb < unat p + unat n"
    using that assms by (simp add: unat_advance [OF assms(1)] mod_nat_eqI)
  moreover have "unat (rb_size rb - p) = rb_len rb - unat p"
    using assms b by (simp add: unat_minus_small)
  ultimately show "unat n1 + unat n2 = unat n" "unat p + unat n1 \<le> rb_len rb" "unat n2 < rb_len rb"
    "unat n2 \<noteq> 0 \<Longrightarrow> unat p + unat n1 = rb_len rb"
    using assms b by (auto simp: split_count_def Let_def split: if_splits)
qed

section \<open>The copying operations\<close>

text \<open>Moving a position by a word keeps the invariant; moving the read position by at most the
  fill level drops the oldest bytes, moving the write position by at most the free space exposes
  the bytes behind the newest one.\<close>

lemma masked_less_size:
  assumes "rb_inv rb"
  shows "x AND rb_size_mask rb < rb_size rb"
proof -
  have "unat x mod rb_len rb < rb_len rb"
    using rb_inv_bounds(1) [OF assms] by (intro mod_less_divisor) linarith
  then show ?thesis
    by (simp only: word_less_nat_alt unat_and_size_mask [OF assms] rb_inv_bounds(4) [OF assms])
qed

lemma rb_inv_set_read_ptr:
  "rb_inv rb \<Longrightarrow> rb_inv (rb\<lparr>rb_read_ptr := x AND rb_size_mask rb\<rparr>)"
  using masked_less_size [of rb x] by (simp add: rb_inv_def)

lemma rb_inv_set_write_ptr:
  "rb_inv rb \<Longrightarrow> length buf = rb_len rb \<Longrightarrow>
   rb_inv (rb\<lparr>rb_buf := buf, rb_write_ptr := x AND rb_size_mask rb\<rparr>)"
  using masked_less_size [of rb x] by (simp add: rb_inv_def)

lemma rb_contents_advance_read:
  assumes "rb_inv rb" "n \<le> rb_fill rb" "unat q = (unat (rb_read_ptr rb) + n) mod rb_len rb"
  shows "rb_contents (rb\<lparr>rb_read_ptr := q\<rparr>) = drop n (rb_contents rb)"
    "rb_fill (rb\<lparr>rb_read_ptr := q\<rparr>) = rb_fill rb - n"
proof -
  have N: "0 < rb_len rb" using rb_inv_bounds [OF assms(1)] by linarith
  show f: "rb_fill (rb\<lparr>rb_read_ptr := q\<rparr>) = rb_fill rb - n"
    using assms(2,3) N by (simp add: rb_fill_def ring_dist_advance_read)
  show "rb_contents (rb\<lparr>rb_read_ptr := q\<rparr>) = drop n (rb_contents rb)"
    using assms(2,3) f by (simp add: rb_contents_def drop_ring_slice)
qed

lemma rb_contents_put:
  assumes "rb_inv rb" "rb_fill rb + length bs < rb_len rb"
    "unat q = (unat (rb_write_ptr rb) + length bs) mod rb_len rb"
    "buf = ring_put (rb_buf rb) (unat (rb_write_ptr rb)) bs"
  shows "rb_contents (rb\<lparr>rb_buf := buf, rb_write_ptr := q\<rparr>) = rb_contents rb @ bs"
    "rb_fill (rb\<lparr>rb_buf := buf, rb_write_ptr := q\<rparr>) = rb_fill rb + length bs"
proof -
  let ?N = "rb_len rb" and ?r = "unat (rb_read_ptr rb)" and ?w = "unat (rb_write_ptr rb)"
  have N: "0 < ?N" and wN: "?w < ?N" using rb_inv_bounds [OF assms(1)] by linarith+
  show f: "rb_fill (rb\<lparr>rb_buf := buf, rb_write_ptr := q\<rparr>) = rb_fill rb + length bs"
    using assms(2-4) N by (simp add: rb_fill_def ring_dist_advance_write)
  have "ring_put (rb_buf rb) ?w bs = ring_put (rb_buf rb) (?r + rb_fill rb) bs"
    using add_ring_dist [OF N wN, of ?r] ring_put_mod [of "rb_buf rb" "?r + rb_fill rb" bs]
    by (simp add: rb_fill_def)
  then show "rb_contents (rb\<lparr>rb_buf := buf, rb_write_ptr := q\<rparr>) = rb_contents rb @ bs"
    using assms(2,4) f by (simp add: rb_contents_def ring_slice_put)
qed

lemma ring_slice_split:
  assumes "rb_inv rb" "split_count rb p n = (n1, n2)" "unat p < rb_len rb" "unat n < rb_len rb"
  shows "mem_read (rb_buf rb) (unat p) (unat n1) = Inr (ring_slice (rb_buf rb) (unat p) (unat n1))"
    "n2 \<noteq> 0 \<Longrightarrow> mem_read (rb_buf rb) (unat ((p + n1) AND rb_size_mask rb)) (unat n2) =
       Inr (ring_slice (rb_buf rb) (unat p + unat n1) (unat n2))"
    "n2 = 0 \<Longrightarrow> n1 = n"
    "ring_slice (rb_buf rb) (unat p) (unat n1) @ ring_slice (rb_buf rb) (unat p + unat n1) (unat n2) =
       ring_slice (rb_buf rb) (unat p) (unat n)"
proof -
  note sc = split_count_sound [OF assms]
  show "mem_read (rb_buf rb) (unat p) (unat n1) = Inr (ring_slice (rb_buf rb) (unat p) (unat n1))"
    using sc by (simp add: mem_read_Inr ring_slice_flat)
  show "n2 = 0 \<Longrightarrow> n1 = n"
    using sc(1) by (simp only: word_unat_eq_iff unat_0 add_0_right)
  show "ring_slice (rb_buf rb) (unat p) (unat n1) @ ring_slice (rb_buf rb) (unat p + unat n1) (unat n2) =
       ring_slice (rb_buf rb) (unat p) (unat n)"
    using sc(1) by (metis ring_slice_add)
  assume "n2 \<noteq> 0"
  then have "unat p + unat n1 = rb_len rb" using sc(4) by (simp add: unat_eq_0)
  moreover from this have "ring_slice (rb_buf rb) (unat p + unat n1) (unat n2) = take (unat n2) (rb_buf rb)"
    using ring_slice_mod [of "rb_buf rb" "rb_len rb" "unat n2"] ring_slice_flat [of 0 "unat n2" "rb_buf rb"] sc(3)
    by simp
  ultimately show "mem_read (rb_buf rb) (unat ((p + n1) AND rb_size_mask rb)) (unat n2) =
       Inr (ring_slice (rb_buf rb) (unat p + unat n1) (unat n2))"
    using sc(3) by (simp add: unat_advance [OF assms(1)] mem_read_Inr)
qed

lemma mask_advance_twice:
  assumes "rb_inv rb" "split_count rb p n = (n1, n2)" "unat p < rb_len rb" "unat n < rb_len rb"
  shows "(((p + n1) AND rb_size_mask rb) + n2) AND rb_size_mask rb = (p + n) AND rb_size_mask rb"
proof -
  have "unat ((((p + n1) AND rb_size_mask rb) + n2) AND rb_size_mask rb) =
      ((unat p + unat n1) mod rb_len rb + unat n2) mod rb_len rb"
    by (simp only: unat_advance [OF assms(1)])
  also have "\<dots> = (unat p + unat n) mod rb_len rb"
    using split_count_sound(1) [OF assms] by (simp add: mod_simps add.assoc)
  also have "\<dots> = unat ((p + n) AND rb_size_mask rb)"
    by (simp only: unat_advance [OF assms(1)])
  finally show ?thesis by (simp only: word_unat_eq_iff)
qed

text \<open>The number of bytes a transfer moves.\<close>

lemma unat_transfer_count: "unat (if f < c then f else c :: u64) = min (unat f) (unat c)"
  by (auto simp: word_less_nat_alt)

lemma rb_read_ptr_masked: "rb_inv rb \<Longrightarrow> rb_read_ptr rb AND rb_size_mask rb = rb_read_ptr rb"
  by (simp only: word_unat_eq_iff unat_and_size_mask mod_less rb_inv_bounds(6))

lemma rb_write_ptr_masked: "rb_inv rb \<Longrightarrow> rb_write_ptr rb AND rb_size_mask rb = rb_write_ptr rb"
  by (simp only: word_unat_eq_iff unat_and_size_mask mod_less rb_inv_bounds(5))

lemma ringbuffer_read_eq:
  assumes "rb_inv rb"
  shows "ffado_ringbuffer_read rb cnt =
           (let n = (if ffado_ringbuffer_read_space rb < cnt then ffado_ringbuffer_read_space rb else cnt)
            in Inr (n, take (unat cnt) (rb_contents rb),
                    rb\<lparr>rb_read_ptr := (rb_read_ptr rb + n) AND rb_size_mask rb\<rparr>))"
proof -
  let ?f = "ffado_ringbuffer_read_space rb" and ?p = "rb_read_ptr rb"
  define n where "n = (if ?f < cnt then ?f else cnt)"
  obtain n1 n2 where s: "split_count rb ?p n = (n1, n2)" by fastforce
  have n: "unat n = min (rb_fill rb) (unat cnt)"
    using unat_transfer_count [of ?f cnt] unat_read_space [OF assms] by (simp add: n_def)
  have nN: "unat n < rb_len rb" using n rb_fill_less [OF assms] by simp
  note sl = ring_slice_split [OF assms s rb_inv_bounds(6) [OF assms] nN]
    and adv = mask_advance_twice [OF assms s rb_inv_bounds(6) [OF assms] nN]
  have data: "take (unat cnt) (rb_contents rb) = ring_slice (rb_buf rb) (unat ?p) (unat n)"
    using n by (simp add: rb_contents_def take_ring_slice min.commute)
  have "ffado_ringbuffer_read rb cnt =
      Inr (n, take (unat cnt) (rb_contents rb), rb\<lparr>rb_read_ptr := (?p + n) AND rb_size_mask rb\<rparr>)"
  proof (cases "?f = 0")
    case True
    then have "rb_fill rb = 0" "n = 0" using unat_read_space [OF assms] by (auto simp: n_def word_gt_0)
    then show ?thesis
      using True rb_read_ptr_masked [OF assms] by (simp add: ffado_ringbuffer_read_def rb_contents_def)
  next
    case False
    then have "ffado_ringbuffer_read rb cnt =
        bind_result (mem_read (rb_buf rb) (unat ?p) (unat n1)) (\<lambda>d1.
          if n2 \<noteq> 0
          then bind_result (mem_read (rb_buf rb) (unat ((?p + n1) AND rb_size_mask rb)) (unat n2)) (\<lambda>d2.
               Inr (n, d1 @ d2, rb\<lparr>rb_read_ptr := (((?p + n1) AND rb_size_mask rb) + n2) AND rb_size_mask rb\<rparr>))
          else Inr (n, d1, rb\<lparr>rb_read_ptr := (?p + n1) AND rb_size_mask rb\<rparr>))"
      using s unfolding ffado_ringbuffer_read_def Let_def n_def [symmetric] by (cases "n2 = 0") simp_all
    then show ?thesis
      using sl adv data by (cases "n2 = 0") simp_all
  qed
  then show ?thesis by (simp add: n_def Let_def)
qed

lemma ringbuffer_peek_eq:
  assumes "rb_inv rb"
  shows "ffado_ringbuffer_peek rb cnt =
           Inr (if ffado_ringbuffer_read_space rb < cnt then ffado_ringbuffer_read_space rb else cnt,
                take (unat cnt) (rb_contents rb))"
proof -
  let ?f = "ffado_ringbuffer_read_space rb" and ?p = "rb_read_ptr rb"
  define n where "n = (if ?f < cnt then ?f else cnt)"
  obtain n1 n2 where s: "split_count rb ?p n = (n1, n2)" by fastforce
  have n: "unat n = min (rb_fill rb) (unat cnt)"
    using unat_transfer_count [of ?f cnt] unat_read_space [OF assms] by (simp add: n_def)
  have nN: "unat n < rb_len rb" using n rb_fill_less [OF assms] by simp
  note sl = ring_slice_split [OF assms s rb_inv_bounds(6) [OF assms] nN]
  have data: "take (unat cnt) (rb_contents rb) = ring_slice (rb_buf rb) (unat ?p) (unat n)"
    using n by (simp add: rb_contents_def take_ring_slice min.commute)
  have "ffado_ringbuffer_peek rb cnt = Inr (n, take (unat cnt) (rb_contents rb))"
  proof (cases "?f = 0")
    case True
    then have "rb_fill rb = 0" "n = 0" using unat_read_space [OF assms] by (auto simp: n_def word_gt_0)
    then show ?thesis using True by (simp add: ffado_ringbuffer_peek_def rb_contents_def)
  next
    case False
    then show ?thesis
      using s sl data unfolding ffado_ringbuffer_peek_def Let_def n_def [symmetric]
      by (cases "n2 = 0") simp_all
  qed
  then show ?thesis by (simp add: n_def)
qed

lemma ring_put_split:
  assumes "rb_inv rb" "split_count rb p n = (n1, n2)" "unat p < rb_len rb" "unat n < rb_len rb"
    "unat n \<le> length src"
  defines "d1 \<equiv> take (unat n1) src" and "d2 \<equiv> take (unat n2) (drop (unat n1) src)"
    and "buf1 \<equiv> ring_put (rb_buf rb) (unat p) (take (unat n1) src)"
  shows "mem_read src 0 (unat n1) = Inr d1" "mem_write (rb_buf rb) (unat p) d1 = Inr buf1"
    "mem_read src (unat n1) (unat n2) = Inr d2"
    "n2 \<noteq> 0 \<Longrightarrow> mem_write buf1 (unat ((p + n1) AND rb_size_mask rb)) d2 =
       Inr (ring_put (rb_buf rb) (unat p) (take (unat n) src))"
proof -
  note sc = split_count_sound [OF assms(1-4)]
  have l1: "length d1 = unat n1" and l2: "length d2 = unat n2"
    using sc(1) assms(5) by (simp_all add: d1_def d2_def)
  show "mem_read src 0 (unat n1) = Inr d1" "mem_read src (unat n1) (unat n2) = Inr d2"
    using sc(1) assms(5) by (simp_all add: mem_read_Inr d1_def d2_def)
  show "mem_write (rb_buf rb) (unat p) d1 = Inr buf1"
    using sc(2) assms(3) l1 ring_put_flat [of "unat p" d1 "rb_buf rb"]
    by (simp add: mem_write_Inr buf1_def d1_def [symmetric])
  assume "n2 \<noteq> 0"
  then have w: "unat p + length d1 = rb_len rb" using sc(4) l1 by (simp add: unat_eq_0)
  have "ring_put buf1 0 d2 = ring_put buf1 (unat p + length d1) d2"
    using ring_put_mod [of buf1 "rb_len rb" d2] by (simp add: w buf1_def)
  also have "\<dots> = ring_put (rb_buf rb) (unat p) (d1 @ d2)"
    unfolding buf1_def d1_def [symmetric]
    using sc(1) assms(4) l1 l2 by (intro ring_put_append) simp
  also have "d1 @ d2 = take (unat n) src"
    by (simp add: d1_def d2_def sc(1) [symmetric] take_add)
  moreover have "rb_buf rb \<noteq> []" using assms(3) by auto
  ultimately have "mem_write buf1 0 d2 = Inr (ring_put (rb_buf rb) (unat p) (take (unat n) src))"
    using sc(3) l2 ring_put_flat [of 0 d2 buf1] by (simp add: mem_write_Inr buf1_def)
  then show "mem_write buf1 (unat ((p + n1) AND rb_size_mask rb)) d2 =
       Inr (ring_put (rb_buf rb) (unat p) (take (unat n) src))"
    using w l1 by (simp add: unat_advance [OF assms(1)])
qed

lemma ringbuffer_write_eq:
  assumes "rb_inv rb" "unat cnt \<le> length src"
  shows "ffado_ringbuffer_write rb src cnt =
           (let n = (if ffado_ringbuffer_write_space rb < cnt then ffado_ringbuffer_write_space rb else cnt)
            in Inr (n, rb\<lparr>rb_buf := ring_put (rb_buf rb) (unat (rb_write_ptr rb)) (take (unat n) src),
                          rb_write_ptr := (rb_write_ptr rb + n) AND rb_size_mask rb\<rparr>))"
proof -
  let ?f = "ffado_ringbuffer_write_space rb" and ?p = "rb_write_ptr rb"
  define n where "n = (if ?f < cnt then ?f else cnt)"
  obtain n1 n2 where s: "split_count rb ?p n = (n1, n2)" by fastforce
  have n: "unat n = min (rb_len rb - 1 - rb_fill rb) (unat cnt)"
    using unat_transfer_count [of ?f cnt] unat_write_space [OF assms(1)] by (simp add: n_def)
  have nN: "unat n < rb_len rb" using n rb_inv_bounds(1) [OF assms(1)] by simp
  have ns: "unat n \<le> length src" using n assms(2) by simp
  note pt = rb_inv_bounds(5) [OF assms(1)]
  note sl = ring_put_split [OF assms(1) s pt nN ns]
    and adv = mask_advance_twice [OF assms(1) s pt nN]
    and z = ring_slice_split(3) [OF assms(1) s pt nN]
  have "ffado_ringbuffer_write rb src cnt =
      Inr (n, rb\<lparr>rb_buf := ring_put (rb_buf rb) (unat ?p) (take (unat n) src),
                 rb_write_ptr := (?p + n) AND rb_size_mask rb\<rparr>)"
  proof (cases "?f = 0")
    case True
    then have "n = 0" by (auto simp: n_def word_gt_0)
    then show ?thesis
      using True rb_write_ptr_masked [OF assms(1)] by (simp add: ffado_ringbuffer_write_def)
  next
    case False
    then show ?thesis
      using s sl adv z unfolding ffado_ringbuffer_write_def Let_def n_def [symmetric]
      by (cases "n2 = 0") simp_all
  qed
  then show ?thesis by (simp add: n_def Let_def)
qed

section \<open>The queue interface\<close>

text \<open>
  What the clients of a ring buffer rely on: a bounded queue of bytes. Putting stores as many
  leading bytes as there is room for, behind what is there; getting delivers the oldest bytes and
  removes them. Both say how many bytes they moved and neither can fail.
\<close>

locale byte_fifo =
  fixes inv :: "'q \<Rightarrow> bool"
    and contents :: "'q \<Rightarrow> byte list"
    and capacity :: "'q \<Rightarrow> nat"
    and put :: "'q \<Rightarrow> byte list \<Rightarrow> u64 \<Rightarrow> (u64 \<times> 'q) result"
    and get :: "'q \<Rightarrow> u64 \<Rightarrow> (u64 \<times> byte list \<times> 'q) result"
  assumes bounded: "inv q \<Longrightarrow> length (contents q) \<le> capacity q"
    and put_law: "inv q \<Longrightarrow> unat n \<le> length bs \<Longrightarrow>
      \<exists>m q'. put q bs n = Inr (m, q') \<and> inv q' \<and> capacity q' = capacity q \<and>
        unat m = min (unat n) (capacity q - length (contents q)) \<and>
        contents q' = contents q @ take (unat m) bs"
    and get_law: "inv q \<Longrightarrow>
      \<exists>m q'. get q n = Inr (m, take (unat n) (contents q), q') \<and> inv q' \<and> capacity q' = capacity q \<and>
        unat m = min (unat n) (length (contents q)) \<and> contents q' = drop (unat n) (contents q)"

text \<open>A sequence of calls on one queue, with the bytes it accepted and the bytes it delivered.\<close>

datatype fifo_op = PutOp "byte list" | GetOp u64

fun fifo_run :: "('q \<Rightarrow> byte list \<Rightarrow> u64 \<Rightarrow> (u64 \<times> 'q) result) \<Rightarrow>
    ('q \<Rightarrow> u64 \<Rightarrow> (u64 \<times> byte list \<times> 'q) result) \<Rightarrow> 'q \<Rightarrow> fifo_op list \<Rightarrow>
    (byte list \<times> byte list \<times> 'q) result" where
  "fifo_run put get q [] = Inr ([], [], q)"
| "fifo_run put get q (PutOp bs # ops) =
     bind_result (put q bs (of_nat (length bs))) (\<lambda>(m, q').
     bind_result (fifo_run put get q' ops) (\<lambda>(ins, outs, q'').
     Inr (take (unat m) bs @ ins, outs, q'')))"
| "fifo_run put get q (GetOp n # ops) =
     bind_result (get q n) (\<lambda>(m, d, q').
     bind_result (fifo_run put get q' ops) (\<lambda>(ins, outs, q'').
     Inr (ins, d @ outs, q'')))"

fun fifo_op_ok :: "fifo_op \<Rightarrow> bool" where
  "fifo_op_ok (PutOp bs) \<longleftrightarrow> length bs < 2 ^ 64"
| "fifo_op_ok (GetOp n) \<longleftrightarrow> True"

context byte_fifo
begin

lemma put_all:
  assumes "inv q" "unat n = length bs" "length (contents q) + length bs \<le> capacity q"
  obtains q' where "put q bs n = Inr (n, q')" "inv q'" "capacity q' = capacity q"
    "contents q' = contents q @ bs"
proof -
  obtain m q' where *: "put q bs n = Inr (m, q')" "inv q'" "capacity q' = capacity q"
    "unat m = min (unat n) (capacity q - length (contents q))" "contents q' = contents q @ take (unat m) bs"
    using put_law [OF assms(1), of n bs] assms(2) by auto
  have "unat m = unat n" using *(4) assms by simp
  then have "m = n" by (simp only: word_unat_eq_iff)
  then show thesis using that [of q'] * assms(2) by simp
qed

lemma get_all:
  assumes "inv q" "unat n \<le> length (contents q)"
  obtains q' where "get q n = Inr (n, take (unat n) (contents q), q')" "inv q'"
    "capacity q' = capacity q" "contents q' = drop (unat n) (contents q)"
proof -
  obtain m q' where *: "get q n = Inr (m, take (unat n) (contents q), q')" "inv q'"
    "capacity q' = capacity q" "unat m = min (unat n) (length (contents q))"
    "contents q' = drop (unat n) (contents q)"
    using get_law [OF assms(1), of n] by auto
  have "unat m = unat n" using *(4) assms by simp
  then have "m = n" by (simp only: word_unat_eq_iff)
  then show thesis using that [of q'] * by simp
qed

lemma run_in_order:
  assumes "inv q" "list_all fifo_op_ok ops"
  shows "\<exists>ins outs q'. fifo_run put get q ops = Inr (ins, outs, q') \<and> inv q' \<and>
           capacity q' = capacity q \<and> contents q @ ins = outs @ contents q'"
  using assms
proof (induction ops arbitrary: q)
  case Nil
  then show ?case by simp
next
  case (Cons oper ops)
  show ?case
  proof (cases oper)
    case (PutOp bs)
    then have "unat (of_nat (length bs) :: u64) = length bs"
      using Cons.prems by simp
    then obtain m q1 where *: "put q bs (of_nat (length bs)) = Inr (m, q1)" "inv q1"
      "capacity q1 = capacity q" "contents q1 = contents q @ take (unat m) bs"
      using put_law [OF Cons.prems(1), of "of_nat (length bs)" bs] by auto
    obtain ins outs q2 where "fifo_run put get q1 ops = Inr (ins, outs, q2)" "inv q2"
      "capacity q2 = capacity q1" "contents q1 @ ins = outs @ contents q2"
      using Cons.IH [OF *(2)] Cons.prems(2) by auto
    then show ?thesis using * PutOp by simp
  next
    case (GetOp n)
    obtain m q1 where *: "get q n = Inr (m, take (unat n) (contents q), q1)" "inv q1"
      "capacity q1 = capacity q" "contents q1 = drop (unat n) (contents q)"
      using get_law [OF Cons.prems(1), of n] by auto
    obtain ins outs q2 where **: "fifo_run put get q1 ops = Inr (ins, outs, q2)" "inv q2"
      "capacity q2 = capacity q1" "contents q1 @ ins = outs @ contents q2"
      using Cons.IH [OF *(2)] Cons.prems(2) by auto
    have "contents q @ ins = take (unat n) (contents q) @ outs @ contents q2"
      using *(4) **(4) by (metis append.assoc append_take_drop_id)
    then show ?thesis using * ** GetOp by simp
  qed
qed

end

section \<open>The ring buffer is such a queue\<close>

lemma rb_capacity_eq: "rb_inv rb \<Longrightarrow> rb_capacity rb = rb_len rb - 1"
  by (simp add: rb_capacity_def rb_inv_bounds)

lemma ringbuffer_put_law:
  assumes "rb_inv rb" "unat n \<le> length bs"
  shows "\<exists>m rb'. ffado_ringbuffer_write rb bs n = Inr (m, rb') \<and> rb_inv rb' \<and>
    rb_capacity rb' = rb_capacity rb \<and> unat m = min (unat n) (rb_capacity rb - length (rb_contents rb)) \<and>
    rb_contents rb' = rb_contents rb @ take (unat m) bs"
proof -
  let ?f = "ffado_ringbuffer_write_space rb"
  define m where "m = (if ?f < n then ?f else n)"
  define rb' where "rb' = rb\<lparr>rb_buf := ring_put (rb_buf rb) (unat (rb_write_ptr rb)) (take (unat m) bs),
                          rb_write_ptr := (rb_write_ptr rb + m) AND rb_size_mask rb\<rparr>"
  have m: "unat m = min (unat n) (rb_len rb - 1 - rb_fill rb)"
    using unat_transfer_count [of ?f n] unat_write_space [OF assms(1)] by (simp add: m_def)
  then have len: "length (take (unat m) bs) = unat m" using assms(2) by simp
  have "ffado_ringbuffer_write rb bs n = Inr (m, rb')"
    using ringbuffer_write_eq [OF assms] by (simp only: Let_def m_def rb'_def)
  moreover have "rb_inv rb'" unfolding rb'_def using assms(1) by (intro rb_inv_set_write_ptr) simp_all
  moreover have "rb_contents rb' = rb_contents rb @ take (unat m) bs"
    unfolding rb'_def using assms(1) m len rb_fill_less [OF assms(1)] rb_inv_bounds(1) [OF assms(1)]
    by (intro rb_contents_put(1)) (simp_all add: unat_advance)
  moreover have "rb_capacity rb' = rb_capacity rb" by (simp add: rb'_def rb_capacity_def)
  ultimately show ?thesis using m assms(1) by (auto simp: rb_capacity_eq)
qed

lemma ringbuffer_get_law:
  assumes "rb_inv rb"
  shows "\<exists>m rb'. ffado_ringbuffer_read rb n = Inr (m, take (unat n) (rb_contents rb), rb') \<and> rb_inv rb' \<and>
    rb_capacity rb' = rb_capacity rb \<and> unat m = min (unat n) (length (rb_contents rb)) \<and>
    rb_contents rb' = drop (unat n) (rb_contents rb)"
proof -
  let ?f = "ffado_ringbuffer_read_space rb"
  define m where "m = (if ?f < n then ?f else n)"
  define rb' where "rb' = rb\<lparr>rb_read_ptr := (rb_read_ptr rb + m) AND rb_size_mask rb\<rparr>"
  have m: "unat m = min (unat n) (rb_fill rb)"
    using unat_transfer_count [of ?f n] unat_read_space [OF assms] by (simp add: m_def)
  have "ffado_ringbuffer_read rb n = Inr (m, take (unat n) (rb_contents rb), rb')"
    using ringbuffer_read_eq [OF assms] by (simp only: Let_def m_def rb'_def)
  moreover have "rb_inv rb'" unfolding rb'_def using assms by (rule rb_inv_set_read_ptr)
  moreover have "rb_contents rb' = drop (unat m) (rb_contents rb)"
    unfolding rb'_def using assms m by (intro rb_contents_advance_read(1)) (simp_all add: unat_advance)
  moreover have "drop (unat m) (rb_contents rb) = drop (unat n) (rb_contents rb)"
    using m by (cases "unat n \<le> rb_fill rb") simp_all
  moreover have "rb_capacity rb' = rb_capacity rb" by (simp add: rb'_def rb_capacity_def)
  ultimately show ?thesis using m by auto
qed

interpretation rbq: byte_fifo rb_inv rb_contents rb_capacity ffado_ringbuffer_write ffado_ringbuffer_read
proof unfold_locales
  show "length (rb_contents rb) \<le> rb_capacity rb" if "rb_inv rb" for rb
    using rb_fill_less [OF that] by (simp add: rb_capacity_eq that)
qed (use ringbuffer_put_law ringbuffer_get_law in blast)+

section \<open>Creation\<close>

lemma two_power_word_less:
  assumes "p < 64"
  shows "(2 ^ p < (sz :: u64)) = (2 ^ p < unat sz)"
proof -
  have "unat (2 ^ p :: u64) = 2 ^ p"
    using assms unat_of_nat [of "2 ^ p", where 'a = 64] power_strict_increasing [of p 64 "2::nat"]
    by simp
  then show ?thesis by (simp add: word_less_nat_alt)
qed

lemma create_power_Inr:
  assumes "create_power p sz = Inr k"
  shows "p \<le> k \<and> k \<le> 30 \<and> unat sz \<le> 2 ^ k \<and> (k = p \<or> 2 ^ (k - 1) < unat sz)"
  using assms
proof (induction p sz rule: create_power.induct)
  case (1 p sz)
  show ?case
  proof (cases "31 \<le> p \<or> \<not> 2 ^ p < sz")
    case True
    then show ?thesis
      using "1.prems" two_power_word_less [of p sz]
      by (auto simp: create_power.simps [of p sz] split: if_splits)
  next
    case False
    then have "create_power (Suc p) sz = Inr k" "2 ^ p < unat sz"
      using "1.prems" two_power_word_less [of p sz] by (auto simp: create_power.simps [of p sz])
    then show ?thesis using "1.IH" False by fastforce
  qed
qed

lemma create_power_defined:
  assumes "unat sz \<le> 2 ^ 30" "p \<le> 30"
  shows "\<exists>k. create_power p sz = Inr k"
  using assms
proof (induction p sz rule: create_power.induct)
  case (1 p sz)
  have "\<not> 2 ^ p < sz" if "p = 30"
    using "1.prems"(1) that two_power_word_less [of 30 sz] by simp
  then have "p \<noteq> 30" if "2 ^ p < sz" using that by auto
  then show ?case using 1 by (auto simp: create_power.simps [of p sz])
qed

lemma create_power_overflow:
  assumes "2 ^ 30 < unat sz"
  shows "create_power p sz = Inl ShiftOverflow"
  using assms
proof (induction p sz rule: create_power.induct)
  case (1 p sz)
  have "2 ^ p < sz" if "p \<le> 30"
    using that "1.prems" two_power_word_less [of p sz] power_increasing [of p 30 "2::nat"] by simp
  then show ?case using 1 by (auto simp: create_power.simps [of p sz] not_le)
qed

lemma created_inv:
  assumes "1 \<le> k" "k \<le> 30"
  shows "rb_inv \<lparr>rb_buf = map heap [0..<2 ^ k], rb_write_ptr = 0, rb_read_ptr = 0,
            rb_size = 2 ^ k, rb_size_mask = 2 ^ k - 1, rb_mlocked = False\<rparr>"
    "unat (2 ^ k :: u64) = 2 ^ k"
proof -
  show u: "unat (2 ^ k :: u64) = 2 ^ k"
    using assms unat_of_nat [of "2 ^ k", where 'a = 64] power_strict_increasing [of k 64 "2::nat"]
    by simp
  then have "0 < (2 ^ k :: u64)" by (simp add: word_less_nat_alt)
  then show "rb_inv \<lparr>rb_buf = map heap [0..<2 ^ k], rb_write_ptr = 0, rb_read_ptr = 0,
            rb_size = 2 ^ k, rb_size_mask = 2 ^ k - 1, rb_mlocked = False\<rparr>"
    using assms u by (auto simp: rb_inv_def)
qed

lemma rb_contents_empty: "rb_write_ptr rb = rb_read_ptr rb \<Longrightarrow> rb_contents rb = []"
  by (simp add: rb_contents_def rb_fill_def ring_dist_def)

section \<open>Access in place\<close>

lemma ringbuffer_read_peek:
  assumes "rb_inv rb"
  shows "ffado_ringbuffer_read rb cnt =
           bind_result (ffado_ringbuffer_peek rb cnt) (\<lambda>(n, d). Inr (n, d, ffado_ringbuffer_read_advance rb n))"
  by (simp add: ringbuffer_read_eq [OF assms] ringbuffer_peek_eq [OF assms]
      ffado_ringbuffer_read_advance_def Let_def)

text \<open>The segments are what \<open>split_count\<close> gives for all that is readable or writable.\<close>

lemma get_read_vector_split:
  "ffado_ringbuffer_get_read_vector rb vec =
     (let (n1, n2) = split_count rb (rb_read_ptr rb) (ffado_ringbuffer_read_space rb)
      in (\<lparr>rd_buf = rb_read_ptr rb, rd_len = n1\<rparr>,
          if rb_size rb < rb_read_ptr rb + ffado_ringbuffer_read_space rb
          then \<lparr>rd_buf = 0, rd_len = n2\<rparr> else (snd vec)\<lparr>rd_len := 0\<rparr>))"
  by (simp add: ffado_ringbuffer_get_read_vector_def ffado_ringbuffer_read_space_def split_count_def
      Let_def)

lemma get_write_vector_split:
  "ffado_ringbuffer_get_write_vector rb vec =
     (let (n1, n2) = split_count rb (rb_write_ptr rb) (ffado_ringbuffer_write_space rb)
      in (\<lparr>rd_buf = rb_write_ptr rb, rd_len = n1\<rparr>,
          if rb_size rb < rb_write_ptr rb + ffado_ringbuffer_write_space rb
          then \<lparr>rd_buf = 0, rd_len = n2\<rparr> else (snd vec)\<lparr>rd_len := 0\<rparr>))"
  by (simp add: ffado_ringbuffer_get_write_vector_def ffado_ringbuffer_write_space_def split_count_def
      Let_def)

text \<open>The bytes of a segment.\<close>

definition seg_bytes :: "ringbuffer \<Rightarrow> ringbuffer_data \<Rightarrow> byte list result" where
  "seg_bytes rb v = mem_read (rb_buf rb) (unat (rd_buf v)) (unat (rd_len v))"

lemma get_write_vector_first:
  assumes "rb_inv rb"
  shows "rd_buf (fst (ffado_ringbuffer_get_write_vector rb vec)) = rb_write_ptr rb"
    "unat (rd_len (fst (ffado_ringbuffer_get_write_vector rb vec))) \<le> rb_capacity rb - rb_fill rb"
    "unat (rb_write_ptr rb) + unat (rd_len (fst (ffado_ringbuffer_get_write_vector rb vec))) \<le> rb_len rb"
    "rb_fill rb < rb_capacity rb \<Longrightarrow> 0 < unat (rd_len (fst (ffado_ringbuffer_get_write_vector rb vec)))"
proof -
  note b = rb_inv_bounds [OF assms]
  obtain n1 n2 where s: "split_count rb (rb_write_ptr rb) (ffado_ringbuffer_write_space rb) = (n1, n2)"
    by fastforce
  have sp: "unat (ffado_ringbuffer_write_space rb) = rb_capacity rb - rb_fill rb"
    by (simp add: unat_write_space [OF assms] rb_capacity_eq [OF assms])
  then have "unat (ffado_ringbuffer_write_space rb) < rb_len rb"
    using b(1) rb_capacity_eq [OF assms] by linarith
  note sc = split_count_sound [OF assms s b(5) this]
  have e: "fst (ffado_ringbuffer_get_write_vector rb vec) = \<lparr>rd_buf = rb_write_ptr rb, rd_len = n1\<rparr>"
    by (simp add: get_write_vector_split s)
  show "rd_buf (fst (ffado_ringbuffer_get_write_vector rb vec)) = rb_write_ptr rb" by (simp add: e)
  show "unat (rd_len (fst (ffado_ringbuffer_get_write_vector rb vec))) \<le> rb_capacity rb - rb_fill rb"
    "unat (rb_write_ptr rb) + unat (rd_len (fst (ffado_ringbuffer_get_write_vector rb vec))) \<le> rb_len rb"
    using sc b(5) sp by (auto simp: e)
  show "0 < unat (rd_len (fst (ffado_ringbuffer_get_write_vector rb vec)))" if "rb_fill rb < rb_capacity rb"
    using sc b(5) sp that by (cases "unat n2 = 0") (auto simp: e)
qed

lemma get_write_vector_total:
  assumes "rb_inv rb"
  shows "unat (rd_len (fst (ffado_ringbuffer_get_write_vector rb vec)) +
           rd_len (snd (ffado_ringbuffer_get_write_vector rb vec))) = rb_capacity rb - rb_fill rb"
proof -
  note b = rb_inv_bounds [OF assms]
  obtain n1 n2 where s: "split_count rb (rb_write_ptr rb) (ffado_ringbuffer_write_space rb) = (n1, n2)"
    by fastforce
  have sp: "unat (ffado_ringbuffer_write_space rb) = rb_capacity rb - rb_fill rb"
    by (simp add: unat_write_space [OF assms] rb_capacity_eq [OF assms])
  then have lt: "unat (ffado_ringbuffer_write_space rb) < rb_len rb"
    using b(1) rb_capacity_eq [OF assms] by linarith
  note sc = split_count_sound [OF assms s b(5) lt]
  have "rd_len (snd (ffado_ringbuffer_get_write_vector rb vec)) = n2"
    using s by (auto simp: get_write_vector_split split_count_def Let_def)
  moreover have "rd_len (fst (ffado_ringbuffer_get_write_vector rb vec)) = n1"
    by (simp add: get_write_vector_split s)
  ultimately show ?thesis using sc(1) sp lt b(2) by (simp add: unat_plus_small)
qed

lemma get_read_vector_first:
  assumes "rb_inv rb"
  shows "rd_buf (fst (ffado_ringbuffer_get_read_vector rb vec)) = rb_read_ptr rb"
    "unat (rd_len (fst (ffado_ringbuffer_get_read_vector rb vec))) \<le> rb_fill rb"
    "unat (rb_read_ptr rb) + unat (rd_len (fst (ffado_ringbuffer_get_read_vector rb vec))) \<le> rb_len rb"
    "unat (rd_len (fst (ffado_ringbuffer_get_read_vector rb vec)) +
       rd_len (snd (ffado_ringbuffer_get_read_vector rb vec))) = rb_fill rb"
proof -
  note b = rb_inv_bounds [OF assms]
  obtain n1 n2 where s: "split_count rb (rb_read_ptr rb) (ffado_ringbuffer_read_space rb) = (n1, n2)"
    by fastforce
  have lt: "unat (ffado_ringbuffer_read_space rb) < rb_len rb"
    using rb_fill_less [OF assms] unat_read_space [OF assms] by simp
  note sc = split_count_sound [OF assms s b(6) lt]
  have e: "fst (ffado_ringbuffer_get_read_vector rb vec) = \<lparr>rd_buf = rb_read_ptr rb, rd_len = n1\<rparr>"
    by (simp add: get_read_vector_split s)
  have "rd_len (snd (ffado_ringbuffer_get_read_vector rb vec)) = n2"
    using s by (auto simp: get_read_vector_split split_count_def Let_def)
  then show "rd_buf (fst (ffado_ringbuffer_get_read_vector rb vec)) = rb_read_ptr rb"
    "unat (rd_len (fst (ffado_ringbuffer_get_read_vector rb vec))) \<le> rb_fill rb"
    "unat (rb_read_ptr rb) + unat (rd_len (fst (ffado_ringbuffer_get_read_vector rb vec))) \<le> rb_len rb"
    "unat (rd_len (fst (ffado_ringbuffer_get_read_vector rb vec)) +
       rd_len (snd (ffado_ringbuffer_get_read_vector rb vec))) = rb_fill rb"
    using sc(1,2) lt b(2) unat_read_space [OF assms] by (auto simp: e unat_plus_small)
qed

lemma read_in_place:
  assumes "k \<le> rb_fill rb" "unat (rb_read_ptr rb) + k \<le> rb_len rb"
  shows "mem_read (rb_buf rb) (unat (rb_read_ptr rb)) k = Inr (take k (rb_contents rb))"
  using assms by (simp add: mem_read_Inr rb_contents_def take_ring_slice ring_slice_flat min_absorb1)

text \<open>Filling the first bytes of the first writable segment and advancing appends them.\<close>

lemma write_in_place:
  assumes "rb_inv rb" "unat n = length bs" "unat (rb_write_ptr rb) + length bs \<le> rb_len rb"
    "rb_fill rb + length bs \<le> rb_capacity rb"
  obtains buf where "mem_write (rb_buf rb) (unat (rb_write_ptr rb)) bs = Inr buf"
    "rb_inv (ffado_ringbuffer_write_advance (rb\<lparr>rb_buf := buf\<rparr>) n)"
    "rb_contents (ffado_ringbuffer_write_advance (rb\<lparr>rb_buf := buf\<rparr>) n) = rb_contents rb @ bs"
proof
  let ?w = "unat (rb_write_ptr rb)"
  define buf where "buf = ring_put (rb_buf rb) ?w bs"
  note b = rb_inv_bounds [OF assms(1)]
  show "mem_write (rb_buf rb) ?w bs = Inr buf"
    using assms(3) b(5) by (simp add: mem_write_Inr ring_put_flat buf_def)
  have e: "ffado_ringbuffer_write_advance (rb\<lparr>rb_buf := buf\<rparr>) n =
      rb\<lparr>rb_buf := buf, rb_write_ptr := (rb_write_ptr rb + n) AND rb_size_mask rb\<rparr>"
    by (simp add: ffado_ringbuffer_write_advance_def)
  show "rb_inv (ffado_ringbuffer_write_advance (rb\<lparr>rb_buf := buf\<rparr>) n)"
    unfolding e using assms(1) by (intro rb_inv_set_write_ptr) (simp_all add: buf_def)
  show "rb_contents (ffado_ringbuffer_write_advance (rb\<lparr>rb_buf := buf\<rparr>) n) = rb_contents rb @ bs"
    unfolding e using assms b(1)
    by (intro rb_contents_put(1)) (simp_all add: unat_advance buf_def rb_capacity_eq)
qed

lemma read_advance_drops:
  assumes "rb_inv rb" "unat n \<le> rb_fill rb"
  shows "rb_inv (ffado_ringbuffer_read_advance rb n)"
    "rb_contents (ffado_ringbuffer_read_advance rb n) = drop (unat n) (rb_contents rb)"
    "rb_capacity (ffado_ringbuffer_read_advance rb n) = rb_capacity rb"
  unfolding ffado_ringbuffer_read_advance_def using assms
  by (auto intro: rb_inv_set_read_ptr rb_contents_advance_read(1) simp: unat_advance rb_capacity_def)

section \<open>Properties\<close>

text \<open>C2. Whatever sequence of reads and writes is made on a ring buffer, no call touches memory
  outside it, the invariant and the capacity are kept, and the bytes that were there plus the bytes
  the writes accepted are, in order, the bytes the reads delivered plus the bytes still there.\<close>

theorem ringbuffer_fifo:
  assumes "rb_inv rb" "list_all fifo_op_ok oprs"
  shows "\<exists>ins outs rb'. fifo_run ffado_ringbuffer_write ffado_ringbuffer_read rb oprs = Inr (ins, outs, rb') \<and>
           rb_inv rb' \<and> rb_capacity rb' = rb_capacity rb \<and>
           rb_contents rb @ ins = outs @ rb_contents rb'"
  using assms by (rule rbq.run_in_order)

theorem ringbuffer_fifo_witness:
  "\<exists>ins outs rb'. fifo_run ffado_ringbuffer_write ffado_ringbuffer_read
       \<lparr>rb_buf = [9, 9, 9, 9], rb_write_ptr = 3, rb_read_ptr = 2, rb_size = 4, rb_size_mask = 3, rb_mlocked = False\<rparr>
       [PutOp [1, 2, 3], GetOp 2, PutOp [4]] = Inr (ins, outs, rb') \<and> rb_inv rb' \<and>
     rb_capacity rb' = 3 \<and> 9 # ins = outs @ rb_contents rb'"
  using ringbuffer_fifo [of "\<lparr>rb_buf = [9, 9, 9, 9], rb_write_ptr = 3, rb_read_ptr = 2, rb_size = 4,
       rb_size_mask = 3, rb_mlocked = False\<rparr>" "[PutOp [1, 2, 3], GetOp 2, PutOp [4]]"]
  by (simp add: rb_inv_def rb_capacity_def rb_contents_def rb_fill_def ring_dist_def ring_slice_def
      bexI [of _ 2])

text \<open>C22. A write stores the longest prefix of its data that fits, up to the requested count, behind
  the bytes already there; a read delivers and removes the oldest bytes, up to the requested count;
  the space functions report the two limits, which add up to one byte less than the size.\<close>

theorem ringbuffer_transfer:
  assumes "rb_inv rb" "unat cnt \<le> length src"
  shows "(\<exists>n rb'. ffado_ringbuffer_write rb src cnt = Inr (n, rb') \<and> rb_inv rb' \<and>
            unat n = min (unat cnt) (unat (ffado_ringbuffer_write_space rb)) \<and>
            rb_contents rb' = rb_contents rb @ take (unat n) src) \<and>
         (\<exists>n rb'. ffado_ringbuffer_read rb cnt = Inr (n, take (unat cnt) (rb_contents rb), rb') \<and> rb_inv rb' \<and>
            unat n = min (unat cnt) (unat (ffado_ringbuffer_read_space rb)) \<and>
            rb_contents rb' = drop (unat cnt) (rb_contents rb)) \<and>
         unat (ffado_ringbuffer_read_space rb) = length (rb_contents rb) \<and>
         unat (ffado_ringbuffer_read_space rb) + unat (ffado_ringbuffer_write_space rb) + 1 = unat (rb_size rb)"
  using ringbuffer_put_law [OF assms] ringbuffer_get_law [OF assms(1), of cnt] rb_fill_less [OF assms(1)]
    rb_inv_bounds(4) [OF assms(1)]
  by (auto simp: unat_read_space [OF assms(1)] unat_write_space [OF assms(1)] rb_capacity_eq [OF assms(1)])

theorem ringbuffer_transfer_witness:
  "\<exists>n rb'. ffado_ringbuffer_write \<lparr>rb_buf = [5, 6, 7, 8], rb_write_ptr = 3, rb_read_ptr = 1, rb_size = 4,
       rb_size_mask = 3, rb_mlocked = False\<rparr> [1, 2] 2 = Inr (n, rb') \<and> rb_inv rb' \<and> unat n = 1 \<and>
     rb_contents rb' = [6, 7, 1]"
proof -
  let ?rb = "\<lparr>rb_buf = [5, 6, 7, 8], rb_write_ptr = 3, rb_read_ptr = 1, rb_size = 4,
       rb_size_mask = 3, rb_mlocked = False\<rparr>"
  have "rb_inv ?rb" by (simp add: rb_inv_def bexI [of _ 2])
  moreover have "rb_contents ?rb = [6, 7]" "ffado_ringbuffer_write_space ?rb = 1"
    by (simp_all add: rb_contents_def rb_fill_def ring_dist_def ring_slice_def ffado_ringbuffer_write_space_def
        upt_conv_Cons)
  ultimately show ?thesis using ringbuffer_transfer [of ?rb 2 "[1, 2]"] by auto
qed

text \<open>C26. Creating a ring buffer for \<open>sz\<close> bytes is defined up to \<open>2 ^ 30\<close> bytes and overflows the
  shift beyond. It gives an empty ring buffer that satisfies the invariant, of the smallest size
  that is a power of two, at least 2 and at least \<open>sz\<close>; it can hold one byte less than that size,
  so it holds \<open>sz\<close> bytes exactly when \<open>sz\<close> is not itself that power of two.\<close>

theorem ringbuffer_create_sound:
  "if unat sz \<le> 2 ^ 30
   then \<exists>rb k. ffado_ringbuffer_create heap sz = Inr rb \<and> rb_inv rb \<and> rb_contents rb = [] \<and>
          unat (rb_size rb) = 2 ^ k \<and> unat sz \<le> 2 ^ k \<and> (k = 1 \<or> 1 < k \<and> 2 ^ (k - 1) < unat sz) \<and>
          (unat sz \<le> unat (ffado_ringbuffer_write_space rb) \<longleftrightarrow> unat sz \<noteq> 2 ^ k)
   else ffado_ringbuffer_create heap sz = Inl ShiftOverflow"
proof (cases "unat sz \<le> 2 ^ 30")
  case True
  then obtain k where k: "create_power 1 sz = Inr k"
    using create_power_defined [of sz 1] by auto
  note kb = create_power_Inr [OF k]
  define rb where "rb = \<lparr>rb_buf = map heap [0..<2 ^ k], rb_write_ptr = 0, rb_read_ptr = 0,
            rb_size = 2 ^ k, rb_size_mask = 2 ^ k - 1, rb_mlocked = False\<rparr>"
  have inv: "rb_inv rb" and sz: "unat (rb_size rb) = 2 ^ k"
    using created_inv kb by (simp_all add: rb_def)
  have "ffado_ringbuffer_create heap sz = Inr rb"
    unfolding ffado_ringbuffer_create_def k rb_def by simp
  moreover have empty: "rb_contents rb = []" by (simp add: rb_contents_empty rb_def)
  ultimately have c: "ffado_ringbuffer_create heap sz = Inr rb" "rb_contents rb = []" by simp_all
  have "unat (ffado_ringbuffer_write_space rb) = 2 ^ k - 1"
    using unat_write_space [OF inv] length_rb_contents [of rb] empty rb_inv_bounds(4) [OF inv] sz by simp
  moreover have "(a \<le> p - 1) = (a \<noteq> p)" if "a \<le> p" "0 < p" for a p :: nat
    using that by auto
  ultimately have "(unat sz \<le> unat (ffado_ringbuffer_write_space rb)) = (unat sz \<noteq> 2 ^ k)"
    using kb by simp
  then show ?thesis using True inv sz kb c by (simp only: if_True) (metis le_neq_implies_less)
next
  case False
  then show ?thesis by (simp add: ffado_ringbuffer_create_def create_power_overflow)
qed

theorem ringbuffer_create_sound_witness:
  "unat (1024 :: u64) \<le> 2 ^ 30 \<and>
   (\<exists>rb k. ffado_ringbuffer_create (\<lambda>_. 0) 1024 = Inr rb \<and> rb_inv rb \<and> rb_contents rb = [] \<and>
      unat (rb_size rb) = 2 ^ k \<and> (k = 1 \<or> 2 ^ (k - 1) < (1024 :: nat)))"
  using ringbuffer_create_sound [of 1024 "\<lambda>_. 0"] by auto

text \<open>Peeking returns exactly what reading returns; reading is peeking and then advancing by the
  count that was returned, and advancing by no more than the fill level removes the oldest bytes.\<close>

theorem ringbuffer_peek_advance:
  assumes "rb_inv rb" "unat n \<le> unat (ffado_ringbuffer_read_space rb)"
  shows "ffado_ringbuffer_peek rb n = Inr (n, take (unat n) (rb_contents rb)) \<and>
         ffado_ringbuffer_read rb n = Inr (n, take (unat n) (rb_contents rb), ffado_ringbuffer_read_advance rb n) \<and>
         rb_inv (ffado_ringbuffer_read_advance rb n) \<and>
         rb_contents (ffado_ringbuffer_read_advance rb n) = drop (unat n) (rb_contents rb)"
proof -
  have "ffado_ringbuffer_peek rb n = Inr (n, take (unat n) (rb_contents rb))"
    using assms(2) by (simp add: ringbuffer_peek_eq [OF assms(1)] word_less_nat_alt)
  then show ?thesis
    using assms(2) read_advance_drops [OF assms(1), of n]
    by (simp add: ringbuffer_read_peek [OF assms(1)] unat_read_space [OF assms(1)])
qed

theorem ringbuffer_peek_advance_witness:
  "ffado_ringbuffer_peek \<lparr>rb_buf = [5, 6, 7, 8], rb_write_ptr = 1, rb_read_ptr = 3, rb_size = 4,
       rb_size_mask = 3, rb_mlocked = False\<rparr> 2 = Inr (2, [8, 5])"
proof -
  let ?rb = "\<lparr>rb_buf = [5, 6, 7, 8], rb_write_ptr = 1, rb_read_ptr = 3, rb_size = 4,
       rb_size_mask = 3, rb_mlocked = False\<rparr>"
  have "rb_inv ?rb" by (simp add: rb_inv_def bexI [of _ 2])
  moreover have "rb_contents ?rb = [8, 5]" "ffado_ringbuffer_read_space ?rb = 2"
    by (simp_all add: rb_contents_def rb_fill_def ring_dist_def ring_slice_def ffado_ringbuffer_read_space_def
        upt_conv_Cons)
  ultimately show ?thesis using ringbuffer_peek_advance [of ?rb 2] by simp
qed

text \<open>C21. The readable segments of a ring buffer are, one after the other, its contents; the second
  one is empty or starts at the first byte of the storage. Storing bytes at the start of the first
  writable segment, as many as it has room for, and advancing by their number appends them.\<close>

theorem ringbuffer_vectors:
  assumes "rb_inv rb" "unat n = length bs"
    "length bs \<le> unat (rd_len (fst (ffado_ringbuffer_get_write_vector rb vec)))"
  shows "(\<exists>d1. seg_bytes rb (fst (ffado_ringbuffer_get_read_vector rb vec)) = Inr d1 \<and>
            (if rd_len (snd (ffado_ringbuffer_get_read_vector rb vec)) = 0 then rb_contents rb = d1
             else rd_buf (snd (ffado_ringbuffer_get_read_vector rb vec)) = 0 \<and>
                  (\<exists>d2. seg_bytes rb (snd (ffado_ringbuffer_get_read_vector rb vec)) = Inr d2 \<and>
                        rb_contents rb = d1 @ d2))) \<and>
         (\<exists>buf. mem_write (rb_buf rb) (unat (rd_buf (fst (ffado_ringbuffer_get_write_vector rb vec)))) bs = Inr buf \<and>
            rb_contents (ffado_ringbuffer_write_advance (rb\<lparr>rb_buf := buf\<rparr>) n) = rb_contents rb @ bs)"
proof
  note gw = get_write_vector_first [OF assms(1), of vec]
  show "\<exists>buf. mem_write (rb_buf rb) (unat (rd_buf (fst (ffado_ringbuffer_get_write_vector rb vec)))) bs = Inr buf \<and>
            rb_contents (ffado_ringbuffer_write_advance (rb\<lparr>rb_buf := buf\<rparr>) n) = rb_contents rb @ bs"
  proof (rule write_in_place [OF assms(1,2)])
    show "unat (rb_write_ptr rb) + length bs \<le> rb_len rb" using gw assms(3) by linarith
    show "rb_fill rb + length bs \<le> rb_capacity rb"
      using gw assms(3) rbq.bounded [OF assms(1)] by simp
  qed (use gw(1) in auto)
  let ?v = "ffado_ringbuffer_get_read_vector rb vec" and ?f = "ffado_ringbuffer_read_space rb"
  obtain n1 n2 where s: "split_count rb (rb_read_ptr rb) ?f = (n1, n2)" by fastforce
  have f: "unat ?f = rb_fill rb" "unat ?f < rb_len rb"
    using unat_read_space [OF assms(1)] rb_fill_less [OF assms(1)] by simp_all
  note sl = ring_slice_split [OF assms(1) s rb_inv_bounds(6) [OF assms(1)] f(2)]
    and sc = split_count_sound [OF assms(1) s rb_inv_bounds(6) [OF assms(1)] f(2)]
  have first: "seg_bytes rb (fst ?v) = Inr (ring_slice (rb_buf rb) (unat (rb_read_ptr rb)) (unat n1))"
    using sl(1) by (simp add: seg_bytes_def get_read_vector_split s)
  show "\<exists>d1. seg_bytes rb (fst ?v) = Inr d1 \<and>
            (if rd_len (snd ?v) = 0 then rb_contents rb = d1
             else rd_buf (snd ?v) = 0 \<and> (\<exists>d2. seg_bytes rb (snd ?v) = Inr d2 \<and> rb_contents rb = d1 @ d2))"
  proof (cases "n2 = 0")
    case True
    then have "rd_len (snd ?v) = 0" by (simp add: get_read_vector_split s)
    then show ?thesis using first sl(3) [OF True] f by (simp add: rb_contents_def)
  next
    case False
    then have v: "snd ?v = \<lparr>rd_buf = 0, rd_len = n2\<rparr>" and
      w: "unat (rb_read_ptr rb) + unat n1 = rb_len rb"
      using s sc(4) by (auto simp: get_read_vector_split split_count_def Let_def unat_eq_0 split: if_splits)
    have "seg_bytes rb (snd ?v) = Inr (ring_slice (rb_buf rb) (unat (rb_read_ptr rb) + unat n1) (unat n2))"
      using sl(2) [OF False] w by (simp add: v seg_bytes_def unat_advance [OF assms(1)])
    then show ?thesis using first v False sl(4) f by (simp add: rb_contents_def)
  qed
qed

theorem ringbuffer_vectors_witness:
  "\<exists>d1. seg_bytes \<lparr>rb_buf = [5, 6, 7, 8], rb_write_ptr = 1, rb_read_ptr = 3, rb_size = 4,
       rb_size_mask = 3, rb_mlocked = False\<rparr>
     (fst (ffado_ringbuffer_get_read_vector \<lparr>rb_buf = [5, 6, 7, 8], rb_write_ptr = 1, rb_read_ptr = 3,
       rb_size = 4, rb_size_mask = 3, rb_mlocked = False\<rparr> (\<lparr>rd_buf = 0, rd_len = 0\<rparr>, \<lparr>rd_buf = 0, rd_len = 0\<rparr>)))
     = Inr d1"
proof -
  let ?rb = "\<lparr>rb_buf = [5, 6, 7, 8], rb_write_ptr = 1, rb_read_ptr = 3, rb_size = 4,
       rb_size_mask = 3, rb_mlocked = False\<rparr>"
  have "rb_inv ?rb" by (simp add: rb_inv_def bexI [of _ 2])
  moreover have "unat (1 :: u64) = length [42 :: byte]" by simp
  moreover have "length [42 :: byte] \<le> unat (rd_len (fst (ffado_ringbuffer_get_write_vector ?rb
      (\<lparr>rd_buf = 0, rd_len = 0\<rparr>, \<lparr>rd_buf = 0, rd_len = 0\<rparr>))))"
    by (simp add: ffado_ringbuffer_get_write_vector_def)
  ultimately show ?thesis using ringbuffer_vectors by blast
qed

end
