(* ===== verification/IEEE_Float.thy ===== *)
theory IEEE_Float
  imports Complex_Main "HOL-Library.Log_Nat"
begin

text \<open>
  The finite floating point numbers of the sources. A \<open>float\<close> or \<open>double\<close> is the rational number it
  denotes; an arithmetic operation is the exact operation followed by rounding to the nearest
  representable number, ties to even, with the 24 or 53 digits of the two formats and gradual
  underflow. Infinities and NaN are not modelled: operations that could produce them say so.

  The lemmas give what the timestamp arithmetic needs: rounding changes nothing that fits the
  format, it is monotone, and every rounded number of a certain magnitude lies on a known grid.
\<close>

section \<open>Rounding\<close>

text \<open>The exponent of the leading binary digit of a positive number.\<close>

definition fexp :: "rat \<Rightarrow> int" where
  "fexp x =
     (let (n, d) = quotient_of x;
          k = int (floorlog 2 (nat n)) - int (floorlog 2 (nat d))
      in if 2 powi k \<le> x then k else k - 1)"

definition rne :: "rat \<Rightarrow> int" where
  "rne x =
     (let f = \<lfloor>x\<rfloor>; r = x - of_int f
      in if r < 1 / 2 then f else if 1 / 2 < r then f + 1 else if even f then f else f + 1)"

definition ulp_exp :: "nat \<Rightarrow> int \<Rightarrow> rat \<Rightarrow> int" where
  "ulp_exp p emin x = max (fexp \<bar>x\<bar> - (int p - 1)) emin"

definition fl :: "nat \<Rightarrow> int \<Rightarrow> rat \<Rightarrow> rat" where
  "fl p emin x =
     (if x = 0 then 0
      else of_int (rne (x / 2 powi ulp_exp p emin x)) * 2 powi ulp_exp p emin x)"

text \<open>Rounding to \<open>double\<close> and to \<open>float\<close>.\<close>

definition rd :: "rat \<Rightarrow> rat" where "rd = fl 53 (- 1074)"
definition rf :: "rat \<Rightarrow> rat" where "rf = fl 24 (- 149)"

section \<open>Exponents\<close>

lemma powi_split: "i \<le> j \<Longrightarrow> (2::rat) powi j = 2 powi (j - i) * 2 powi i"
  by (metis diff_add_cancel power_int_add zero_neq_numeral)

lemma powi_mono_2: "i \<le> j \<Longrightarrow> (2::rat) powi i \<le> 2 powi j"
  by (simp add: power_int_increasing)

lemma powi_less_imp_less: "(2::rat) powi i < 2 powi j \<Longrightarrow> i < j"
  by (meson powi_mono_2 linorder_not_less)

lemma powi_nonneg_int: "0 \<le> k \<Longrightarrow> \<exists>z::int. (2::rat) powi k = of_int z"
  by (auto simp: power_int_def intro!: exI [of _ "2 ^ nat k"])

lemma powi_floorlog:
  assumes "0 < n"
  shows "2 powi (int (floorlog 2 n) - 1) \<le> (of_nat n :: rat)" "(of_nat n :: rat) < 2 powi int (floorlog 2 n)"
proof -
  have pos: "0 < floorlog 2 n" using assms by (simp add: floorlog_def)
  have "2 ^ (floorlog 2 n - 1) \<le> n" "n < 2 ^ floorlog 2 n"
    using floorlog_bounds [of n 2] assms by auto
  then have "(of_nat (2 ^ (floorlog 2 n - 1)) :: rat) \<le> of_nat n"
    "(of_nat n :: rat) < of_nat (2 ^ floorlog 2 n)"
    by (simp_all only: of_nat_le_iff of_nat_less_iff)
  moreover have "nat (int (floorlog 2 n) - 1) = floorlog 2 n - 1" by simp
  ultimately show "2 powi (int (floorlog 2 n) - 1) \<le> (of_nat n :: rat)"
    "(of_nat n :: rat) < 2 powi int (floorlog 2 n)"
    using pos by (simp_all add: power_int_def)
qed

lemma fexp_bounds:
  assumes "0 < x"
  shows "2 powi fexp x \<le> x" "x < 2 powi (fexp x + 1)"
proof -
  obtain n d where q: "quotient_of x = (n, d)" by fastforce
  have d: "0 < d" and x: "x = of_int n / of_int d"
    using q by (simp_all add: quotient_of_denom_pos quotient_of_div)
  have n: "0 < n" using assms d x by (simp add: zero_less_divide_iff)
  define a where "a = int (floorlog 2 (nat n))"
  define b where "b = int (floorlog 2 (nat d))"
  have na: "2 powi (a - 1) \<le> (of_int n :: rat)" "(of_int n :: rat) < 2 powi a"
    and db: "2 powi (b - 1) \<le> (of_int d :: rat)" "(of_int d :: rat) < 2 powi b"
    using powi_floorlog [of "nat n"] powi_floorlog [of "nat d"] n d by (simp_all add: a_def b_def)
  have dr: "(0 :: rat) < of_int d" using d by simp
  have "of_int d * 2 powi (a - b - 1) < 2 powi b * (2 powi (a - b - 1) :: rat)"
    using db(2) by (intro mult_strict_right_mono) simp_all
  also have "\<dots> = 2 powi (a - 1)"
    by (metis add_diff_cancel_left' add_diff_eq diff_add_eq power_int_add zero_neq_numeral diff_add_cancel)
  finally have lo: "2 powi (a - b - 1) < x"
    using na(1) dr by (simp add: x pos_less_divide_eq mult.commute)
  have "2 powi a = 2 powi (b - 1) * (2 powi (a - b + 1) :: rat)"
    by (metis add_diff_cancel_left' add_diff_eq diff_add_eq power_int_add zero_neq_numeral diff_add_cancel)
  also have "\<dots> \<le> of_int d * 2 powi (a - b + 1)"
    using db(1) by (intro mult_right_mono) simp_all
  finally have hi: "x < 2 powi (a - b + 1)"
    using na(2) dr by (simp add: x pos_divide_less_eq mult.commute)
  have "fexp x = (if 2 powi (a - b) \<le> x then a - b else a - b - 1)"
    by (simp add: fexp_def q a_def b_def)
  then show "2 powi fexp x \<le> x" "x < 2 powi (fexp x + 1)"
    using lo hi by (auto simp: less_imp_le)
qed

lemma fexp_unique:
  assumes "2 powi e \<le> x" "x < 2 powi (e + 1)"
  shows "fexp x = e"
proof -
  have "0 < x" using assms(1) less_le_trans [of 0 "2 powi e" x] by simp
  note b = fexp_bounds [OF this]
  have "fexp x < e + 1" "e < fexp x + 1"
    using powi_less_imp_less [of "fexp x" "e + 1"] powi_less_imp_less [of e "fexp x + 1"] assms b by auto
  then show ?thesis by simp
qed

section \<open>Rounding to an integer\<close>

lemma rne_of_int [simp]: "rne (of_int k) = k"
  by (simp add: rne_def)

lemma rne_cases: "rne x = \<lfloor>x\<rfloor> \<or> rne x = \<lfloor>x\<rfloor> + 1"
  by (simp add: rne_def Let_def)

lemma floor_bracket: "of_int \<lfloor>x\<rfloor> \<le> (x :: rat)" "(x :: rat) < of_int \<lfloor>x\<rfloor> + 1"
  using floor_correct [of x] by (simp_all only: of_int_add of_int_1)

lemma rne_error: "\<bar>of_int (rne x) - x\<bar> \<le> 1 / 2"
  using floor_bracket [of x] by (auto simp: rne_def Let_def)

lemma rne_mono:
  assumes "x \<le> y"
  shows "rne x \<le> rne y"
proof (cases "\<lfloor>x\<rfloor> = \<lfloor>y\<rfloor>")
  case True
  then show ?thesis using assms by (auto simp: rne_def Let_def)
next
  case False
  then have "\<lfloor>x\<rfloor> + 1 \<le> \<lfloor>y\<rfloor>" using floor_mono [OF assms] by simp
  then show ?thesis using rne_cases [of x] rne_cases [of y] by linarith
qed

lemma rne_minus: "rne (- x) = - rne x"
proof (cases "x = of_int \<lfloor>x\<rfloor>")
  case True
  then show ?thesis by (metis of_int_minus rne_of_int)
next
  case False
  then have "of_int \<lfloor>x\<rfloor> < x" "x < of_int \<lfloor>x\<rfloor> + 1"
    using floor_bracket [of x] by linarith+
  then have f: "\<lfloor>- x\<rfloor> = - \<lfloor>x\<rfloor> - 1" by (intro floor_unique) simp_all
  show ?thesis by (auto simp: rne_def Let_def f)
qed

section \<open>Rounding to a format\<close>

lemma fl_0 [simp]: "fl p emin 0 = 0"
  by (simp add: fl_def)

lemma fl_minus: "fl p emin (- x) = - fl p emin x"
  by (simp add: fl_def ulp_exp_def rne_minus)

text \<open>A number with at most \<open>p\<close> digits, none below the smallest exponent, is not changed.\<close>

lemma fl_exact:
  assumes "x = of_int m * 2 powi g" "\<bar>m\<bar> < 2 ^ p" "emin \<le> g"
  shows "fl p emin x = x"
proof (cases "x = 0")
  case False
  define e where "e = ulp_exp p emin x"
  have "\<bar>x\<bar> = of_int \<bar>m\<bar> * 2 powi g" using assms(1) by (simp add: abs_mult)
  also have "of_int \<bar>m\<bar> * 2 powi g < (2 powi int p * 2 powi g :: rat)"
    using assms(2) by (intro mult_strict_right_mono)
      (simp_all add: power_int_of_nat, metis of_int_abs of_int_less_iff of_int_numeral of_int_power)
  also have "\<dots> = 2 powi (int p + g)" by (simp add: power_int_add)
  finally have "2 powi fexp \<bar>x\<bar> < (2 :: rat) powi (int p + g)"
    using fexp_bounds(1) [of "\<bar>x\<bar>"] False by auto
  then have "fexp \<bar>x\<bar> < int p + g" by (rule powi_less_imp_less)
  then have "e \<le> g" using assms(3) by (simp add: e_def ulp_exp_def)
  then obtain z where "(2 :: rat) powi (g - e) = of_int z" using powi_nonneg_int [of "g - e"] by auto
  then have "x = of_int (m * z) * 2 powi e"
    using assms(1) powi_split [OF \<open>e \<le> g\<close>] by simp
  moreover from this have "x / 2 powi e = of_int (m * z)" by simp
  ultimately show ?thesis
    using False unfolding fl_def e_def [symmetric] by (simp del: of_int_mult)
qed simp

text \<open>Rounding is monotone.\<close>

lemma fl_nonneg:
  assumes "0 \<le> x"
  shows "0 \<le> fl p emin x"
proof -
  have "rne 0 \<le> rne (x / 2 powi ulp_exp p emin x)" using assms by (intro rne_mono) simp
  moreover have "rne 0 = 0" using rne_of_int [of 0] by simp
  ultimately show ?thesis by (simp add: fl_def)
qed

lemma fl_binade:
  assumes "0 < x" "0 < p"
  shows "fl p emin x \<le> 2 powi (int p + ulp_exp p emin x)"
    "emin < ulp_exp p emin x \<Longrightarrow> 2 powi (int p - 1 + ulp_exp p emin x) \<le> fl p emin x"
proof -
  define e where "e = ulp_exp p emin x"
  have f: "fl p emin x = of_int (rne (x / 2 powi e)) * 2 powi e" using assms by (simp add: fl_def e_def)
  have "x \<le> 2 powi (fexp x + 1)" using fexp_bounds(2) [OF assms(1)] by simp
  also have "\<dots> \<le> 2 powi (int p + e)" using assms by (intro powi_mono_2) (simp add: e_def ulp_exp_def)
  also have "\<dots> = of_int (2 ^ p) * 2 powi e" by (simp add: power_int_add)
  finally have "rne (x / 2 powi e) \<le> rne (of_int (2 ^ p))"
    by (intro rne_mono) (simp add: pos_divide_le_eq)
  then have "of_int (rne (x / 2 powi e)) * 2 powi e \<le> of_int (2 ^ p) * (2 powi e :: rat)"
    by (intro mult_right_mono) (simp_all only: rne_of_int of_int_le_iff zero_le_power_int zero_le_numeral)
  then show "fl p emin x \<le> 2 powi (int p + ulp_exp p emin x)"
    by (simp add: f power_int_add e_def [symmetric])
  assume "emin < ulp_exp p emin x"
  then have "int p - 1 + e = fexp x" using assms by (auto simp: e_def ulp_exp_def split: if_splits)
  then have "2 powi (int p - 1 + e) \<le> x" using fexp_bounds(1) [OF assms(1)] by simp
  moreover have p1: "2 powi (int p - 1 + e) = of_int (2 ^ (p - 1)) * (2 powi e :: rat)"
  proof -
    obtain q where "p = Suc q" using assms(2) gr0_conv_Suc by blast
    then show ?thesis by (simp add: power_int_add)
  qed
  ultimately have "rne (of_int (2 ^ (p - 1))) \<le> rne (x / 2 powi e)"
    by (intro rne_mono) (simp add: pos_le_divide_eq)
  then have "of_int (2 ^ (p - 1)) * (2 powi e :: rat) \<le> of_int (rne (x / 2 powi e)) * 2 powi e"
    by (intro mult_right_mono) (simp_all only: rne_of_int of_int_le_iff zero_le_power_int zero_le_numeral)
  then show "2 powi (int p - 1 + ulp_exp p emin x) \<le> fl p emin x"
    by (simp add: f p1 e_def [symmetric])
qed

lemma fexp_mono:
  assumes "0 < x" "x \<le> y"
  shows "fexp x \<le> fexp y"
proof -
  have "2 powi fexp x < (2 :: rat) powi (fexp y + 1)"
    using fexp_bounds(1) [of x] fexp_bounds(2) [of y] assms by auto
  then show ?thesis using powi_less_imp_less by fastforce
qed

lemma fl_mono_pos:
  assumes "0 < x" "x \<le> y" "0 < p"
  shows "fl p emin x \<le> fl p emin y"
proof -
  have le: "ulp_exp p emin x \<le> ulp_exp p emin y"
    using fexp_mono [OF assms(1,2)] assms(1,2) by (auto simp: ulp_exp_def)
  show ?thesis
  proof (cases "ulp_exp p emin x = ulp_exp p emin y")
    case True
    have "rne (x / 2 powi ulp_exp p emin y) \<le> rne (y / 2 powi ulp_exp p emin y)"
      using assms by (intro rne_mono divide_right_mono) simp_all
    then show ?thesis using assms True by (simp add: fl_def mult_right_mono)
  next
    case False
    then have lt: "ulp_exp p emin x + 1 \<le> ulp_exp p emin y" using le by simp
    moreover have "emin \<le> ulp_exp p emin x" by (simp add: ulp_exp_def)
    ultimately have "emin < ulp_exp p emin y" by simp
    then have "2 powi (int p - 1 + ulp_exp p emin y) \<le> fl p emin y"
      using fl_binade(2) [of y p emin] assms by auto
    moreover have "2 powi (int p + ulp_exp p emin x) \<le> (2 :: rat) powi (int p - 1 + ulp_exp p emin y)"
      using lt by (intro powi_mono_2) simp
    ultimately show ?thesis using fl_binade(1) [OF assms(1,3), of emin] by simp
  qed
qed

lemma fl_mono:
  assumes "x \<le> y" "0 < p"
  shows "fl p emin x \<le> fl p emin y"
proof -
  consider "0 < x" | "x \<le> 0" "0 \<le> y" | "y < 0" by linarith
  then show ?thesis
  proof cases
    case 1
    then show ?thesis using assms by (rule fl_mono_pos)
  next
    case 2
    then have "0 \<le> fl p emin (- x)" "0 \<le> fl p emin y" by (simp_all add: fl_nonneg)
    then show ?thesis by (simp add: fl_minus)
  next
    case 3
    then have "fl p emin (- y) \<le> fl p emin (- x)" using assms by (intro fl_mono_pos) simp_all
    then show ?thesis by (simp add: fl_minus)
  qed
qed

section \<open>The grid of timestamps\<close>

text \<open>Multiples of \<open>2 powi g\<close>.\<close>

definition on_grid :: "int \<Rightarrow> rat \<Rightarrow> bool" where
  "on_grid g x \<longleftrightarrow> x / 2 powi g = of_int \<lfloor>x / 2 powi g\<rfloor>"

lemma on_grid_iff: "on_grid g x \<longleftrightarrow> (\<exists>m. x = of_int m * 2 powi g)"
proof
  assume "on_grid g x"
  then have "x = of_int \<lfloor>x / 2 powi g\<rfloor> * 2 powi g" by (simp add: on_grid_def nonzero_divide_eq_eq)
  then show "\<exists>m. x = of_int m * 2 powi g" by blast
qed (auto simp: on_grid_def)

lemma on_grid_add: "on_grid g x \<Longrightarrow> on_grid g y \<Longrightarrow> on_grid g (x + y)"
  unfolding on_grid_iff by (elim exE, rule exI [of _ "_ + _"]) (simp add: distrib_right)

lemma on_grid_diff: "on_grid g x \<Longrightarrow> on_grid g y \<Longrightarrow> on_grid g (x - y)"
  unfolding on_grid_iff by (elim exE, rule exI [of _ "_ - _"]) (simp add: left_diff_distrib)

lemma on_grid_0 [simp]: "on_grid g 0"
  by (simp add: on_grid_def)

lemma on_grid_coarse:
  assumes "on_grid h x" "g \<le> h"
  shows "on_grid g x"
proof -
  obtain m where "x = of_int m * 2 powi h" using assms(1) by (auto simp: on_grid_iff)
  moreover obtain z where "(2 :: rat) powi (h - g) = of_int z" using powi_nonneg_int [of "h - g"] assms by auto
  ultimately have "x = of_int (m * z) * 2 powi g" using powi_split [OF assms(2)] by simp
  then show ?thesis unfolding on_grid_iff by blast
qed

lemma on_grid_of_int: "g \<le> 0 \<Longrightarrow> on_grid g (of_int k)"
  by (rule on_grid_coarse [of 0]) (simp_all add: on_grid_def)

lemma on_grid_fl: "on_grid (ulp_exp p emin x) (fl p emin x)"
  unfolding on_grid_iff by (cases "x = 0") (auto simp: fl_def)

lemma rd_grid_exact:
  assumes "on_grid (- 20) x" "\<bar>x\<bar> < 2 ^ 33"
  shows "rd x = x"
proof -
  obtain m where m: "x = of_int m * 2 powi (- 20)" using assms(1) by (auto simp: on_grid_iff)
  then have "\<bar>of_int m :: rat\<bar> < 2 ^ 53" using assms(2)
    by (simp add: abs_mult power_int_def power_one_over)
  then have "\<bar>m\<bar> < 2 ^ 53"
    by (metis of_int_abs of_int_less_iff of_int_numeral of_int_power)
  then show ?thesis unfolding rd_def by (intro fl_exact [OF m]) simp_all
qed

lemma rd_of_int: "\<bar>k\<bar> < 2 ^ 53 \<Longrightarrow> rd (of_int k) = of_int k"
  unfolding rd_def by (rule fl_exact [of _ k 0]) simp_all

lemma rf_of_int: "\<bar>k\<bar> < 2 ^ 24 \<Longrightarrow> rf (of_int k) = of_int k"
  unfolding rf_def by (rule fl_exact [of _ k 0]) simp_all

lemma rf_on_grid:
  assumes "8 \<le> \<bar>x\<bar> \<or> x = 0"
  shows "on_grid (- 20) (rf x)"
proof (cases "x = 0")
  case False
  then have "2 powi 3 \<le> \<bar>x\<bar>" using assms by simp
  moreover have "\<bar>x\<bar> < 2 powi (fexp \<bar>x\<bar> + 1)" using False by (intro fexp_bounds) simp
  ultimately have "3 < fexp \<bar>x\<bar> + 1" by (intro powi_less_imp_less) (rule order.strict_trans1)
  then have "- 20 \<le> ulp_exp 24 (- 149) x" by (simp add: ulp_exp_def)
  then show ?thesis unfolding rf_def by (rule on_grid_coarse [OF on_grid_fl])
qed (simp add: rf_def)

lemma rd_mono: "x \<le> y \<Longrightarrow> rd x \<le> rd y"
  by (simp add: rd_def fl_mono)

lemma rf_mono: "x \<le> y \<Longrightarrow> rf x \<le> rf y"
  by (simp add: rf_def fl_mono)

lemma rd_0 [simp]: "rd 0 = 0" and rf_0 [simp]: "rf 0 = 0"
  by (simp_all add: rd_def rf_def)

end
