(* ===== verification/TimestampedBuffer.thy ===== *)
theory TimestampedBuffer
  imports RingBuffer IEEE_Float
begin

text \<open>
  The time-aware frame buffer of \<open>src/src/libutil/TimestampedBuffer.cpp\<close> and \<open>.h\<close>: a ring buffer of
  frames, a frame counter, and a delay-locked loop that tracks the time of the last frame. The
  state is a record with the members of the class, every method is a function on it. The mutex
  around the counter and the timestamps only makes the methods atomic and has no counterpart; the
  debug output and what only a \<open>DEBUG\<close> build does is left out.

  \<open>float\<close> and \<open>double\<close> members hold the rational number they denote, every operation is followed by
  the rounding of its type. The timestamps are \<open>double\<close>, the rates \<open>float\<close>.
\<close>

section \<open>State\<close>

record tsbuf =
  m_event_buffer :: "ringbuffer option"
  m_process_buffer :: "byte list option"
  m_cluster_size :: u32
  m_process_block_size :: u32
  m_event_size :: u32
  m_events_per_frame :: u32
  m_buffer_size :: u32
  m_bytes_per_frame :: u32
  m_bytes_per_buffer :: u32
  m_enabled :: bool
  m_transparent :: bool
  m_wrap_at :: rat
  m_framecounter :: u32
  m_buffer_tail_timestamp :: rat
  m_buffer_next_tail_timestamp :: rat
  m_dll_e2 :: rat
  m_dll_b :: rat
  m_dll_c :: rat
  m_nominal_rate :: rat
  m_current_rate :: rat
  m_update_period :: u32
  m_max_abs_diff :: u32

text \<open>The client whose callbacks fill and empty blocks of frames. A callback gets the memory it works
  on, the number of frames and the index of the first one in the period.\<close>

record 'c tsb_client =
  processReadBlock :: "'c \<Rightarrow> byte list \<Rightarrow> u32 \<Rightarrow> u32 \<Rightarrow> bool \<times> 'c"
  processWriteBlock :: "'c \<Rightarrow> byte list \<Rightarrow> u32 \<Rightarrow> u32 \<Rightarrow> bool \<times> byte list \<times> 'c"

abbreviation FRAMES_PER_PROCESS_BLOCK :: u32 where "FRAMES_PER_PROCESS_BLOCK \<equiv> 8"
abbreviation TIMESTAMP_MAX :: rat where "TIMESTAMP_MAX \<equiv> 3145728000"

definition DLL_SQRT2 :: rat where "DLL_SQRT2 = rd (1414213562373095049 / 10 ^ 18)"
definition DLL_2PI :: rat where "DLL_2PI = rd (2 * rd (3141592653589793238 / 10 ^ 18))"
definition DLL_OMEGA :: rat where "DLL_OMEGA = rd (DLL_2PI * rd (1 / 100))"
definition DLL_COEFF_B :: rat where "DLL_COEFF_B = rd (DLL_SQRT2 * DLL_OMEGA)"
definition DLL_COEFF_C :: rat where "DLL_COEFF_C = rd (DLL_OMEGA * DLL_OMEGA)"

text \<open>Conversions of integers to \<open>float\<close> and \<open>double\<close>; a 32 bit integer is a \<open>double\<close> exactly.\<close>

definition u2f :: "u32 \<Rightarrow> rat" where "u2f n = rf (of_nat (unat n))"
definition i2f :: "u32 \<Rightarrow> rat" where "i2f n = rf (of_int (sint n))"
definition u2d :: "u32 \<Rightarrow> rat" where "u2d n = of_nat (unat n)"

definition TimestampedBuffer :: tsbuf where
  "TimestampedBuffer =
     \<lparr>m_event_buffer = None, m_process_buffer = None, m_cluster_size = 0, m_process_block_size = 0,
      m_event_size = 0, m_events_per_frame = 0, m_buffer_size = 0, m_bytes_per_frame = 0,
      m_bytes_per_buffer = 0, m_enabled = False, m_transparent = True,
      m_wrap_at = rd 0xFFFFFFFFFFFFFFFF, m_framecounter = 0,
      m_buffer_tail_timestamp = TIMESTAMP_MAX + 1, m_buffer_next_tail_timestamp = TIMESTAMP_MAX + 1,
      m_dll_e2 = 0, m_dll_b = rf DLL_COEFF_B, m_dll_c = rf DLL_COEFF_C,
      m_nominal_rate = 0, m_current_rate = 0, m_update_period = 0, m_max_abs_diff = 3072 div 2\<rparr>"

section \<open>Parameters\<close>

definition dll_tupdate :: "tsbuf \<Rightarrow> rat" where
  "dll_tupdate s = rf (m_nominal_rate s * u2f (m_update_period s))"

definition getBandwidth :: "tsbuf \<Rightarrow> rat result" where
  "getBandwidth s =
     (let den = rd (rd (DLL_SQRT2 * DLL_2PI) * dll_tupdate s)
      in if den = 0 then Inl NotFinite else Inr (rd (m_dll_b s / den)))"

definition setBandwidth :: "rat \<Rightarrow> tsbuf \<Rightarrow> bool \<times> tsbuf" where
  "setBandwidth bw s =
     (let bw_rel = rd (bw * dll_tupdate s)
      in if 1 / 2 \<le> bw_rel then (False, s)
         else (True, s\<lparr>m_dll_b := rf (rd (bw_rel * rd (DLL_SQRT2 * DLL_2PI))),
                       m_dll_c := rf (rd (rd (rd (bw_rel * bw_rel) * DLL_2PI) * DLL_2PI))\<rparr>))"

definition setNominalRate :: "rat \<Rightarrow> tsbuf \<Rightarrow> bool \<times> tsbuf" where
  "setNominalRate r s = (True, s\<lparr>m_nominal_rate := r\<rparr>)"

definition setUpdatePeriod :: "u32 \<Rightarrow> tsbuf \<Rightarrow> bool \<times> tsbuf" where
  "setUpdatePeriod n s = (True, s\<lparr>m_update_period := n\<rparr>)"

definition setWrapValue :: "rat \<Rightarrow> tsbuf \<Rightarrow> bool \<times> tsbuf" where
  "setWrapValue w s = (True, s\<lparr>m_wrap_at := w\<rparr>)"

definition setRate :: "rat \<Rightarrow> tsbuf \<Rightarrow> tsbuf" where
  "setRate rate s =
     (let e2 = rf (u2f (m_update_period s) * rate)
      in s\<lparr>m_current_rate := rate, m_dll_e2 := e2,
           m_buffer_next_tail_timestamp := rd (m_buffer_tail_timestamp s + e2)\<rparr>)"

definition calculateRate :: "tsbuf \<Rightarrow> rat result" where
  "calculateRate s =
     (let diff = rd (m_buffer_next_tail_timestamp s - m_buffer_tail_timestamp s);
          maxd = rd (m_wrap_at s / 2);
          diff = (if maxd < diff then rd (diff - m_wrap_at s)
                  else if diff < - maxd then rd (diff + m_wrap_at s) else diff)
      in if m_update_period s = 0 then Inl NotFinite
         else let rate = rf (rf diff / u2f (m_update_period s))
              in Inr (if rd (m_nominal_rate s * rd (1 / 10)) < \<bar>rf (m_nominal_rate s - rate)\<bar>
                      then m_nominal_rate s else rate))"

definition update_sizes :: "tsbuf \<Rightarrow> tsbuf" where
  "update_sizes s =
     (let bpf = m_event_size s * m_events_per_frame s
      in s\<lparr>m_bytes_per_frame := bpf, m_bytes_per_buffer := bpf * m_buffer_size s\<rparr>)"

definition setEventSize :: "u32 \<Rightarrow> tsbuf \<Rightarrow> bool \<times> tsbuf" where
  "setEventSize n s = (True, update_sizes (s\<lparr>m_event_size := n\<rparr>))"

definition setEventsPerFrame :: "u32 \<Rightarrow> tsbuf \<Rightarrow> bool \<times> tsbuf" where
  "setEventsPerFrame n s = (True, update_sizes (s\<lparr>m_events_per_frame := n\<rparr>))"

definition setBufferSize :: "u32 \<Rightarrow> tsbuf \<Rightarrow> bool \<times> tsbuf" where
  "setBufferSize n s = (True, update_sizes (s\<lparr>m_buffer_size := n\<rparr>))"

definition setTransparent :: "bool \<Rightarrow> tsbuf \<Rightarrow> tsbuf" where
  "setTransparent v s = s\<lparr>m_transparent := v\<rparr>"

definition getBufferFill :: "tsbuf \<Rightarrow> u32" where
  "getBufferFill s = m_framecounter s"

text \<open>The asserted difference is unsigned, so the assertion is always true.\<close>

definition getBufferSpace :: "tsbuf \<Rightarrow> u32 result" where
  "getBufferSpace s =
     assert_result (0 \<le> m_buffer_size s - m_framecounter s) (Inr (m_buffer_size s - m_framecounter s))"

section \<open>Timestamps\<close>

definition wrap_ts :: "tsbuf \<Rightarrow> rat \<Rightarrow> rat" where
  "wrap_ts s ts =
     (if m_wrap_at s \<le> ts then rd (ts - m_wrap_at s) else if ts < 0 then rd (ts + m_wrap_at s) else ts)"

definition set_tail :: "rat \<Rightarrow> tsbuf \<Rightarrow> tsbuf" where
  "set_tail ts s =
     (let e2 = rd (u2d (m_update_period s) * m_current_rate s)
      in s\<lparr>m_buffer_tail_timestamp := ts, m_dll_e2 := e2,
           m_buffer_next_tail_timestamp := rd (ts + e2)\<rparr>)"

definition setBufferTailTimestamp :: "rat \<Rightarrow> tsbuf \<Rightarrow> tsbuf" where
  "setBufferTailTimestamp new_timestamp s = set_tail (wrap_ts s new_timestamp) s"

definition setBufferHeadTimestamp :: "rat \<Rightarrow> tsbuf \<Rightarrow> tsbuf" where
  "setBufferHeadTimestamp new_timestamp s =
     (let ts = rd (new_timestamp + rf (m_current_rate s * i2f (m_framecounter s)))
      in set_tail (wrap_ts s ts) s)"

definition getTimestampFromTail :: "u32 \<Rightarrow> tsbuf \<Rightarrow> rat" where
  "getTimestampFromTail nframes s =
     wrap_ts s (rd (m_buffer_tail_timestamp s - rf (i2f nframes * m_current_rate s)))"

definition getTimestampFromHead :: "u32 \<Rightarrow> tsbuf \<Rightarrow> rat" where
  "getTimestampFromHead nframes s = getTimestampFromTail (m_framecounter s - nframes) s"

definition getBufferHeadTimestamp :: "tsbuf \<Rightarrow> rat \<times> u32" where
  "getBufferHeadTimestamp s = (getTimestampFromTail (m_framecounter s) s, m_framecounter s)"

definition getBufferTailTimestamp :: "tsbuf \<Rightarrow> rat \<times> u32" where
  "getBufferTailTimestamp s = (getTimestampFromTail 0 s, m_framecounter s)"

definition resetFrameCounter :: "tsbuf \<Rightarrow> tsbuf" where
  "resetFrameCounter s = s\<lparr>m_framecounter := 0\<rparr>"

definition decrementFrameCounter :: "u32 \<Rightarrow> tsbuf \<Rightarrow> tsbuf" where
  "decrementFrameCounter n s = s\<lparr>m_framecounter := m_framecounter s - n\<rparr>"

text \<open>The error of the delay-locked loop: the distance of the timestamp from its prediction.\<close>

definition dll_error :: "tsbuf \<Rightarrow> rat \<Rightarrow> rat" where
  "dll_error s new_timestamp =
     (let diff = rd (new_timestamp - m_buffer_next_tail_timestamp s)
      in if rd (m_wrap_at s / 2) < diff then rd (m_wrap_at s - diff)
         else if diff < rd (- m_wrap_at s / 2) then rd (m_wrap_at s + diff)
         else diff)"

definition incrementFrameCounter :: "u32 \<Rightarrow> rat \<Rightarrow> tsbuf \<Rightarrow> tsbuf result" where
  "incrementFrameCounter nbframes new_timestamp s =
     assert_result (new_timestamp < m_wrap_at s) (
     assert_result (0 \<le> new_timestamp) (
     assert_result (nbframes = m_update_period s) (
       let err = dll_error s new_timestamp;
           next1 = rd (m_buffer_next_tail_timestamp s + rd (rd (m_dll_b s * err) + m_dll_e2 s));
           s1 = s\<lparr>m_framecounter := m_framecounter s + nbframes,
                  m_buffer_tail_timestamp := m_buffer_next_tail_timestamp s,
                  m_buffer_next_tail_timestamp :=
                    (if m_wrap_at s \<le> next1 then rd (next1 - m_wrap_at s) else next1),
                  m_dll_e2 := rd (m_dll_e2 s + rd (m_dll_c s * err))\<rparr>
       in bind_result (calculateRate s1) (\<lambda>r. Inr (s1\<lparr>m_current_rate := r\<rparr>)))))"

section \<open>Allocation\<close>

text \<open>A null event buffer is an error of its own in everything that uses it.\<close>

definition with_buffer :: "tsbuf \<Rightarrow> (ringbuffer \<Rightarrow> 'a result) \<Rightarrow> 'a result" where
  "with_buffer s f = (case m_event_buffer s of None \<Rightarrow> Inl NullPointer | Some rb \<Rightarrow> f rb)"

definition reset_rate :: "tsbuf \<Rightarrow> tsbuf" where
  "reset_rate s =
     s\<lparr>m_current_rate := m_nominal_rate s,
       m_dll_e2 := rf (m_nominal_rate s * u2f (m_update_period s))\<rparr>"

definition clearBuffer :: "tsbuf \<Rightarrow> (bool \<times> tsbuf) result" where
  "clearBuffer s =
     with_buffer s (\<lambda>rb.
       Inr (True, reset_rate (resetFrameCounter (s\<lparr>m_event_buffer := Some (ffado_ringbuffer_reset rb)\<rparr>))))"

text \<open>\<open>heap\<close> is what freshly allocated memory happens to hold.\<close>

definition resizeBuffer :: "(nat \<Rightarrow> byte) \<Rightarrow> u32 \<Rightarrow> tsbuf \<Rightarrow> (bool \<times> tsbuf) result" where
  "resizeBuffer heap new_size s =
     assert_result (new_size \<noteq> 0) (
     assert_result (m_events_per_frame s \<noteq> 0) (
     assert_result (m_event_size s \<noteq> 0) (
     bind_result (ffado_ringbuffer_create heap
                    (ucast ((m_events_per_frame s * new_size) * m_event_size s))) (\<lambda>rb.
     let s1 = reset_rate (resetFrameCounter (s\<lparr>m_event_buffer := Some rb\<rparr>))
     in Inr (True, s1\<lparr>m_buffer_size := new_size\<rparr>)))))"

definition prepare :: "(nat \<Rightarrow> byte) \<Rightarrow> tsbuf \<Rightarrow> (bool \<times> tsbuf) result" where
  "prepare heap s =
     assert_result (m_buffer_size s \<noteq> 0) (
     assert_result (m_events_per_frame s \<noteq> 0) (
     assert_result (m_event_size s \<noteq> 0) (
     assert_result (m_nominal_rate s \<noteq> 0) (
     assert_result (m_update_period s \<noteq> 0) (
     let s1 = s\<lparr>m_current_rate := m_nominal_rate s\<rparr>
     in bind_result (resizeBuffer heap (m_buffer_size s1) s1) (\<lambda>(ok, s2).
        if \<not> ok then Inr (False, s2)
        else let cluster = m_events_per_frame s2 * m_event_size s2;
                 block = cluster * FRAMES_PER_PROCESS_BLOCK
             in Inr (True, s2\<lparr>m_cluster_size := cluster, m_process_block_size := block,
                              m_process_buffer := Some (replicate (unat block) 0),
                              m_dll_e2 := rf (m_nominal_rate s2 * u2f (m_update_period s2)),
                              m_buffer_tail_timestamp := TIMESTAMP_MAX + 1,
                              m_buffer_next_tail_timestamp := TIMESTAMP_MAX + 1\<rparr>)))))))"

section \<open>Frame access\<close>

definition writeDummyFrame :: "tsbuf \<Rightarrow> (bool \<times> tsbuf) result" where
  "writeDummyFrame s =
     (let write_size = m_event_size s * m_events_per_frame s;
          dummy = replicate (unat write_size) 0
      in with_buffer s (\<lambda>rb.
         bind_result (ffado_ringbuffer_write rb dummy (ucast write_size)) (\<lambda>(n, rb').
         let s1 = s\<lparr>m_event_buffer := Some rb'\<rparr>
         in if n < ucast write_size then Inr (False, s1)
            else Inr (True, s1\<lparr>m_framecounter := m_framecounter s1 + 1\<rparr>))))"

definition writeFrames :: "u32 \<Rightarrow> byte list \<Rightarrow> rat \<Rightarrow> tsbuf \<Rightarrow> (bool \<times> tsbuf) result" where
  "writeFrames nframes data ts s =
     (let write_size = nframes * m_event_size s * m_events_per_frame s
      in if m_transparent s
         then bind_result
                (if m_buffer_tail_timestamp s < TIMESTAMP_MAX \<and> m_buffer_next_tail_timestamp s < TIMESTAMP_MAX
                 then bind_result (incrementFrameCounter nframes ts s) (\<lambda>s1.
                      Inr (decrementFrameCounter nframes s1))
                 else Inr s) (\<lambda>s2.
              Inr (True, setBufferTailTimestamp ts s2))
         else with_buffer s (\<lambda>rb.
              bind_result (ffado_ringbuffer_write rb data (ucast write_size)) (\<lambda>(n, rb').
              let s1 = s\<lparr>m_event_buffer := Some rb'\<rparr>
              in if n < ucast write_size then Inr (False, s1)
                 else bind_result (incrementFrameCounter nframes ts s1) (\<lambda>s2. Inr (True, s2)))))"

definition preloadFrames :: "u32 \<Rightarrow> byte list \<Rightarrow> bool \<Rightarrow> tsbuf \<Rightarrow> (bool \<times> tsbuf) result" where
  "preloadFrames nframes data keep_head_ts s =
     (let write_size = nframes * m_event_size s * m_events_per_frame s
      in with_buffer s (\<lambda>rb.
         bind_result (ffado_ringbuffer_write rb data (ucast write_size)) (\<lambda>(n, rb').
         let s1 = s\<lparr>m_event_buffer := Some rb'\<rparr>
         in if n < ucast write_size then Inr (False, s1)
            else let (ts, fc) = (if keep_head_ts then getBufferHeadTimestamp s1 else getBufferTailTimestamp s1);
                     s2 = s1\<lparr>m_framecounter := m_framecounter s1 + nframes\<rparr>
                 in Inr (True, if keep_head_ts then setBufferHeadTimestamp ts s2
                               else setBufferTailTimestamp ts s2))))"

definition dropFrames :: "u32 \<Rightarrow> tsbuf \<Rightarrow> (bool \<times> tsbuf) result" where
  "dropFrames nframes s =
     (let read_size = nframes * m_event_size s * m_events_per_frame s
      in with_buffer s (\<lambda>rb.
         Inr (True, decrementFrameCounter nframes
                      (s\<lparr>m_event_buffer := Some (ffado_ringbuffer_read_advance rb (ucast read_size))\<rparr>))))"

text \<open>The data that \<open>readFrames\<close> copies out, an empty list when it copies nothing.\<close>

definition readFrames :: "u32 \<Rightarrow> tsbuf \<Rightarrow> (bool \<times> byte list \<times> tsbuf) result" where
  "readFrames nframes s =
     (let read_size = nframes * m_event_size s * m_events_per_frame s
      in if m_transparent s then Inr (True, [], s)
         else with_buffer s (\<lambda>rb.
              bind_result (ffado_ringbuffer_read rb (ucast read_size)) (\<lambda>(n, data, rb').
              let s1 = s\<lparr>m_event_buffer := Some rb'\<rparr>
              in if n < ucast read_size then Inr (False, data, s1)
                 else Inr (True, data, decrementFrameCounter nframes s1))))"

section \<open>Block processing\<close>

text \<open>
  One round of the loop of \<open>blockProcessWriteFrames\<close> and of \<open>blockProcessReadFrames\<close>, and the loops.
  A round either returns from the method or goes on with the bytes still to do. The segments are
  \<open>vec\<close>, which the ring buffer fills anew in every round. A callback returns a \<open>bool\<close> that the code
  keeps in an \<open>int\<close> and compares with zero.
\<close>

datatype 'c round =
    Return bool tsbuf 'c
  | Again u32 tsbuf 'c

abbreviation no_vec :: "ringbuffer_data \<times> ringbuffer_data" where
  "no_vec \<equiv> (\<lparr>rd_buf = 0, rd_len = 0\<rparr>, \<lparr>rd_buf = 0, rd_len = 0\<rparr>)"

definition next_round :: "u32 \<Rightarrow> tsbuf \<Rightarrow> 'c \<Rightarrow> 'c round result" where
  "next_round bytes s c =
     (if m_process_block_size s = 0 then Inl DivByZero
      else assert_result (bytes mod m_process_block_size s = 0) (Inr (Again bytes s c)))"

definition with_process_buffer :: "tsbuf \<Rightarrow> (byte list \<Rightarrow> 'a result) \<Rightarrow> 'a result" where
  "with_process_buffer s f = (case m_process_buffer s of None \<Rightarrow> Inl NullPointer | Some d \<Rightarrow> f d)"

text \<open>The frames to do in place: all of them, or the whole blocks that the first segment holds.\<close>

definition in_place_bytes :: "tsbuf \<Rightarrow> u32 \<Rightarrow> u64 \<Rightarrow> u32 result" where
  "in_place_bytes s bytes len =
     (if len < ucast bytes
      then if m_process_block_size s = 0 then Inl DivByZero
           else Inr (ucast (len - len mod ucast (m_process_block_size s)))
      else Inr bytes)"

definition write_round :: "'c tsb_client \<Rightarrow> u32 \<Rightarrow> u32 \<Rightarrow> tsbuf \<Rightarrow> 'c \<Rightarrow> 'c round result" where
  "write_round cl nbframes bytes2write s c =
     (if m_cluster_size s = 0 then Inl DivByZero
      else let offset = (nbframes * m_cluster_size s - bytes2write) div m_cluster_size s
           in with_buffer s (\<lambda>rb.
      let (v0, v1) = ffado_ringbuffer_get_write_vector rb no_vec
      in if rd_len v0 + rd_len v1 < ucast (m_process_block_size s) then Inr (Return False s c)
         else if rd_len v0 < ucast (m_process_block_size s)
         then with_process_buffer s (\<lambda>d.
              let (ok, d', c') = processWriteBlock cl c d FRAMES_PER_PROCESS_BLOCK offset;
                  xrun = of_bool ok :: int;
                  s1 = s\<lparr>m_process_buffer := Some d'\<rparr>
              in if xrun < 0 then Inr (Return False s1 c')
                 else bind_result (ffado_ringbuffer_write rb d' (ucast (m_process_block_size s))) (\<lambda>(n, rb').
                      next_round (bytes2write - m_process_block_size s) (s1\<lparr>m_event_buffer := Some rb'\<rparr>) c'))
         else bind_result (in_place_bytes s bytes2write (rd_len v0)) (\<lambda>byteswritten.
              bind_result (mem_read (rb_buf rb) (unat (rd_buf v0)) (unat byteswritten)) (\<lambda>d.
              let (ok, d', c') = processWriteBlock cl c d (byteswritten div m_cluster_size s) offset;
                  xrun = of_bool ok :: int
              in bind_result (mem_write (rb_buf rb) (unat (rd_buf v0)) d') (\<lambda>buf'.
                 let rb1 = rb\<lparr>rb_buf := buf'\<rparr>
                 in if xrun < 0 then Inr (Return False (s\<lparr>m_event_buffer := Some rb1\<rparr>) c')
                    else next_round (bytes2write - byteswritten)
                           (s\<lparr>m_event_buffer := Some (ffado_ringbuffer_write_advance rb1 (scast byteswritten))\<rparr>)
                           c')))))"

definition read_round :: "'c tsb_client \<Rightarrow> u32 \<Rightarrow> u32 \<Rightarrow> tsbuf \<Rightarrow> 'c \<Rightarrow> 'c round result" where
  "read_round cl nbframes bytes2read s c =
     (if m_cluster_size s = 0 then Inl DivByZero
      else let offset = (nbframes * m_cluster_size s - bytes2read) div m_cluster_size s
           in with_buffer s (\<lambda>rb.
      let (v0, v1) = ffado_ringbuffer_get_read_vector rb no_vec
      in if rd_len v0 + rd_len v1 < ucast (m_process_block_size s) then Inr (Return False s c)
         else if rd_len v0 < ucast (m_process_block_size s)
         then with_process_buffer s (\<lambda>d0.
              bind_result (ffado_ringbuffer_read rb (ucast (m_process_block_size s))) (\<lambda>(n, data, rb').
              bind_result (mem_write d0 0 data) (\<lambda>d.
              let (ok, c') = processReadBlock cl c d FRAMES_PER_PROCESS_BLOCK offset;
                  xrun = of_bool ok :: int;
                  s1 = s\<lparr>m_process_buffer := Some d, m_event_buffer := Some rb'\<rparr>
              in if xrun < 0 then Inr (Return False s1 c')
                 else next_round (bytes2read - m_process_block_size s) s1 c')))
         else bind_result (in_place_bytes s bytes2read (rd_len v0)) (\<lambda>bytesread.
              bind_result (mem_read (rb_buf rb) (unat (rd_buf v0)) (unat bytesread)) (\<lambda>d.
              let (ok, c') = processReadBlock cl c d (bytesread div m_cluster_size s) offset;
                  xrun = of_bool ok :: int
              in if xrun < 0 then Inr (Return False s c')
                 else next_round (bytes2read - bytesread)
                        (s\<lparr>m_event_buffer := Some (ffado_ringbuffer_read_advance rb (scast bytesread))\<rparr>) c'))))"

text \<open>The loop itself: \<open>None\<close> stands for never returning.\<close>

partial_function (option) block_loop ::
  "(u32 \<Rightarrow> tsbuf \<Rightarrow> 'c \<Rightarrow> 'c round result) \<Rightarrow> u32 \<Rightarrow> tsbuf \<Rightarrow> 'c \<Rightarrow> (bool \<times> tsbuf \<times> 'c) result option" where
  "block_loop rnd bytes s c =
     (if bytes = 0 then Some (Inr (True, s, c))
      else case rnd bytes s c of
        Inl e \<Rightarrow> Some (Inl e)
      | Inr r \<Rightarrow> (case r of Return b s' c' \<Rightarrow> Some (Inr (b, s', c'))
                           | Again bytes' s' c' \<Rightarrow> block_loop rnd bytes' s' c'))"

declare block_loop.simps [code]

definition blockProcessWriteFrames ::
  "'c tsb_client \<Rightarrow> u32 \<Rightarrow> rat \<Rightarrow> tsbuf \<Rightarrow> 'c \<Rightarrow> (bool \<times> tsbuf \<times> 'c) result option" where
  "blockProcessWriteFrames cl nbframes ts s c =
     map_option (\<lambda>r. bind_result r (\<lambda>(ok, s1, c1).
         if \<not> ok then Inr (False, s1, c1)
         else bind_result (incrementFrameCounter nbframes ts s1) (\<lambda>s2. Inr (True, s2, c1))))
       (block_loop (write_round cl nbframes) (nbframes * m_events_per_frame s * m_event_size s) s c)"

definition blockProcessReadFrames ::
  "'c tsb_client \<Rightarrow> u32 \<Rightarrow> tsbuf \<Rightarrow> 'c \<Rightarrow> (bool \<times> tsbuf \<times> 'c) result option" where
  "blockProcessReadFrames cl nbframes s c =
     map_option (\<lambda>r. bind_result r (\<lambda>(ok, s1, c1).
         if \<not> ok then Inr (False, s1, c1)
         else Inr (True, decrementFrameCounter nbframes s1, c1)))
       (block_loop (read_round cl nbframes) (nbframes * m_events_per_frame s * m_event_size s) s c)"

end
