(* ===== verification/Timestamps.thy ===== *)
theory Timestamps
  imports TimestampedBuffer
begin

text \<open>
  The timestamps of the buffer. Timestamps in ticks that are multiples of \<open>2 powi - 20\<close> below \<open>2 ^ 33\<close>
  are \<open>double\<close> values on which addition and subtraction do not round, and so is the \<open>float\<close> product of
  a rate and a frame count as soon as it is not tiny. On these the head timestamp that was set is
  the one that is read back, the delay-locked loop stays locked when it is fed what it predicts,
  and the error it computes is the distance on the circle of timestamps, up to a sign that is wrong
  in one of the two cases of wrap-around.
\<close>

section \<open>Timestamps that do not round\<close>

definition ts_ok :: "tsbuf \<Rightarrow> rat \<Rightarrow> bool" where
  "ts_ok s ts \<longleftrightarrow> on_grid (- 20) ts \<and> 0 \<le> ts \<and> ts < m_wrap_at s"

definition wrap_ok :: "tsbuf \<Rightarrow> bool" where
  "wrap_ok s \<longleftrightarrow> on_grid (- 20) (m_wrap_at s) \<and> on_grid (- 20) (m_wrap_at s / 2) \<and>
     0 < m_wrap_at s \<and> m_wrap_at s \<le> 2 ^ 32"

lemma rd_sum_exact:
  assumes "on_grid (- 20) x" "on_grid (- 20) y" "\<bar>x\<bar> < 2 ^ 32" "\<bar>y\<bar> \<le> 2 ^ 32"
  shows "rd (x + y) = x + y" "rd (x - y) = x - y"
proof -
  have "\<bar>x + y\<bar> < 2 ^ 33" "\<bar>x - y\<bar> < 2 ^ 33" using assms(3,4) by auto
  then show "rd (x + y) = x + y" "rd (x - y) = x - y"
    using assms(1,2) by (simp_all add: rd_grid_exact on_grid_add on_grid_diff)
qed

lemma wrap_ts_exact:
  assumes "wrap_ok s" "on_grid (- 20) x" "- m_wrap_at s \<le> x" "x < 2 * m_wrap_at s"
  shows "wrap_ts s x = (if m_wrap_at s \<le> x then x - m_wrap_at s else if x < 0 then x + m_wrap_at s else x)"
proof -
  have w: "on_grid (- 20) (m_wrap_at s)" "0 < m_wrap_at s" "m_wrap_at s \<le> 2 ^ 32"
    using assms(1) by (simp_all add: wrap_ok_def)
  have "\<bar>x - m_wrap_at s\<bar> < 2 ^ 33" if "m_wrap_at s \<le> x" using that w assms(4) by auto
  moreover have "\<bar>x + m_wrap_at s\<bar> < 2 ^ 33" if "x < 0" using that w assms(3) by auto
  ultimately show ?thesis
    using w(1) assms(2) by (simp add: wrap_ts_def rd_grid_exact on_grid_add on_grid_diff)
qed

lemma wrap_ts_range:
  assumes "wrap_ok s" "on_grid (- 20) x" "- m_wrap_at s \<le> x" "x < 2 * m_wrap_at s"
  shows "ts_ok s (wrap_ts s x)"
  using assms unfolding wrap_ts_exact [OF assms] ts_ok_def
  by (auto simp: wrap_ok_def on_grid_add on_grid_diff)

text \<open>The time that the buffered frames take.\<close>

definition buffered_time :: "tsbuf \<Rightarrow> rat" where
  "buffered_time s = rf (m_current_rate s * i2f (m_framecounter s))"

lemma set_tail_fields [simp]:
  "m_framecounter (set_tail ts s) = m_framecounter s" "m_current_rate (set_tail ts s) = m_current_rate s"
  "m_wrap_at (set_tail ts s) = m_wrap_at s" "m_buffer_tail_timestamp (set_tail ts s) = ts"
  by (simp_all add: set_tail_def Let_def)

lemma wrap_ts_set_tail [simp]: "wrap_ts (set_tail ts s) x = wrap_ts s x"
  by (simp add: wrap_ts_def)

text \<open>A buffer at 48 kHz, 512 ticks per frame, with periods of 8 frames.\<close>

definition sample_ts :: tsbuf where
  "sample_ts = TimestampedBuffer\<lparr>m_wrap_at := 3145728000, m_nominal_rate := 512, m_current_rate := 512,
     m_update_period := 8, m_framecounter := 100, m_buffer_tail_timestamp := 3145720000,
     m_buffer_next_tail_timestamp := 3145724096, m_dll_e2 := 4096\<rparr>"

lemma on_grid_numeral [simp]: "on_grid (- 20) (numeral n)"
  using on_grid_of_int [of "- 20" "numeral n"] by simp

lemma rf_numeral [simp]: "numeral n < (16777216 :: int) \<Longrightarrow> rf (numeral n) = numeral n"
  using rf_of_int [of "numeral n"] by simp

lemma sample_ts_ok:
  "wrap_ok sample_ts" "i2f (m_framecounter sample_ts) = 100" "buffered_time sample_ts = 51200"
  by (simp_all add: wrap_ok_def sample_ts_def TimestampedBuffer_def buffered_time_def i2f_def)

section \<open>The delay-locked loop\<close>

text \<open>The distance from \<open>b\<close> to \<open>a\<close> on a circle of circumference \<open>w\<close>, between \<open>- w / 2\<close> and \<open>w / 2\<close>.\<close>

definition circle_diff :: "rat \<Rightarrow> rat \<Rightarrow> rat \<Rightarrow> rat" where
  "circle_diff w a b =
     (if w / 2 < a - b then a - b - w else if a - b < - w / 2 then a - b + w else a - b)"

lemma rd_half_wrap:
  assumes "wrap_ok s"
  shows "rd (m_wrap_at s / 2) = m_wrap_at s / 2" "rd (- (m_wrap_at s / 2)) = - (m_wrap_at s / 2)"
proof -
  have w: "on_grid (- 20) (m_wrap_at s / 2)" "0 < m_wrap_at s" "m_wrap_at s \<le> 2 ^ 32"
    using assms by (simp_all add: wrap_ok_def)
  show "rd (m_wrap_at s / 2) = m_wrap_at s / 2" using w by (intro rd_grid_exact) auto
  show "rd (- (m_wrap_at s / 2)) = - (m_wrap_at s / 2)"
    using w on_grid_diff [OF on_grid_0 w(1)] by (intro rd_grid_exact) auto
qed

lemma u2d_pos: "0 < unat n \<Longrightarrow> 0 < u2d n"
  unfolding u2d_def by (simp only: of_nat_0_less_iff)

lemma u2f_small: "unat n < 2 ^ 24 \<Longrightarrow> u2f n = u2d n"
  using rf_of_int [of "int (unat n)"] unfolding u2f_def u2d_def
  by (simp only: of_int_of_nat_eq abs_of_nat of_nat_less_numeral_power_cancel_iff)

text \<open>A loop in lock: the update step is a period at the nominal rate, which is a \<open>float\<close> on the grid,
  and the prediction is in range.\<close>

definition dll_locked :: "tsbuf \<Rightarrow> bool" where
  "dll_locked s \<longleftrightarrow>
     wrap_ok s \<and> ts_ok s (m_buffer_next_tail_timestamp s) \<and> on_grid (- 20) (m_dll_e2 s) \<and>
     m_current_rate s = m_nominal_rate s \<and> rf (m_nominal_rate s) = m_nominal_rate s \<and> 0 < m_nominal_rate s \<and>
     0 < unat (m_update_period s) \<and> unat (m_update_period s) < 2 ^ 24 \<and>
     m_dll_e2 s = u2d (m_update_period s) * m_nominal_rate s \<and>
     rf (m_dll_e2 s) = m_dll_e2 s \<and> m_dll_e2 s < m_wrap_at s / 2"

lemma dll_error_predicted:
  assumes "wrap_ok s"
  shows "dll_error s (m_buffer_next_tail_timestamp s) = 0"
  using assms rd_half_wrap [OF assms] by (simp add: dll_error_def Let_def wrap_ok_def)

lemma calculateRate_locked:
  assumes "wrap_ok s" "0 < m_nominal_rate s" "rf (m_nominal_rate s) = m_nominal_rate s"
    "0 < unat (m_update_period s)" "unat (m_update_period s) < 2 ^ 24"
    "e = u2d (m_update_period s) * m_nominal_rate s" "rf e = e" "e < m_wrap_at s / 2"
    "ts_ok s tail" "on_grid (- 20) e" "m_buffer_tail_timestamp s = tail"
    "m_buffer_next_tail_timestamp s = (if m_wrap_at s \<le> tail + e then tail + e - m_wrap_at s else tail + e)"
  shows "calculateRate s = Inr (m_nominal_rate s)"
proof -
  let ?w = "m_wrap_at s" and ?n = "m_buffer_next_tail_timestamp s"
  have w: "on_grid (- 20) ?w" "0 < ?w" "?w \<le> 2 ^ 32" using assms(1) by (simp_all add: wrap_ok_def)
  have t: "on_grid (- 20) tail" "0 \<le> tail" "tail < ?w" using assms(9) by (simp_all add: ts_ok_def)
  have e0: "0 < e" using assms(2,6) u2d_pos [OF assms(4)] by simp
  have n: "on_grid (- 20) ?n" "0 \<le> ?n" "?n < ?w"
    using t w e0 assms(8,10,12) by (auto simp: on_grid_add on_grid_diff)
  have d: "rd (?n - tail) = ?n - tail" using n t w by (intro rd_sum_exact) auto
  note u = u2f_small [OF assms(5)]
  have "(if ?w / 2 < ?n - tail then rd (?n - tail - ?w)
         else if ?n - tail < - (?w / 2) then rd (?n - tail + ?w) else ?n - tail) = e"
  proof (cases "?w \<le> tail + e")
    case True
    then have "?n - tail = e - ?w" using assms(12) by simp
    then show ?thesis
      using w(2) e0 assms(8) rd_grid_exact [OF assms(10)] w(3) by auto
  next
    case False
    then have "?n - tail = e" using assms(12) by simp
    then show ?thesis using w(2) e0 assms(8) by auto
  qed
  moreover have "rf (e / u2d (m_update_period s)) = m_nominal_rate s"
    using assms(3,6) u2d_pos [OF assms(4)] by simp
  moreover have "0 \<le> rd (m_nominal_rate s * rd (1 / 10))"
    using rd_mono [of 0 "1 / 10"] rd_mono [of 0 "m_nominal_rate s * rd (1 / 10)"] assms(2) by simp
  ultimately show ?thesis
    using assms(4,7,11) d u
    by (simp add: calculateRate_def Let_def rd_half_wrap [OF assms(1)] unat_gt_0 [symmetric])
qed

section \<open>Properties\<close>

text \<open>C23. After the head timestamp has been set it is what is read back, together with the frame
  counter, whatever the buffer held and whether or not the timestamps wrap around in between.\<close>

theorem head_timestamp_roundtrip:
  assumes "wrap_ok s" "ts_ok s ts" "8 \<le> m_current_rate s * i2f (m_framecounter s) \<or> m_framecounter s = 0"
    "buffered_time s \<le> m_wrap_at s"
  shows "getBufferHeadTimestamp (setBufferHeadTimestamp ts s) = (ts, m_framecounter s) \<and>
         ts_ok s (m_buffer_tail_timestamp (setBufferHeadTimestamp ts s))"
proof -
  let ?p = "buffered_time s" and ?w = "m_wrap_at s"
  have w: "on_grid (- 20) ?w" "0 < ?w" "?w \<le> 2 ^ 32" using assms(1) by (simp_all add: wrap_ok_def)
  have t: "on_grid (- 20) ts" "0 \<le> ts" "ts < ?w" using assms(2) by (simp_all add: ts_ok_def)
  have z: "m_current_rate s * i2f (m_framecounter s) = 0" if "m_framecounter s = 0"
    using that by (simp add: i2f_def)
  have pg: "on_grid (- 20) ?p" unfolding buffered_time_def using assms(3) z by (intro rf_on_grid) fastforce
  have p0: "0 \<le> ?p" unfolding buffered_time_def using assms(3) z rf_mono [of 0] by fastforce
  have sum: "rd (ts + ?p) = ts + ?p" using t w p0 pg assms(4) by (intro rd_sum_exact) auto
  define tail where "tail = wrap_ts s (ts + ?p)"
  have tw: "tail = (if ?w \<le> ts + ?p then ts + ?p - ?w else ts + ?p)"
    unfolding tail_def using t w p0 pg assms(1,4) by (subst wrap_ts_exact) (auto simp: on_grid_add)
  have tk: "ts_ok s tail" unfolding tail_def
    using t w p0 pg assms(1,4) by (intro wrap_ts_range) (auto simp: on_grid_add)
  have st: "setBufferHeadTimestamp ts s = set_tail tail s"
    by (simp add: setBufferHeadTimestamp_def buffered_time_def [symmetric] sum tail_def)
  have "rd (tail - ?p) = tail - ?p" using tk w p0 pg assms(4) by (intro rd_sum_exact) (auto simp: ts_ok_def)
  moreover have "wrap_ts s (tail - ?p) = ts"
    using tk t w p0 pg assms(1,4) by (subst wrap_ts_exact) (auto simp: ts_ok_def on_grid_diff tw)
  ultimately show ?thesis
    using tk by (simp add: st getBufferHeadTimestamp_def getTimestampFromTail_def mult.commute
        buffered_time_def [symmetric])
qed

theorem head_timestamp_roundtrip_witness:
  "getBufferHeadTimestamp (setBufferHeadTimestamp 3145720000 sample_ts) = (3145720000, 100)"
  using head_timestamp_roundtrip [of sample_ts 3145720000] sample_ts_ok
  by (simp add: ts_ok_def) (simp add: sample_ts_def TimestampedBuffer_def)

text \<open>C24. When the timestamp that comes with a period is the predicted one, a locked loop stays
  locked: the predicted time becomes the time of the last frame, the prediction moves on by one
  period at the nominal rate on the circle of timestamps, and the rate remains the nominal one.\<close>

theorem dll_stays_locked:
  assumes "dll_locked s"
  shows "\<exists>s'. incrementFrameCounter (m_update_period s) (m_buffer_next_tail_timestamp s) s = Inr s' \<and>
           dll_locked s' \<and> m_current_rate s' = m_nominal_rate s \<and>
           m_framecounter s' = m_framecounter s + m_update_period s \<and>
           m_buffer_tail_timestamp s' = m_buffer_next_tail_timestamp s \<and>
           m_buffer_next_tail_timestamp s' =
             (let t = m_buffer_next_tail_timestamp s + m_dll_e2 s
              in if m_wrap_at s \<le> t then t - m_wrap_at s else t)"
proof -
  let ?t = "m_buffer_next_tail_timestamp s" and ?e = "m_dll_e2 s" and ?w = "m_wrap_at s"
  note L = assms [unfolded dll_locked_def]
  have w: "on_grid (- 20) ?w" "0 < ?w" "?w \<le> 2 ^ 32" using L by (simp_all add: wrap_ok_def)
  have t: "on_grid (- 20) ?t" "0 \<le> ?t" "?t < ?w" using L by (simp_all add: ts_ok_def)
  have e: "on_grid (- 20) ?e" "0 < ?e" "?e < ?w / 2" using L u2d_pos [of "m_update_period s"] by auto
  have re: "rd ?e = ?e" using e w by (intro rd_grid_exact) auto
  have rs: "rd (?t + ?e) = ?t + ?e" using t e w by (intro rd_sum_exact) auto
  have rw: "rd (?t + ?e - ?w) = ?t + ?e - ?w" using t e w
    by (intro rd_grid_exact) (auto simp: on_grid_add on_grid_diff)
  define n where "n = (if ?w \<le> ?t + ?e then ?t + ?e - ?w else ?t + ?e)"
  define s1 where "s1 = s\<lparr>m_framecounter := m_framecounter s + m_update_period s,
      m_buffer_tail_timestamp := ?t, m_buffer_next_tail_timestamp := n\<rparr>"
  have s1: "s\<lparr>m_framecounter := m_framecounter s + m_update_period s, m_buffer_tail_timestamp := ?t,
      m_buffer_next_tail_timestamp := n, m_dll_e2 := ?e\<rparr> = s1" by (simp add: s1_def)
  have s1_f: "m_nominal_rate s1 = m_nominal_rate s" "m_wrap_at s1 = ?w" by (simp_all add: s1_def)
  have c: "calculateRate s1 = Inr (m_nominal_rate s)"
  proof (rule calculateRate_locked [of s1 ?e ?t, unfolded s1_f])
    show "m_buffer_next_tail_timestamp s1 = (if ?w \<le> ?t + ?e then ?t + ?e - ?w else ?t + ?e)"
      by (simp add: s1_def n_def)
  qed (use L in \<open>auto simp: s1_def wrap_ok_def ts_ok_def\<close>)
  have "incrementFrameCounter (m_update_period s) ?t s = Inr (s1\<lparr>m_current_rate := m_nominal_rate s\<rparr>)"
    unfolding incrementFrameCounter_def dll_error_predicted [OF conjunct1 [OF L]] Let_def mult_zero_right
      rd_0 add_0 add_0_right re rs rw n_def [symmetric] s1
    using t(2,3) c by simp
  moreover have "dll_locked (s1\<lparr>m_current_rate := m_nominal_rate s\<rparr>)"
    using L t e w by (auto simp: dll_locked_def s1_def n_def wrap_ok_def ts_ok_def on_grid_add on_grid_diff)
  ultimately show ?thesis by (auto simp: s1_def n_def Let_def)
qed

theorem dll_stays_locked_witness:
  "\<exists>s'. incrementFrameCounter 8 3145724096 sample_ts = Inr s' \<and> m_current_rate s' = 512 \<and>
     m_buffer_next_tail_timestamp s' = 192"
proof -
  have "dll_locked sample_ts"
    using sample_ts_ok(1)
    by (simp add: dll_locked_def ts_ok_def wrap_ok_def) (simp add: sample_ts_def TimestampedBuffer_def u2d_def)
  then show ?thesis
    using dll_stays_locked [of sample_ts] by (auto simp: sample_ts_def Let_def)
qed

text \<open>C28. The error that drives the loop is the distance of the timestamp from its prediction on the
  circle of timestamps, except when the timestamp is ahead by more than half the circle, that is
  when the prediction has wrapped around and the timestamp has not: then it has the opposite sign
  and the correction pushes the loop the wrong way.\<close>

theorem dll_error_value:
  assumes "wrap_ok s" "ts_ok s ts" "ts_ok s (m_buffer_next_tail_timestamp s)"
  shows "dll_error s ts =
           (if m_wrap_at s / 2 < ts - m_buffer_next_tail_timestamp s
            then - circle_diff (m_wrap_at s) ts (m_buffer_next_tail_timestamp s)
            else circle_diff (m_wrap_at s) ts (m_buffer_next_tail_timestamp s))"
proof -
  let ?n = "m_buffer_next_tail_timestamp s" and ?w = "m_wrap_at s"
  have w: "on_grid (- 20) ?w" "0 < ?w" "?w \<le> 2 ^ 32" using assms(1) by (simp_all add: wrap_ok_def)
  have t: "on_grid (- 20) ts" "0 \<le> ts" "ts < ?w" "on_grid (- 20) ?n" "0 \<le> ?n" "?n < ?w"
    using assms(2,3) by (simp_all add: ts_ok_def)
  have d: "rd (ts - ?n) = ts - ?n" using t w by (intro rd_sum_exact) auto
  have "rd (?w - (ts - ?n)) = ?w - (ts - ?n)" "rd (?w + (ts - ?n)) = ?w + (ts - ?n)"
    using t w by (auto intro!: rd_grid_exact on_grid_add on_grid_diff)
  then show ?thesis
    using w(2) by (auto simp: dll_error_def d rd_half_wrap [OF assms(1)] circle_diff_def Let_def)
qed

theorem dll_error_value_witness:
  "dll_error (sample_ts\<lparr>m_buffer_next_tail_timestamp := 100\<rparr>) 3145727900 = 200"
  using dll_error_value [of "sample_ts\<lparr>m_buffer_next_tail_timestamp := 100\<rparr>" 3145727900] sample_ts_ok(1)
  by (simp add: ts_ok_def wrap_ok_def) (simp add: sample_ts_def TimestampedBuffer_def circle_diff_def)

end
