(* ===== verification/Ports.thy ===== *)
theory Ports
  imports FFADO_Prelude
begin

text \<open>
  Ports and the port manager, \<open>libstreaming/generic/Port.cpp\<close> and
  \<open>libstreaming/generic/PortManager.cpp\<close>. A port is the point where a client's period buffer
  meets a stream. The manager keeps the ports of a stream processor by reference, so the model
  has an explicit store: \<open>m_Ports\<close> is the list of the addresses, \<open>port_at\<close> the objects. The memory
  a port's buffer address points to is held with the port, as a list of quadlets, and \<open>None\<close> is
  the null address. The update handlers are functors of other components: a handler is a name,
  and \<open>handler_log\<close> lists the calls.
\<close>

section \<open>Ports\<close>

datatype E_PortType = E_Audio | E_Midi | E_Control

datatype E_Direction = E_Playback | E_Capture

datatype E_PortState = E_Created | E_Initialized | E_Running | E_Error

record port =
  m_Name :: string
  m_disabled :: bool
  m_buffersize :: u32
  m_PortType :: E_PortType
  m_Direction :: E_Direction
  m_buffer :: "u32 list option"
  m_State :: E_PortState

definition Port_new :: "string \<Rightarrow> E_PortType \<Rightarrow> E_Direction \<Rightarrow> port" where
  "Port_new nm porttype direction =
    \<lparr>m_Name = nm, m_disabled = True, m_buffersize = 0, m_PortType = porttype,
     m_Direction = direction, m_buffer = None, m_State = E_Created\<rparr>"

definition Port_init :: "port \<Rightarrow> bool \<times> port" where
  "Port_init p =
    (if m_State p \<noteq> E_Created then (False, p)
     else if m_buffersize p = 0 then (False, p)
     else (True, p\<lparr>m_State := E_Initialized\<rparr>))"

definition Port_prepare :: "port \<Rightarrow> bool \<times> port" where
  "Port_prepare p = (True, p)"

definition Port_reset :: "port \<Rightarrow> bool \<times> port" where
  "Port_reset p = (True, p)"

definition Port_setName :: "string \<Rightarrow> port \<Rightarrow> bool \<times> port" where
  "Port_setName nm p =
    (if m_State p \<noteq> E_Created then (False, p) else (True, p\<lparr>m_Name := nm\<rparr>))"

definition Port_setBufferSize :: "u32 \<Rightarrow> port \<Rightarrow> bool \<times> port" where
  "Port_setBufferSize newsize p =
    (if m_State p \<noteq> E_Created \<and> \<not> m_disabled p then (False, p)
     else (True, p\<lparr>m_buffersize := newsize\<rparr>))"

definition Port_getEventSize :: "port \<Rightarrow> u32" where
  "Port_getEventSize p = 4"

definition Port_getBufferAddress :: "port \<Rightarrow> u32 list option" where
  "Port_getBufferAddress p = m_buffer p"

definition Port_setBufferAddress :: "u32 list option \<Rightarrow> port \<Rightarrow> port" where
  "Port_setBufferAddress buff p = p\<lparr>m_buffer := buff\<rparr>"

definition Port_enable :: "port \<Rightarrow> port" where
  "Port_enable p = p\<lparr>m_disabled := False\<rparr>"

definition Port_disable :: "port \<Rightarrow> port" where
  "Port_disable p = p\<lparr>m_disabled := True\<rparr>"

definition Port_getPortTypeName :: "port \<Rightarrow> string" where
  "Port_getPortTypeName p =
    (case m_PortType p of E_Audio \<Rightarrow> ''Audio'' | E_Midi \<Rightarrow> ''MIDI'' | E_Control \<Rightarrow> ''Control'')"

section \<open>The port manager\<close>

record portmanager =
  m_Ports :: "nat list"
  port_at :: "nat \<Rightarrow> port"
  m_UpdateHandlers :: "nat list"
  handler_log :: "nat list"

definition set_port :: "nat \<Rightarrow> port \<Rightarrow> portmanager \<Rightarrow> portmanager" where
  "set_port a p pm = pm\<lparr>port_at := (port_at pm)(a := p)\<rparr>"

definition callUpdateHandlers :: "portmanager \<Rightarrow> portmanager" where
  "callUpdateHandlers pm = pm\<lparr>handler_log := handler_log pm @ m_UpdateHandlers pm\<rparr>"

text \<open>The decimal digits that an output stream prints for a non-negative \<open>int\<close>.\<close>

fun show_nat :: "nat \<Rightarrow> string" where
  "show_nat n =
    (if n < 10 then [char_of (48 + n)] else show_nat (n div 10) @ [char_of (48 + n mod 10)])"

declare show_nat.simps [simp del]

definition name_is_unique :: "portmanager \<Rightarrow> nat \<Rightarrow> bool" where
  "name_is_unique pm a = list_all (\<lambda>b. m_Name (port_at pm b) \<noteq> m_Name (port_at pm a)) (m_Ports pm)"

text \<open>The loop of \<open>makeNameUnique\<close>: it returns the index it stops at.\<close>

function unique_loop :: "nat \<Rightarrow> string \<Rightarrow> nat \<Rightarrow> portmanager \<Rightarrow> nat \<times> portmanager" where
  "unique_loop a orig idx pm =
    (if idx < 10000
     then if name_is_unique pm a then (idx, pm)
          else unique_loop a orig (Suc idx)
                 (set_port a (snd (Port_setName (orig @ show_nat idx) (port_at pm a))) pm)
     else (idx, pm))"
  by pat_completeness auto
termination by (relation "measure (\<lambda>(a, orig, idx, pm). 10000 - idx)") auto

declare unique_loop.simps [simp del]

definition makeNameUnique :: "nat \<Rightarrow> portmanager \<Rightarrow> bool \<times> portmanager" where
  "makeNameUnique a pm =
    (let (idx, pm') = unique_loop a (m_Name (port_at pm a)) 0 pm in (idx < 10000, pm'))"

definition registerPort :: "nat \<Rightarrow> portmanager \<Rightarrow> bool \<times> portmanager" where
  "registerPort a pm =
    (let (ok, pm') = makeNameUnique a pm
     in if ok then (True, callUpdateHandlers (pm'\<lparr>m_Ports := m_Ports pm' @ [a]\<rparr>))
        else (False, pm'))"

definition unregisterPort :: "nat \<Rightarrow> portmanager \<Rightarrow> bool \<times> portmanager" where
  "unregisterPort a pm =
    (if a \<in> set (m_Ports pm)
     then (True, callUpdateHandlers (pm\<lparr>m_Ports := remove1 a (m_Ports pm)\<rparr>))
     else (False, pm))"

text \<open>Deleting a port unregisters it, which is how the destructor's loop makes progress.\<close>

function delete_ports :: "portmanager \<Rightarrow> portmanager" where
  "delete_ports pm =
    (case m_Ports pm of [] \<Rightarrow> pm | a # as \<Rightarrow> delete_ports (snd (unregisterPort a pm)))"
  by pat_completeness auto
termination
  by (relation "measure (\<lambda>pm. length (m_Ports pm))")
    (auto simp: unregisterPort_def callUpdateHandlers_def)

declare delete_ports.simps [simp del]

definition getPortCountOfType :: "E_PortType \<Rightarrow> portmanager \<Rightarrow> nat" where
  "getPortCountOfType type pm =
    length (filter (\<lambda>a. m_PortType (port_at pm a) = type) (m_Ports pm))"

definition getPortCount :: "portmanager \<Rightarrow> nat" where
  "getPortCount pm = length (m_Ports pm)"

definition getPortAtIdx :: "nat \<Rightarrow> portmanager \<Rightarrow> nat result" where
  "getPortAtIdx index pm =
    (if index < length (m_Ports pm) then Inr (m_Ports pm ! index) else Inl OutOfBounds)"

text \<open>The shape of the loops that stop at the first port an operation refuses.\<close>

fun port_loop :: "(port \<Rightarrow> bool \<times> port) \<Rightarrow> nat list \<Rightarrow> portmanager \<Rightarrow> bool \<times> portmanager" where
  "port_loop f [] pm = (True, pm)"
| "port_loop f (a # as) pm =
    (let (ok, p) = f (port_at pm a); pm' = set_port a p pm
     in if ok then port_loop f as pm' else (False, pm'))"

definition resetPorts :: "portmanager \<Rightarrow> bool \<times> portmanager" where
  "resetPorts pm = port_loop Port_reset (m_Ports pm) pm"

definition initPorts :: "portmanager \<Rightarrow> bool \<times> portmanager" where
  "initPorts pm = port_loop Port_init (m_Ports pm) pm"

definition preparePorts :: "portmanager \<Rightarrow> bool \<times> portmanager" where
  "preparePorts pm = port_loop Port_prepare (m_Ports pm) pm"

definition addPortManagerUpdateHandler :: "nat \<Rightarrow> portmanager \<Rightarrow> bool \<times> portmanager" where
  "addPortManagerUpdateHandler functor pm =
    (True, pm\<lparr>m_UpdateHandlers := m_UpdateHandlers pm @ [functor]\<rparr>)"

definition remPortManagerUpdateHandler :: "nat \<Rightarrow> portmanager \<Rightarrow> bool \<times> portmanager" where
  "remPortManagerUpdateHandler functor pm =
    (if functor \<in> set (m_UpdateHandlers pm)
     then (True, pm\<lparr>m_UpdateHandlers := remove1 functor (m_UpdateHandlers pm)\<rparr>)
     else (False, pm))"

section \<open>Names\<close>

definition read_digit :: "char \<Rightarrow> nat" where
  "read_digit c = of_char c - 48"

definition read_nat :: "string \<Rightarrow> nat" where
  "read_nat s = foldl (\<lambda>n c. 10 * n + read_digit c) 0 s"

lemma read_digit_char [simp]: "n < 10 \<Longrightarrow> read_digit (char_of (48 + n)) = n"
  by (simp add: read_digit_def)

lemma read_show_nat [simp]: "read_nat (show_nat n) = n"
proof (induction n rule: show_nat.induct)
  case (1 n)
  show ?case
  proof (cases "n < 10")
    case True
    then show ?thesis by (simp add: show_nat.simps [of n] read_nat_def)
  next
    case False
    then have "foldl (\<lambda>n c. 10 * n + read_digit c) 0 (show_nat (n div 10)) = n div 10"
      using 1 by (simp add: read_nat_def)
    then show ?thesis using False by (simp add: show_nat.simps [of n] read_nat_def)
  qed
qed

lemma show_nat_inject [simp]: "show_nat m = show_nat n \<longleftrightarrow> m = n"
  by (metis read_show_nat)

lemma show_nat_not_Nil [simp]: "show_nat n \<noteq> []"
  by (simp add: show_nat.simps [of n])

text \<open>The names the loop tries in turn, and that they are pairwise different.\<close>

definition candidate :: "string \<Rightarrow> nat \<Rightarrow> string" where
  "candidate orig i = (if i = 0 then orig else orig @ show_nat (i - 1))"

lemma candidate_Suc [simp]: "candidate orig (Suc i) = orig @ show_nat i"
  by (simp add: candidate_def)

lemma inj_candidate: "inj (candidate orig)"
  by (rule injI) (auto simp: candidate_def split: if_splits)

definition taken_names :: "portmanager \<Rightarrow> string set" where
  "taken_names pm = (\<lambda>b. m_Name (port_at pm b)) ` set (m_Ports pm)"

text \<open>
  Registered ports have different addresses and different names.
\<close>

definition ports_inv :: "portmanager \<Rightarrow> bool" where
  "ports_inv pm \<longleftrightarrow>
    distinct (m_Ports pm) \<and> distinct (map (\<lambda>b. m_Name (port_at pm b)) (m_Ports pm))"

lemma name_is_unique_iff: "name_is_unique pm a \<longleftrightarrow> m_Name (port_at pm a) \<notin> taken_names pm"
  by (auto simp: name_is_unique_def taken_names_def list_all_iff image_iff)

lemma set_port_simps [simp]:
  "m_Ports (set_port a p pm) = m_Ports pm"
  "port_at (set_port a p pm) = (port_at pm)(a := p)"
  "m_UpdateHandlers (set_port a p pm) = m_UpdateHandlers pm"
  "handler_log (set_port a p pm) = handler_log pm"
  by (simp_all add: set_port_def)

lemma taken_names_set_port [simp]:
  "a \<notin> set (m_Ports pm) \<Longrightarrow> taken_names (set_port a p pm) = taken_names pm"
  by (auto simp: taken_names_def)

text \<open>
  What the loop does to a port that is not registered yet: it stops at the first free candidate,
  or at the limit, and touches nothing but the name of that port.
\<close>

definition only_renamed :: "nat \<Rightarrow> portmanager \<Rightarrow> portmanager \<Rightarrow> bool" where
  "only_renamed a pm pm' \<longleftrightarrow> (\<exists>nm. pm' = set_port a (port_at pm a\<lparr>m_Name := nm\<rparr>) pm)"

lemma rename_same: "m_Name (port_at pm a) = nm \<Longrightarrow> set_port a (port_at pm a\<lparr>m_Name := nm\<rparr>) pm = pm"
  by (auto simp: set_port_def)

lemma only_renamed_refl [intro]: "only_renamed a pm pm"
  unfolding only_renamed_def by (rule exI [of _ "m_Name (port_at pm a)"]) (simp add: rename_same)

lemma only_renamed_trans: "only_renamed a pm pm' \<Longrightarrow> only_renamed a pm' pm'' \<Longrightarrow> only_renamed a pm pm''"
  by (auto simp: only_renamed_def set_port_def)

lemma only_renamed_step: "only_renamed a pm (set_port a (snd (Port_setName nm (port_at pm a))) pm)"
proof (cases "m_State (port_at pm a) = E_Created")
  case True
  then show ?thesis unfolding only_renamed_def Port_setName_def by (intro exI [of _ nm]) simp
next
  case False
  then have "set_port a (snd (Port_setName nm (port_at pm a))) pm = pm"
    by (simp add: Port_setName_def set_port_def)
  then show ?thesis by (simp add: only_renamed_refl)
qed

lemma unique_loop_renames: "unique_loop a orig idx pm = (i, pm') \<Longrightarrow> only_renamed a pm pm'"
proof (induction a orig idx pm rule: unique_loop.induct)
  case (1 a orig idx pm)
  then show ?case
    by (subst (asm) unique_loop.simps)
      (auto split: if_splits intro: only_renamed_trans [OF only_renamed_step])
qed

lemma unique_loop_unique:
  "unique_loop a orig idx pm = (i, pm') \<Longrightarrow> i < 10000 \<Longrightarrow> name_is_unique pm' a"
proof (induction a orig idx pm rule: unique_loop.induct)
  case (1 a orig idx pm)
  then show ?case by (subst (asm) unique_loop.simps) (auto split: if_splits)
qed

lemma unique_loop_finds:
  assumes "a \<notin> set (m_Ports pm)" "m_State (port_at pm a) = E_Created"
    and "m_Name (port_at pm a) = candidate orig idx"
    and "idx \<le> k" "k < 10000" "candidate orig k \<notin> taken_names pm"
    and "\<forall>j. idx \<le> j \<and> j < k \<longrightarrow> candidate orig j \<in> taken_names pm"
  shows "unique_loop a orig idx pm
    = (k, set_port a (port_at pm a\<lparr>m_Name := candidate orig k\<rparr>) pm)"
  using assms
proof (induction "k - idx" arbitrary: idx pm)
  case 0
  then have "idx = k" by simp
  then show ?case
    using 0 by (subst unique_loop.simps) (simp add: name_is_unique_iff rename_same)
next
  case (Suc n)
  let ?pm = "set_port a (snd (Port_setName (orig @ show_nat idx) (port_at pm a))) pm"
  have less: "idx < k" using Suc.hyps(2) by simp
  then have not_unique: "\<not> name_is_unique pm a"
    using Suc.prems(3,7) by (auto simp: name_is_unique_iff)
  have pm: "?pm = set_port a (port_at pm a\<lparr>m_Name := candidate orig (Suc idx)\<rparr>) pm"
    using Suc.prems(2) by (simp add: Port_setName_def)
  have "unique_loop a orig (Suc idx) ?pm
      = (k, set_port a (port_at ?pm a\<lparr>m_Name := candidate orig k\<rparr>) ?pm)"
    by (rule Suc.hyps(1)) (use Suc.prems Suc.hyps(2) less in \<open>auto simp: pm\<close>)
  then show ?case
    using less Suc.prems(5) not_unique
    by (subst unique_loop.simps) (simp add: set_port_def Port_setName_def Suc.prems(2))
qed

lemma free_candidate_exists:
  assumes "length (m_Ports pm) < n"
  shows "\<exists>k<n. candidate orig k \<notin> taken_names pm"
proof (rule ccontr)
  assume "\<not> ?thesis"
  then have "candidate orig ` {..<n} \<subseteq> taken_names pm" by auto
  then have "card (candidate orig ` {..<n}) \<le> card (taken_names pm)"
    by (rule card_mono [rotated]) (simp add: taken_names_def)
  moreover have "card (candidate orig ` {..<n}) = n"
    by (subst card_image) (auto intro: inj_on_subset [OF inj_candidate])
  moreover have "card (taken_names pm) \<le> length (m_Ports pm)"
    unfolding taken_names_def by (metis card_image_le card_length le_trans List.finite_set)
  ultimately show False using assms by simp
qed

lemma least_free_candidate:
  assumes "length (m_Ports pm) < n"
  shows "\<exists>k<n. candidate orig k \<notin> taken_names pm
    \<and> (\<forall>j<k. candidate orig j \<in> taken_names pm)"
proof -
  let ?P = "\<lambda>k. candidate orig k \<notin> taken_names pm"
  obtain k where k: "k < n" "?P k" using free_candidate_exists [OF assms] by blast
  have "?P (LEAST k. ?P k)" by (rule LeastI) (rule k(2))
  moreover have "(LEAST k. ?P k) < n" using Least_le [of ?P, OF k(2)] k(1) by simp
  moreover have "\<forall>j<(LEAST k. ?P k). candidate orig j \<in> taken_names pm"
    using not_less_Least by blast
  ultimately show ?thesis by blast
qed

lemma ports_inv_append:
  assumes "ports_inv pm" "a \<notin> set (m_Ports pm)" "only_renamed a pm pm'" "name_is_unique pm' a"
  shows "ports_inv (pm'\<lparr>m_Ports := m_Ports pm' @ [a]\<rparr>)"
proof -
  obtain nm where pm': "pm' = set_port a (port_at pm a\<lparr>m_Name := nm\<rparr>) pm"
    using assms(3) by (auto simp: only_renamed_def)
  have same: "map (\<lambda>b. m_Name (port_at pm' b)) (m_Ports pm)
      = map (\<lambda>b. m_Name (port_at pm b)) (m_Ports pm)"
    using assms(2) by (auto simp: pm')
  show ?thesis
    using assms same
    by (auto simp: ports_inv_def name_is_unique_iff taken_names_def pm' simp flip: same)
qed

lemma ports_inv_callUpdateHandlers [simp]: "ports_inv (callUpdateHandlers pm) = ports_inv pm"
  by (simp add: callUpdateHandlers_def ports_inv_def)

text \<open>
  C35. The names of the registered ports stay pairwise different. Registering a port that is not
  registered yet, and unregistering one, keep the addresses and the names in the list distinct,
  whether or not the registration succeeds; a failed registration leaves the list as it was.
\<close>
theorem port_names_stay_distinct:
  assumes "ports_inv pm" "a \<notin> set (m_Ports pm)"
  shows "ports_inv (snd (registerPort a pm)) \<and> ports_inv (snd (unregisterPort b pm))
    \<and> (fst (registerPort a pm) \<longrightarrow> m_Ports (snd (registerPort a pm)) = m_Ports pm @ [a])
    \<and> (\<not> fst (registerPort a pm) \<longrightarrow> m_Ports (snd (registerPort a pm)) = m_Ports pm)"
proof -
  obtain i pm' where loop: "unique_loop a (m_Name (port_at pm a)) 0 pm = (i, pm')"
    by (cases "unique_loop a (m_Name (port_at pm a)) 0 pm")
  have renamed: "only_renamed a pm pm'" by (rule unique_loop_renames [OF loop])
  then have ports: "m_Ports pm' = m_Ports pm" by (auto simp: only_renamed_def)
  have inv': "ports_inv pm'"
    using assms renamed by (auto simp: only_renamed_def ports_inv_def distinct_map inj_on_def split: if_splits)
  have "ports_inv (snd (registerPort a pm))"
  proof (cases "i < 10000")
    case True
    then have "ports_inv (pm'\<lparr>m_Ports := m_Ports pm' @ [a]\<rparr>)"
      using assms renamed unique_loop_unique [OF loop] by (intro ports_inv_append)
    then show ?thesis using True by (simp add: registerPort_def makeNameUnique_def loop)
  next
    case False
    then show ?thesis using inv' by (simp add: registerPort_def makeNameUnique_def loop)
  qed
  moreover have "ports_inv (snd (unregisterPort b pm))"
    using assms(1)
    by (auto simp: unregisterPort_def ports_inv_def callUpdateHandlers_def distinct_map
        intro: inj_on_subset dest: notin_set_remove1)
  ultimately show ?thesis
    by (auto simp: registerPort_def makeNameUnique_def loop callUpdateHandlers_def ports)
qed

text \<open>A manager with two ports and one update handler, for the concrete cases.\<close>

definition sample_manager :: portmanager where
  "sample_manager =
    \<lparr>m_Ports = [1, 2],
     port_at = (\<lambda>b. if b = 1 then Port_new ''dev'' E_Audio E_Capture
                    else if b = 2 then Port_new ''dev0'' E_Midi E_Capture
                    else Port_new ''dev'' E_Audio E_Playback),
     m_UpdateHandlers = [7], handler_log = []\<rparr>"

lemma sample_manager_fields [simp]:
  "m_Ports sample_manager = [1, 2]"
  "m_Name (port_at sample_manager 1) = ''dev''"
  "m_Name (port_at sample_manager (Suc 0)) = ''dev''"
  "m_Name (port_at sample_manager 2) = ''dev0''"
  "m_Name (port_at sample_manager 3) = ''dev''"
  "m_State (port_at sample_manager 3) = E_Created"
  by (simp_all add: sample_manager_def Port_new_def)

theorem port_names_stay_distinct_witness:
  "ports_inv sample_manager \<and> 3 \<notin> set (m_Ports sample_manager)
    \<and> ports_inv (snd (registerPort 3 sample_manager))
    \<and> ports_inv (snd (unregisterPort 1 sample_manager))"
proof -
  have inv: "ports_inv sample_manager" by (simp add: ports_inv_def)
  have "3 \<notin> set (m_Ports sample_manager)" by simp
  from port_names_stay_distinct [OF inv this, of 1] show ?thesis using inv by simp
qed

text \<open>
  C36. Registration finds a name. A freshly created port is registered whenever the manager holds
  fewer than 10000 ports: it keeps its name when that is free, and otherwise gets the first free
  name among its own name followed by 0, 1, 2 and so on; no other port is touched, and every
  update handler is called once.
\<close>
theorem registerPort_finds_name:
  assumes "a \<notin> set (m_Ports pm)" "m_State (port_at pm a) = E_Created" "length (m_Ports pm) < 10000"
  shows "\<exists>k<10000. let nm = candidate (m_Name (port_at pm a)) k in
      nm \<notin> taken_names pm \<and> (\<forall>j<k. candidate (m_Name (port_at pm a)) j \<in> taken_names pm)
      \<and> registerPort a pm = (True,
          pm\<lparr>m_Ports := m_Ports pm @ [a],
             port_at := (port_at pm)(a := port_at pm a\<lparr>m_Name := nm\<rparr>),
             handler_log := handler_log pm @ m_UpdateHandlers pm\<rparr>)"
proof -
  let ?orig = "m_Name (port_at pm a)"
  obtain k where k: "k < 10000" "candidate ?orig k \<notin> taken_names pm"
      "\<forall>j<k. candidate ?orig j \<in> taken_names pm"
    using least_free_candidate [OF assms(3)] by blast
  have "unique_loop a ?orig 0 pm
      = (k, set_port a (port_at pm a\<lparr>m_Name := candidate ?orig k\<rparr>) pm)"
    by (rule unique_loop_finds) (use assms k in \<open>auto simp: candidate_def\<close>)
  then have "registerPort a pm = (True,
          pm\<lparr>m_Ports := m_Ports pm @ [a],
             port_at := (port_at pm)(a := port_at pm a\<lparr>m_Name := candidate ?orig k\<rparr>),
             handler_log := handler_log pm @ m_UpdateHandlers pm\<rparr>)"
    using k(1) by (simp add: registerPort_def makeNameUnique_def callUpdateHandlers_def set_port_def)
  then show ?thesis using k by (auto simp: Let_def)
qed

theorem registerPort_finds_name_witness:
  "fst (registerPort 3 sample_manager)
    \<and> m_Name (port_at (snd (registerPort 3 sample_manager)) 3) = ''dev1''"
proof -
  have taken: "taken_names sample_manager = {''dev'', ''dev0''}"
    by (simp add: taken_names_def)
  have "3 \<notin> set (m_Ports sample_manager)" "m_State (port_at sample_manager 3) = E_Created"
      "length (m_Ports sample_manager) < 10000" by simp_all
  from registerPort_finds_name [OF this] obtain k where
    free: "candidate ''dev'' k \<notin> {''dev'', ''dev0''}" and
    first: "\<forall>j<k. candidate ''dev'' j \<in> {''dev'', ''dev0''}" and
    reg: "fst (registerPort 3 sample_manager)"
      "m_Name (port_at (snd (registerPort 3 sample_manager)) 3) = candidate ''dev'' k"
    by (auto simp: Let_def taken)
  have c: "candidate ''dev'' 0 = ''dev''" "candidate ''dev'' 1 = ''dev0''"
      "candidate ''dev'' 2 = ''dev1''"
    by (simp_all add: candidate_def show_nat.simps char_of_def bit_0)
  have "k = 2"
  proof (rule ccontr)
    assume "k \<noteq> 2"
    then consider "k = 0" | "k = 1" | "2 < k" by linarith
    then show False using free first c by cases auto
  qed
  then show ?thesis using reg c by simp
qed

section \<open>Other laws\<close>

text \<open>The destructor's loop ends with no port registered.\<close>

lemma delete_ports_empty [simp]: "m_Ports (delete_ports pm) = []"
  by (induction pm rule: delete_ports.induct) (subst delete_ports.simps, auto split: list.splits)

text \<open>What a loop over the ports does when the operation accepts every port.\<close>

lemma port_loop_success:
  assumes "distinct as" "\<forall>a\<in>set as. fst (f (port_at pm a))"
  shows "port_loop f as pm
    = (True, pm\<lparr>port_at := \<lambda>a. if a \<in> set as then snd (f (port_at pm a)) else port_at pm a\<rparr>)"
  using assms
proof (induction as arbitrary: pm)
  case Nil
  then show ?case by simp
next
  case (Cons a as)
  obtain p where f: "f (port_at pm a) = (True, p)"
    using Cons.prems(2) by (cases "f (port_at pm a)") auto
  have "port_loop f as (set_port a p pm) = (True, set_port a p pm\<lparr>port_at :=
      \<lambda>b. if b \<in> set as then snd (f (port_at (set_port a p pm) b)) else port_at (set_port a p pm) b\<rparr>)"
    by (rule Cons.IH) (use Cons.prems in auto)
  then show ?case
    using Cons.prems(1) f by (auto simp: set_port_def fun_eq_iff intro!: arg_cong [of _ _ "\<lambda>g. pm\<lparr>port_at := g\<rparr>"])
qed

lemma port_loop_frame:
  "m_Ports (snd (port_loop f as pm)) = m_Ports pm"
  "m_UpdateHandlers (snd (port_loop f as pm)) = m_UpdateHandlers pm"
  "handler_log (snd (port_loop f as pm)) = handler_log pm"
  by (induction as arbitrary: pm) (auto simp: Let_def split: prod.splits)

end
