(* ===== verification/StreamProcessor.thy ===== *)
theory StreamProcessor
  imports CycleTimer TimestampedBuffer Ports
begin

text \<open>
  The stream processor base class, \<open>libstreaming/generic/StreamProcessor.cpp\<close>: the state machine
  that takes an isochronous stream from creation over dry-running to running and back, the packet
  side (\<open>putPacket\<close>, \<open>getPacket\<close>), the client side (\<open>getFrames\<close>, \<open>putFrames\<close>) and the buffer
  management between them.

  \<^item> \<open>'c sp_base\<close> holds the protected members, which subclasses read and write, the port manager
    the class inherits from, and the subclass's own members \<open>sp_child\<close>;
  \<^item> \<open>'c sp\<close> adds the private members, which only this class changes;
  \<^item> \<open>'c sp_env\<close> holds what the class calls and does not define: the virtual functions of the
    subclass, and what the stream processor manager, the iso handler manager and the 1394 service
    answer. A virtual function may change \<open>'c sp_base\<close> and may end in a fault.

  Waking other threads (\<open>SIGNAL_ACTIVITY_*\<close>), debug output and the blocks compiled only with
  \<open>DEBUG\<close> have no effect on the state and are left out. The methods whose names the timestamped
  buffer already uses carry the prefix \<open>SP_\<close>.
\<close>

section \<open>State\<close>

datatype eProcessorType = ePT_Receive | ePT_Transmit

datatype eProcessorState =
    ePS_Invalid | ePS_Created | ePS_Stopped | ePS_WaitingForStream | ePS_DryRunning
  | ePS_WaitingForStreamEnable | ePS_Running | ePS_WaitingForStreamDisable | ePS_Error

datatype eChildReturnValue =
    eCRV_OK | eCRV_Invalid | eCRV_Packet | eCRV_EmptyPacket | eCRV_XRun | eCRV_Again
  | eCRV_Defer | eCRV_Error

datatype raw1394_iso_disposition = RAW1394_ISO_OK | RAW1394_ISO_DEFER | RAW1394_ISO_ERROR

record 'c sp_base =
  m_local_node_id :: u32
  m_last_timestamp :: u64
  m_correct_last_timestamp :: bool
  m_data_buffer :: tsbuf
  m_scratch_buffer :: "byte list option"
  m_scratch_buffer_size_bytes :: u64
  m_ticks_per_frame :: rat
  m_dll_bandwidth_hz :: rat
  m_extra_buffer_frames :: u32
  sp_ports :: portmanager
  sp_child :: 'c

record 'c sp =
  m_base :: "'c sp_base"
  m_processor_type :: eProcessorType
  m_state :: eProcessorState
  m_next_state :: eProcessorState
  m_cycle_to_switch_state :: u32
  m_last_timestamp2 :: u64
  m_in_xrun :: bool
  m_channel :: u32

text \<open>The out parameters of the functions that generate a packet.\<close>

record iso_packet =
  pk_data :: "byte list"
  pk_length :: u32
  pk_tag :: byte
  pk_sy :: byte

type_synonym 'c receive_fn = "'c sp_base \<Rightarrow> (eChildReturnValue \<times> 'c sp_base) result"
type_synonym 'c generate_fn =
  "iso_packet \<Rightarrow> 'c sp_base \<Rightarrow> (eChildReturnValue \<times> iso_packet \<times> 'c sp_base) result"

record 'c sp_env =
  getNbBuffers :: u32
  getPeriodSize :: u32
  getNominalRate :: u32
  registerProcessor :: bool
  registerStream :: bool
  startHandlerForStream :: "u64 \<Rightarrow> bool"
  stopHandlerForStream :: bool
  getPacketLatencyForStream :: u32
  getCycleTimerTicks :: u64
  getLocalNodeId :: u32
  heap_bytes :: "nat \<Rightarrow> byte"
  prepareChild :: "'c sp_base \<Rightarrow> (bool \<times> 'c sp_base) result"
  getEventsPerFrame :: "'c \<Rightarrow> u32"
  getEventSize :: "'c \<Rightarrow> u32"
  getNominalFramesPerPacket :: "'c \<Rightarrow> u32"
  processPacketHeader :: "byte list \<Rightarrow> u32 \<Rightarrow> byte \<Rightarrow> byte \<Rightarrow> u32 \<Rightarrow> 'c receive_fn"
  processPacketData :: "byte list \<Rightarrow> u32 \<Rightarrow> 'c receive_fn"
  generatePacketHeader :: "u32 \<Rightarrow> 'c generate_fn"
  generatePacketData :: "'c generate_fn"
  generateEmptyPacketHeader :: "u32 \<Rightarrow> 'c generate_fn"
  generateEmptyPacketData :: "'c generate_fn"
  generateSilentPacketHeader :: "u32 \<Rightarrow> 'c generate_fn"
  generateSilentPacketData :: "'c generate_fn"
  transmitSilenceBlock ::
    "byte list \<Rightarrow> u32 \<Rightarrow> u32 \<Rightarrow> 'c sp_base \<Rightarrow> (bool \<times> byte list \<times> 'c sp_base) result"
  sp_client :: "('c \<times> portmanager) tsb_client"

definition STREAMPROCESSOR_DLL_FAST_BW_HZ :: rat where "STREAMPROCESSOR_DLL_FAST_BW_HZ = 5"
definition STREAMPROCESSOR_DLL_BW_HZ :: rat where "STREAMPROCESSOR_DLL_BW_HZ = rd (1 / 10)"

definition StreamProcessor :: "eProcessorType \<Rightarrow> portmanager \<Rightarrow> 'c \<Rightarrow> 'c sp" where
  "StreamProcessor type pm c =
    \<lparr>m_base = \<lparr>m_local_node_id = 0, m_last_timestamp = 0, m_correct_last_timestamp = False,
       m_data_buffer = TimestampedBuffer, m_scratch_buffer = None, m_scratch_buffer_size_bytes = 0,
       m_ticks_per_frame = 0, m_dll_bandwidth_hz = rf STREAMPROCESSOR_DLL_BW_HZ,
       m_extra_buffer_frames = 0, sp_ports = pm, sp_child = c\<rparr>,
     m_processor_type = type, m_state = ePS_Created, m_next_state = ePS_Invalid,
     m_cycle_to_switch_state = 0, m_last_timestamp2 = 0, m_in_xrun = False, m_channel = -1\<rparr>"

text \<open>Access to the members a level down.\<close>

abbreviation buf :: "'c sp \<Rightarrow> tsbuf" where "buf s \<equiv> m_data_buffer (m_base s)"
abbreviation child :: "'c sp \<Rightarrow> 'c" where "child s \<equiv> sp_child (m_base s)"

definition upd_base :: "('c sp_base \<Rightarrow> 'c sp_base) \<Rightarrow> 'c sp \<Rightarrow> 'c sp" where
  "upd_base f s = s\<lparr>m_base := f (m_base s)\<rparr>"

definition set_buffer :: "tsbuf \<Rightarrow> 'c sp \<Rightarrow> 'c sp" where
  "set_buffer b = upd_base (\<lambda>x. x\<lparr>m_data_buffer := b\<rparr>)"

definition set_ports :: "portmanager \<Rightarrow> 'c sp \<Rightarrow> 'c sp" where
  "set_ports pm = upd_base (\<lambda>x. x\<lparr>sp_ports := pm\<rparr>)"

definition set_last_timestamp :: "u64 \<Rightarrow> 'c sp \<Rightarrow> 'c sp" where
  "set_last_timestamp t = upd_base (\<lambda>x. x\<lparr>m_last_timestamp := t\<rparr>)"

definition set_correct_last_timestamp :: "bool \<Rightarrow> 'c sp \<Rightarrow> 'c sp" where
  "set_correct_last_timestamp b = upd_base (\<lambda>x. x\<lparr>m_correct_last_timestamp := b\<rparr>)"

definition set_local_node_id :: "u32 \<Rightarrow> 'c sp \<Rightarrow> 'c sp" where
  "set_local_node_id n = upd_base (\<lambda>x. x\<lparr>m_local_node_id := n\<rparr>)"

definition on_buffer :: "(tsbuf \<Rightarrow> (bool \<times> tsbuf) result) \<Rightarrow> 'c sp \<Rightarrow> (bool \<times> 'c sp) result" where
  "on_buffer f s = bind_result (f (buf s)) (\<lambda>(ok, b). Inr (ok, set_buffer b s))"

text \<open>Conversions between \<open>uint64_t\<close> and \<open>double\<close>; the second one truncates towards zero.\<close>

definition u64_to_double :: "u64 \<Rightarrow> rat" where "u64_to_double t = rd (of_nat (unat t))"
definition double_to_u64 :: "rat \<Rightarrow> u64" where
  "double_to_u64 x = word_of_int (if 0 \<le> x then \<lfloor>x\<rfloor> else \<lceil>x\<rceil>)"

section \<open>Buffer management\<close>

definition getMaxFrameLatency :: "'c sp_env \<Rightarrow> u32" where
  "getMaxFrameLatency env = ucast (ucast (getPacketLatencyForStream env) * TICKS_PER_CYCLE :: u64)"

definition getNominalPacketsNeeded :: "'c sp_env \<Rightarrow> u32 \<Rightarrow> u32 result" where
  "getNominalPacketsNeeded env nframes =
    (if getNominalRate env = 0 then Inl DivByZero
     else let nominal_ticks_per_frame = TICKS_PER_SECOND div ucast (getNominalRate env) :: u64;
              nominal_ticks = nominal_ticks_per_frame * ucast nframes
          in Inr (ucast ((nominal_ticks + TICKS_PER_CYCLE - 1) div TICKS_PER_CYCLE)))"

definition getPacketsPerPeriod :: "'c sp_env \<Rightarrow> u32 result" where
  "getPacketsPerPeriod env = getNominalPacketsNeeded env (getPeriodSize env)"

definition getNbPacketsIsoXmitBuffer :: "'c sp_env \<Rightarrow> u32 result" where
  "getNbPacketsIsoXmitBuffer env =
    bind_result (getPacketsPerPeriod env) (\<lambda>n. Inr (n * getNbBuffers env + 10))"

definition ringbuffer_size_frames :: "'c sp_env \<Rightarrow> 'c sp \<Rightarrow> u32" where
  "ringbuffer_size_frames env s =
    getNbBuffers env * getPeriodSize env + m_extra_buffer_frames (m_base s) + 1"

definition setupDataBuffer :: "'c sp_env \<Rightarrow> 'c sp \<Rightarrow> (bool \<times> 'c sp) result" where
  "setupDataBuffer env s0 =
    (let s = set_correct_last_timestamp False s0;
         (r1, b1) = setBufferSize (ringbuffer_size_frames env s) (buf s);
         (r2, b2) = setEventSize (getEventSize env (child s)) b1;
         (r3, b3) = setEventsPerFrame (getEventsPerFrame env (child s)) b2;
         (r4, b4) = setUpdatePeriod
                      (if m_processor_type s = ePT_Receive
                       then getNominalFramesPerPacket env (child s) else getPeriodSize env) b3;
         result4 = (r1 \<and> r2 \<and> r3 \<and> r4)
     in if 0 < m_ticks_per_frame (m_base s)
        then let (r5, b5) = setNominalRate (m_ticks_per_frame (m_base s)) b4;
                 (r6, b6) = setWrapValue (128 * 24576000) b5;
                 (r7, b7) = setBandwidth (rd (STREAMPROCESSOR_DLL_FAST_BW_HZ / 24576000)) b6
             in bind_result (prepare (heap_bytes env) b7) (\<lambda>(r8, b8).
                Inr (result4 \<and> r5 \<and> r6 \<and> r7 \<and> r8, set_buffer b8 s))
        else Inr (result4, set_buffer b4 s))"

definition SP_getBufferHeadTimestamp :: "'c sp \<Rightarrow> rat \<times> u32" where
  "SP_getBufferHeadTimestamp s = getBufferHeadTimestamp (buf s)"

definition SP_getBufferTailTimestamp :: "'c sp \<Rightarrow> rat \<times> u32" where
  "SP_getBufferTailTimestamp s = getBufferTailTimestamp (buf s)"

definition SP_setBufferTailTimestamp :: "rat \<Rightarrow> 'c sp \<Rightarrow> 'c sp" where
  "SP_setBufferTailTimestamp t s = set_buffer (setBufferTailTimestamp t (buf s)) s"

definition SP_setBufferHeadTimestamp :: "rat \<Rightarrow> 'c sp \<Rightarrow> 'c sp" where
  "SP_setBufferHeadTimestamp t s = set_buffer (setBufferHeadTimestamp t (buf s)) s"

definition SP_getBufferFill :: "'c sp \<Rightarrow> u32" where
  "SP_getBufferFill s = getBufferFill (buf s)"

definition setExtraBufferFrames :: "u32 \<Rightarrow> 'c sp \<Rightarrow> 'c sp" where
  "setExtraBufferFrames frames = upd_base (\<lambda>x. x\<lparr>m_extra_buffer_frames := frames\<rparr>)"

definition getExtraBufferFrames :: "'c sp \<Rightarrow> u32" where
  "getExtraBufferFrames s = m_extra_buffer_frames (m_base s)"

definition getTimeAtPeriod :: "'c sp_env \<Rightarrow> 'c sp \<Rightarrow> u64" where
  "getTimeAtPeriod env s =
    (if m_processor_type s = ePT_Receive
     then double_to_u64 (getTimestampFromHead (getPeriodSize env) (buf s))
     else double_to_u64
            (getTimestampFromTail ((getNbBuffers env - 1) * getPeriodSize env) (buf s)))"

definition getTicksPerFrame :: "'c sp \<Rightarrow> rat" where
  "getTicksPerFrame s = m_current_rate (buf s)"

definition setTicksPerFrame :: "rat \<Rightarrow> 'c sp \<Rightarrow> 'c sp" where
  "setTicksPerFrame tpf s = set_buffer (setRate tpf (buf s)) s"

definition setDllBandwidth :: "rat \<Rightarrow> 'c sp \<Rightarrow> bool \<times> 'c sp" where
  "setDllBandwidth bw s = (True, upd_base (\<lambda>x. x\<lparr>m_dll_bandwidth_hz := bw\<rparr>) s)"

definition setChannel :: "u32 \<Rightarrow> 'c sp \<Rightarrow> bool \<times> 'c sp" where
  "setChannel c s = (True, s\<lparr>m_channel := c\<rparr>)"

definition canClientTransferFrames :: "u32 \<Rightarrow> 'c sp \<Rightarrow> bool" where
  "canClientTransferFrames nbframes s =
    (let fc = m_framecounter (buf s)
     in if m_processor_type s = ePT_Receive then nbframes \<le> fc
        else nbframes < m_buffer_size (buf s) - fc \<or> m_transparent (buf s))"

definition transferSilence :: "'c sp_env \<Rightarrow> u32 \<Rightarrow> 'c sp \<Rightarrow> (bool \<times> 'c sp) result" where
  "transferSilence env nframes s =
    (let zeros = replicate (unat (getEventSize env (child s))
                            * unat (nframes * getEventsPerFrame env (child s))) 0
     in bind_result (transmitSilenceBlock env zeros nframes 0 (m_base s)) (\<lambda>(_, dummybuffer, b).
        on_buffer (preloadFrames nframes dummybuffer True) (s\<lparr>m_base := b\<rparr>)))"

section \<open>The state machine\<close>

definition doStop_finish :: "bool \<Rightarrow> 'c sp \<Rightarrow> (bool \<times> 'c sp) result" where
  "doStop_finish result s =
    bind_result (on_buffer clearBuffer s) (\<lambda>(r1, s1).
    let s2 = set_buffer (setTransparent True (buf s1)) s1;
        (r2, pm) = preparePorts (sp_ports (m_base s2))
    in Inr (result \<and> r1 \<and> r2, set_ports pm s2\<lparr>m_state := ePS_Stopped\<rparr>))"

definition doStop :: "'c sp_env \<Rightarrow> 'c sp \<Rightarrow> (bool \<times> 'c sp) result" where
  "doStop env s =
    (case m_state s of
       ePS_Created \<Rightarrow>
         (if getNominalRate env = 0 then Inl NotFinite
          else let tpf = rf (rd (24576000 / u2f (getNominalRate env)));
                   s1 = upd_base (\<lambda>x. x\<lparr>m_ticks_per_frame := tpf,
                          m_local_node_id := getLocalNodeId env AND 0x3f,
                          m_correct_last_timestamp := False\<rparr>) s
               in bind_result (setupDataBuffer env s1) (\<lambda>(result, s2). doStop_finish result s2))
     | ePS_DryRunning \<Rightarrow>
         (if \<not> stopHandlerForStream env then Inr (False, s) else doStop_finish True s)
     | _ \<Rightarrow> Inr (False, s))"

definition doWaitForRunningStream :: "'c sp \<Rightarrow> bool \<times> 'c sp" where
  "doWaitForRunningStream s =
    (case m_state s of
       ePS_Stopped \<Rightarrow> (True, s\<lparr>m_state := ePS_WaitingForStream\<rparr>)
     | _ \<Rightarrow> (False, s))"

definition doDryRunning :: "'c sp_env \<Rightarrow> 'c sp \<Rightarrow> (bool \<times> 'c sp) result" where
  "doDryRunning env s =
    (case m_state s of
       ePS_WaitingForStream \<Rightarrow>
         (let s1 = set_local_node_id (getLocalNodeId env AND 0x3f) s;
              s2 = (if m_processor_type s = ePT_Receive
                    then set_buffer (setBufferTailTimestamp
                           (u64_to_double (m_last_timestamp (m_base s1))) (buf s1)) s1
                    else s1)
          in Inr (True, s2\<lparr>m_state := ePS_DryRunning\<rparr>))
     | ePS_WaitingForStreamEnable \<Rightarrow>
         bind_result (on_buffer clearBuffer s) (\<lambda>(result, s1).
         let s2 = set_buffer (setTransparent True (buf s1)) s1
         in Inr (result, s2\<lparr>m_state := ePS_DryRunning\<rparr>))
     | ePS_WaitingForStreamDisable \<Rightarrow>
         bind_result (on_buffer clearBuffer s) (\<lambda>(result, s1).
         let s2 = set_buffer (setTransparent True (buf s1)) s1;
             s3 = set_last_timestamp 0 (s2\<lparr>m_last_timestamp2 := 0\<rparr>)
         in Inr (result, s3\<lparr>m_state := ePS_DryRunning\<rparr>))
     | _ \<Rightarrow> Inr (False, s))"

definition doWaitForStreamEnable :: "'c sp_env \<Rightarrow> 'c sp \<Rightarrow> (bool \<times> 'c sp) result" where
  "doWaitForStreamEnable env s =
    (case m_state s of
       ePS_DryRunning \<Rightarrow>
         bind_result (on_buffer (resizeBuffer (heap_bytes env) (ringbuffer_size_frames env s)) s)
           (\<lambda>(ok, s1).
           if \<not> ok then Inr (False, s1)
           else if m_processor_type s1 = ePT_Transmit
           then let frames = getNbBuffers env * getPeriodSize env + m_extra_buffer_frames (m_base s1)
                in bind_result (transferSilence env frames s1) (\<lambda>(ok2, s2).
                   if \<not> ok2 then Inr (False, s2)
                   else Inr (True, s2\<lparr>m_state := ePS_WaitingForStreamEnable\<rparr>))
           else Inr (True, s1\<lparr>m_state := ePS_WaitingForStreamEnable\<rparr>))
     | _ \<Rightarrow> Inr (False, s))"

definition doRunning :: "'c sp_env \<Rightarrow> 'c sp \<Rightarrow> bool \<times> 'c sp" where
  "doRunning env s =
    (case m_state s of
       ePS_WaitingForStreamEnable \<Rightarrow>
         (let s1 = set_local_node_id (getLocalNodeId env AND 0x3f) (s\<lparr>m_in_xrun := False\<rparr>);
              (result, b) = setBandwidth (rd (m_dll_bandwidth_hz (m_base s1) / 24576000)) (buf s1);
              s2 = set_buffer (setTransparent False b) s1
          in (result, s2\<lparr>m_last_timestamp2 := 0, m_state := ePS_Running\<rparr>))
     | _ \<Rightarrow> (False, s))"

definition doWaitForStreamDisable :: "'c sp \<Rightarrow> bool \<times> 'c sp" where
  "doWaitForStreamDisable s =
    (case m_state s of
       ePS_Running \<Rightarrow> (True, s\<lparr>m_state := ePS_WaitingForStreamDisable\<rparr>)
     | _ \<Rightarrow> (False, s))"

definition updateState :: "'c sp_env \<Rightarrow> 'c sp \<Rightarrow> (bool \<times> 'c sp) result" where
  "updateState env s =
    (let next_state = m_next_state s
     in if m_state s = next_state then Inr (True, s)
        else case m_state s of
          ePS_Created \<Rightarrow>
            (if next_state \<noteq> ePS_Stopped then Inr (False, s) else doStop env s)
        | ePS_Stopped \<Rightarrow>
            (if next_state \<noteq> ePS_WaitingForStream then Inr (False, s)
             else Inr (doWaitForRunningStream s))
        | ePS_WaitingForStream \<Rightarrow>
            (if next_state \<noteq> ePS_DryRunning then Inr (False, s) else doDryRunning env s)
        | ePS_DryRunning \<Rightarrow>
            (if next_state \<noteq> ePS_Stopped \<and> next_state \<noteq> ePS_WaitingForStreamEnable
             then Inr (False, s)
             else if next_state = ePS_Stopped then doStop env s else doWaitForStreamEnable env s)
        | ePS_WaitingForStreamEnable \<Rightarrow>
            (if next_state \<noteq> ePS_DryRunning \<and> next_state \<noteq> ePS_Running then Inr (False, s)
             else if next_state = ePS_DryRunning then doDryRunning env s
             else Inr (doRunning env s))
        | ePS_Running \<Rightarrow>
            (if next_state \<noteq> ePS_WaitingForStreamDisable then Inr (False, s)
             else Inr (doWaitForStreamDisable s))
        | ePS_WaitingForStreamDisable \<Rightarrow>
            (if next_state \<noteq> ePS_DryRunning then Inr (False, s) else doDryRunning env s)
        | ePS_Invalid \<Rightarrow> Inr (False, s)
        | ePS_Error \<Rightarrow> Inr (False, s))"

definition periodSizeChanged :: "'c sp_env \<Rightarrow> u32 \<Rightarrow> 'c sp \<Rightarrow> (bool \<times> 'c sp) result" where
  "periodSizeChanged env new_periodsize s =
    (if m_state s \<noteq> ePS_Stopped \<and> m_state s \<noteq> ePS_Created then Inr (False, s)
     else let size = ucast (new_periodsize * getEventsPerFrame env (child s)
                            * getEventSize env (child s)) :: u64;
              s1 = upd_base (\<lambda>x. x\<lparr>m_scratch_buffer_size_bytes := size,
                     m_scratch_buffer := Some (map (heap_bytes env) [0..<unat size])\<rparr>) s;
              pm = sp_ports (m_base s1);
              (ok, pm') = port_loop (Port_setBufferSize (getPeriodSize env)) (m_Ports pm) pm;
              s2 = set_ports pm' s1
          in if \<not> ok then Inr (False, s2)
             else bind_result (setupDataBuffer env s2) (\<lambda>(ok2, s3).
                  if \<not> ok2 then Inr (False, s3) else updateState env s3))"

definition SP_init :: "'c sp_env \<Rightarrow> 'c sp \<Rightarrow> bool \<times> 'c sp" where
  "SP_init env s =
    (if \<not> registerStream env then (False, s)
     else if \<not> registerProcessor env then (False, s)
     else (True, s\<lparr>m_next_state := ePS_Created\<rparr>))"

definition SP_prepare :: "'c sp_env \<Rightarrow> 'c sp \<Rightarrow> (bool \<times> 'c sp) result" where
  "SP_prepare env s =
    bind_result (periodSizeChanged env (getPeriodSize env) s) (\<lambda>(ok, s1).
    if \<not> ok then Inr (False, s1)
    else let (ok2, pm) = initPorts (sp_ports (m_base s1)); s2 = set_ports pm s1
         in if \<not> ok2 then Inr (False, s2)
            else bind_result (prepareChild env (m_base s2)) (\<lambda>(ok3, b).
                 let s3 = s2\<lparr>m_base := b\<rparr>
                 in if \<not> ok3 then Inr (False, s3)
                    else updateState env (s3\<lparr>m_next_state := ePS_Stopped\<rparr>)))"

definition handleBusResetDo :: "'c sp \<Rightarrow> bool \<times> 'c sp" where
  "handleBusResetDo s = (True, s\<lparr>m_state := ePS_Error, m_in_xrun := True\<rparr>)"

definition handleBusReset :: "'c sp \<Rightarrow> bool \<times> 'c sp" where
  "handleBusReset s = handleBusResetDo s"

definition handlerDied :: "'c sp \<Rightarrow> 'c sp" where
  "handlerDied s = s\<lparr>m_state := ePS_Stopped, m_in_xrun := True\<rparr>"

definition packetsStopped :: "'c sp \<Rightarrow> 'c sp" where
  "packetsStopped s = s\<lparr>m_state := ePS_Stopped, m_next_state := ePS_Stopped\<rparr>"

section \<open>Requests from the client thread\<close>

definition scheduleStateTransition :: "eProcessorState \<Rightarrow> u64 \<Rightarrow> 'c sp \<Rightarrow> bool \<times> 'c sp" where
  "scheduleStateTransition state time_instant s =
    (True, s\<lparr>m_cycle_to_switch_state := ucast (TICKS_TO_CYCLES time_instant), m_next_state := state\<rparr>)"

text \<open>
  A request carries a time, or a negative number for a given number of cycles from now. The
  number arrives as an \<open>int64_t\<close>.
\<close>

definition request_time :: "'c sp_env \<Rightarrow> u64 \<Rightarrow> u64 \<Rightarrow> u64" where
  "request_time env cycles t =
    (if t <s 0 then addTicks (getCycleTimerTicks env) (cycles * TICKS_PER_CYCLE) else t)"

definition scheduleStartDryRunning :: "'c sp_env \<Rightarrow> u64 \<Rightarrow> 'c sp \<Rightarrow> bool \<times> 'c sp" where
  "scheduleStartDryRunning env t s =
    (let tx = request_time env 200 t;
         start_handler_ticks = substractTicks tx (100 * TICKS_PER_CYCLE)
     in case m_state s of
          ePS_Stopped \<Rightarrow>
            (if \<not> startHandlerForStream env (TICKS_TO_CYCLES start_handler_ticks) then (False, s)
             else scheduleStateTransition ePS_WaitingForStream tx s)
        | ePS_Running \<Rightarrow> scheduleStateTransition ePS_WaitingForStreamDisable tx s
        | ePS_DryRunning \<Rightarrow> (True, s)
        | ePS_WaitingForStreamEnable \<Rightarrow> scheduleStateTransition ePS_DryRunning tx s
        | ePS_WaitingForStreamDisable \<Rightarrow> (True, s)
        | _ \<Rightarrow> (False, s))"

definition scheduleStartRunning :: "'c sp_env \<Rightarrow> u64 \<Rightarrow> 'c sp \<Rightarrow> bool \<times> 'c sp" where
  "scheduleStartRunning env t s =
    scheduleStateTransition ePS_WaitingForStreamEnable (request_time env 200 t) s"

definition scheduleStopDryRunning :: "'c sp_env \<Rightarrow> u64 \<Rightarrow> 'c sp \<Rightarrow> bool \<times> 'c sp" where
  "scheduleStopDryRunning env t s =
    scheduleStateTransition ePS_Stopped (request_time env 2000 t) s"

definition scheduleStopRunning :: "'c sp_env \<Rightarrow> u64 \<Rightarrow> 'c sp \<Rightarrow> bool \<times> 'c sp" where
  "scheduleStopRunning env t s =
    scheduleStateTransition ePS_WaitingForStreamDisable (request_time env 2000 t) s"

text \<open>
  Polling for a state that the packet thread brings about: \<open>obs i\<close> is the value of \<open>m_state\<close> that
  the \<open>i\<close>-th test of the loop condition reads. The counter is an \<open>int\<close>; the model covers the
  timeouts that it holds.
\<close>

fun wait_loop :: "(nat \<Rightarrow> eProcessorState) \<Rightarrow> eProcessorState \<Rightarrow> nat \<Rightarrow> nat \<Rightarrow> nat" where
  "wait_loop obs state i cnt =
    (if obs i \<noteq> state \<and> cnt \<noteq> 0 then wait_loop obs state (Suc i) (cnt - 1) else cnt)"

declare wait_loop.simps [simp del]

definition waitForState :: "(nat \<Rightarrow> eProcessorState) \<Rightarrow> eProcessorState \<Rightarrow> u32 \<Rightarrow> bool" where
  "waitForState obs state timeout_ms = (wait_loop obs state 0 (unat timeout_ms) \<noteq> 0)"

definition request_and_wait ::
    "(nat \<Rightarrow> eProcessorState) \<Rightarrow> eProcessorState \<Rightarrow> ('c sp \<Rightarrow> bool \<times> 'c sp) \<Rightarrow> 'c sp \<Rightarrow> bool \<times> 'c sp" where
  "request_and_wait obs state schedule s =
    (if m_state s = state then (True, s)
     else let (ok, s1) = schedule s
          in if \<not> ok then (False, s1) else (waitForState obs state 2000, s1))"

definition startDryRunning ::
    "'c sp_env \<Rightarrow> (nat \<Rightarrow> eProcessorState) \<Rightarrow> u64 \<Rightarrow> 'c sp \<Rightarrow> bool \<times> 'c sp" where
  "startDryRunning env obs t = request_and_wait obs ePS_DryRunning (scheduleStartDryRunning env t)"

definition startRunning ::
    "'c sp_env \<Rightarrow> (nat \<Rightarrow> eProcessorState) \<Rightarrow> u64 \<Rightarrow> 'c sp \<Rightarrow> bool \<times> 'c sp" where
  "startRunning env obs t = request_and_wait obs ePS_Running (scheduleStartRunning env t)"

definition stopDryRunning ::
    "'c sp_env \<Rightarrow> (nat \<Rightarrow> eProcessorState) \<Rightarrow> u64 \<Rightarrow> 'c sp \<Rightarrow> bool \<times> 'c sp" where
  "stopDryRunning env obs t = request_and_wait obs ePS_Stopped (scheduleStopDryRunning env t)"

definition stopRunning ::
    "'c sp_env \<Rightarrow> (nat \<Rightarrow> eProcessorState) \<Rightarrow> u64 \<Rightarrow> 'c sp \<Rightarrow> bool \<times> 'c sp" where
  "stopRunning env obs t = request_and_wait obs ePS_DryRunning (scheduleStopRunning env t)"

section \<open>Packets\<close>

type_synonym 'c disposed = "(raw1394_iso_disposition \<times> 'c sp) result"

definition packet_cycle :: "u32 \<Rightarrow> u64" where
  "packet_cycle pkt_ctr = CYCLE_TIMER_GET_CYCLES (ucast pkt_ctr)"

text \<open>The test for the cycle of a scheduled transition, and the request that follows an xrun.\<close>

definition switch_due :: "u32 \<Rightarrow> 'c sp \<Rightarrow> bool" where
  "switch_due pkt_ctr s = (0 \<le>s diffCycles (ucast (packet_cycle pkt_ctr)) (m_cycle_to_switch_state s))"

definition request_disable :: "u32 \<Rightarrow> 'c sp \<Rightarrow> 'c sp" where
  "request_disable pkt_ctr s =
    s\<lparr>m_in_xrun := True, m_cycle_to_switch_state := ucast (packet_cycle pkt_ctr + 1),
      m_next_state := ePS_WaitingForStreamDisable\<rparr>"

text \<open>\<open>if (!updateState()) return RAW1394_ISO_ERROR;\<close>, for a disposition paired with more results.\<close>

definition update_or ::
    "'c sp_env \<Rightarrow> 'c sp \<Rightarrow> ('c sp \<Rightarrow> 'r) \<Rightarrow> ('c sp \<Rightarrow> 'r result) \<Rightarrow> 'r result" where
  "update_or env s failed k = bind_result (updateState env s) (\<lambda>(ok, s1). if ok then k s1 else Inr (failed s1))"

subsection \<open>Reception\<close>

definition putPacket_data :: "'c sp_env \<Rightarrow> byte list \<Rightarrow> u32 \<Rightarrow> u32 \<Rightarrow> 'c sp \<Rightarrow> 'c disposed" where
  "putPacket_data env data len pkt_ctr s =
    bind_result (processPacketData env data len (m_base s)) (\<lambda>(result2, b).
    let s1 = s\<lparr>m_base := b\<rparr>
    in case result2 of
         eCRV_XRun \<Rightarrow>
           update_or env (request_disable pkt_ctr s1) (Pair RAW1394_ISO_ERROR)
             (\<lambda>s2. Inr (RAW1394_ISO_DEFER, s2))
       | eCRV_OK \<Rightarrow> Inr (RAW1394_ISO_OK, s1)
       | _ \<Rightarrow> Inr (RAW1394_ISO_ERROR, s1))"

definition correct_timestamp :: "'c sp_env \<Rightarrow> 'c sp \<Rightarrow> 'c sp" where
  "correct_timestamp env s =
    (if m_correct_last_timestamp (m_base s)
     then let ticks = double_to_u64
                (rf (u2f (getNominalFramesPerPacket env (child s)) * getTicksPerFrame s));
              t = substractTicks (m_last_timestamp (m_base s)) ticks
          in set_correct_last_timestamp False
               (set_buffer (setBufferTailTimestamp (u64_to_double t) (buf s)) s)
     else s)"

definition putPacket_ok :: "'c sp_env \<Rightarrow> byte list \<Rightarrow> u32 \<Rightarrow> u32 \<Rightarrow> 'c sp \<Rightarrow> 'c disposed" where
  "putPacket_ok env data len pkt_ctr s0 =
    (let s = correct_timestamp env s0
     in if m_state s = ePS_WaitingForStream
        then if switch_due pkt_ctr s
             then update_or env (s\<lparr>m_next_state := ePS_DryRunning\<rparr>) (Pair RAW1394_ISO_ERROR)
                    (\<lambda>s1. Inr (RAW1394_ISO_OK, s1))
             else Inr (RAW1394_ISO_OK, s)
        else if m_state s \<noteq> m_next_state s
        then update_or env s (Pair RAW1394_ISO_ERROR) (\<lambda>s1.
               if m_state s1 = ePS_WaitingForStream then Inr (RAW1394_ISO_OK, s1)
               else putPacket_data env data len pkt_ctr s1)
        else putPacket_data env data len pkt_ctr s)"

definition putPacket_header ::
    "'c sp_env \<Rightarrow> byte list \<Rightarrow> u32 \<Rightarrow> byte \<Rightarrow> byte \<Rightarrow> u32 \<Rightarrow> u32 \<Rightarrow> 'c sp \<Rightarrow> 'c disposed" where
  "putPacket_header env data len tag sy pkt_ctr dropped_cycles s =
    bind_result (processPacketHeader env data len tag sy pkt_ctr (m_base s)) (\<lambda>(result, b).
    let s1 = s\<lparr>m_base := b\<rparr>;
        dispatch = (\<lambda>s2. case result of
            eCRV_OK \<Rightarrow> putPacket_ok env data len pkt_ctr s2
          | eCRV_Invalid \<Rightarrow> Inr (RAW1394_ISO_OK, s2)
          | _ \<Rightarrow> Inr (RAW1394_ISO_ERROR, s2))
    in if dropped_cycles \<noteq> 0
       then let s2 = set_correct_last_timestamp True s1
            in if m_state s2 = ePS_Running
               then update_or env (request_disable pkt_ctr s2) (Pair RAW1394_ISO_ERROR) dispatch
               else dispatch s2
       else dispatch s1)"

definition putPacket ::
    "'c sp_env \<Rightarrow> byte list \<Rightarrow> u32 \<Rightarrow> byte \<Rightarrow> byte \<Rightarrow> byte \<Rightarrow> u32 \<Rightarrow> u32 \<Rightarrow> 'c sp \<Rightarrow> 'c disposed" where
  "putPacket env data len channel tag sy pkt_ctr dropped_cycles s =
    (if m_state s = ePS_Created then Inr (RAW1394_ISO_DEFER, s)
     else if m_state s = ePS_Error then Inr (RAW1394_ISO_OK, s)
     else let s1 = s\<lparr>m_last_timestamp2 := m_last_timestamp (m_base s)\<rparr>
          in if m_state s1 = ePS_WaitingForStreamDisable
             then if switch_due pkt_ctr s1
                  then update_or env (s1\<lparr>m_next_state := ePS_DryRunning\<rparr>) (Pair RAW1394_ISO_ERROR)
                         (\<lambda>s2. Inr (RAW1394_ISO_OK, s2))
                  else Inr (RAW1394_ISO_OK, s1)
             else if m_state s1 = ePS_WaitingForStreamEnable
                     \<and> m_next_state s1 = ePS_WaitingForStreamEnable \<and> switch_due pkt_ctr s1
             then update_or env (s1\<lparr>m_next_state := ePS_Running\<rparr>) (Pair RAW1394_ISO_ERROR)
                    (putPacket_header env data len tag sy pkt_ctr dropped_cycles)
             else putPacket_header env data len tag sy pkt_ctr dropped_cycles s1)"

subsection \<open>Transmission\<close>

type_synonym 'c transmitted = "(raw1394_iso_disposition \<times> iso_packet \<times> 'c sp) result"

definition empty_packet :: "'c sp_env \<Rightarrow> u32 \<Rightarrow> raw1394_iso_disposition \<Rightarrow> iso_packet \<Rightarrow> 'c sp \<Rightarrow> 'c transmitted" where
  "empty_packet env pkt_ctr disposition pk s =
    bind_result (generateEmptyPacketHeader env pkt_ctr pk (m_base s)) (\<lambda>(_, pk1, b1).
    bind_result (generateEmptyPacketData env pk1 b1) (\<lambda>(_, pk2, b2).
    Inr (disposition, pk2, s\<lparr>m_base := b2\<rparr>)))"

definition update_if_requested ::
    "'c sp_env \<Rightarrow> 'c sp \<Rightarrow> ('c sp \<Rightarrow> 'r) \<Rightarrow> ('c sp \<Rightarrow> 'r result) \<Rightarrow> 'r result" where
  "update_if_requested env s failed k =
    (if m_state s \<noteq> m_next_state s then update_or env s failed k else k s)"

definition send_empty_packet :: "'c sp_env \<Rightarrow> u32 \<Rightarrow> iso_packet \<Rightarrow> 'c sp \<Rightarrow> 'c transmitted" where
  "send_empty_packet env pkt_ctr pk s =
    update_if_requested env s (\<lambda>s1. (RAW1394_ISO_ERROR, pk, s1))
      (empty_packet env pkt_ctr RAW1394_ISO_OK pk)"

definition getPacket_data ::
    "'c sp_env \<Rightarrow> u32 \<Rightarrow> eChildReturnValue \<Rightarrow> iso_packet \<Rightarrow> 'c sp \<Rightarrow> 'c transmitted" where
  "getPacket_data env pkt_ctr result pk s =
    bind_result (generatePacketData env pk (m_base s)) (\<lambda>(result2, pk1, b).
    let s1 = s\<lparr>m_base := b\<rparr>
    in if result2 = eCRV_XRun
       then update_or env (request_disable pkt_ctr s1) (\<lambda>s2. (RAW1394_ISO_ERROR, pk1, s2))
              (send_empty_packet env pkt_ctr pk1)
       else if result2 = eCRV_Defer \<or> result = eCRV_Defer then Inr (RAW1394_ISO_DEFER, pk1, s1)
       else Inr (RAW1394_ISO_OK, pk1, s1))"

definition getPacket_running :: "'c sp_env \<Rightarrow> u32 \<Rightarrow> iso_packet \<Rightarrow> u64 \<Rightarrow> 'c sp \<Rightarrow> 'c transmitted" where
  "getPacket_running env pkt_ctr pk prev_timestamp s =
    bind_result (generatePacketHeader env pkt_ctr pk (m_base s)) (\<lambda>(result, pk1, b).
    let s1 = s\<lparr>m_base := b\<rparr>; failed = (\<lambda>s2. (RAW1394_ISO_ERROR, pk1, s2))
    in if result = eCRV_Packet \<or> result = eCRV_Defer
       then update_if_requested env (s1\<lparr>m_last_timestamp2 := prev_timestamp\<rparr>) failed
              (getPacket_data env pkt_ctr result pk1)
       else case result of
         eCRV_XRun \<Rightarrow>
           update_or env (request_disable pkt_ctr s1) failed (send_empty_packet env pkt_ctr pk1)
       | eCRV_EmptyPacket \<Rightarrow>
           update_if_requested env s1 failed (send_empty_packet env pkt_ctr pk1)
       | eCRV_Again \<Rightarrow>
           update_if_requested env s1 failed (empty_packet env pkt_ctr RAW1394_ISO_DEFER pk1)
       | _ \<Rightarrow> Inr (RAW1394_ISO_ERROR, pk1, s1))"

definition getPacket_silent :: "'c sp_env \<Rightarrow> u32 \<Rightarrow> iso_packet \<Rightarrow> 'c sp \<Rightarrow> 'c transmitted" where
  "getPacket_silent env pkt_ctr pk s =
    bind_result (generateSilentPacketHeader env pkt_ctr pk (m_base s)) (\<lambda>(result, pk1, b).
    let s1 = s\<lparr>m_base := b\<rparr>
    in case result of
         eCRV_Packet \<Rightarrow>
           bind_result (generateSilentPacketData env pk1 b) (\<lambda>(_, pk2, b2).
           Inr (RAW1394_ISO_OK, pk2, s1\<lparr>m_base := b2\<rparr>))
       | eCRV_EmptyPacket \<Rightarrow> send_empty_packet env pkt_ctr pk1 s1
       | _ \<Rightarrow> Inr (RAW1394_ISO_ERROR, pk1, s1))"

text \<open>A transition that is made in the cycle it was scheduled for, or in a later one.\<close>

definition switch_when_due ::
    "'c sp_env \<Rightarrow> u32 \<Rightarrow> eProcessorState \<Rightarrow> 'c sp \<Rightarrow> ('c sp \<Rightarrow> 'r) \<Rightarrow> ('c sp \<Rightarrow> 'r result) \<Rightarrow> 'r result" where
  "switch_when_due env pkt_ctr target s failed k =
    (if switch_due pkt_ctr s then update_or env (s\<lparr>m_next_state := target\<rparr>) failed k else k s)"

definition getPacket_normal :: "'c sp_env \<Rightarrow> u32 \<Rightarrow> iso_packet \<Rightarrow> 'c sp \<Rightarrow> 'c transmitted" where
  "getPacket_normal env pkt_ctr pk s =
    (let prev_timestamp = m_last_timestamp (m_base s); failed = (\<lambda>s1. (RAW1394_ISO_ERROR, pk, s1))
     in if m_state s = ePS_WaitingForStreamDisable
        then switch_when_due env pkt_ctr ePS_DryRunning s failed (getPacket_silent env pkt_ctr pk)
        else if m_state s = ePS_WaitingForStreamEnable \<and> m_next_state s = ePS_WaitingForStreamEnable
        then switch_when_due env pkt_ctr ePS_Running s failed (send_empty_packet env pkt_ctr pk)
        else if m_state s = ePS_WaitingForStream
        then switch_when_due env pkt_ctr ePS_DryRunning s failed (send_empty_packet env pkt_ctr pk)
        else if m_state s = ePS_Running then getPacket_running env pkt_ctr pk prev_timestamp s
        else send_empty_packet env pkt_ctr pk s)"

definition no_packet :: "iso_packet \<Rightarrow> iso_packet" where
  "no_packet pk = pk\<lparr>pk_tag := 0, pk_sy := 0, pk_length := 0\<rparr>"

definition getPacket :: "'c sp_env \<Rightarrow> iso_packet \<Rightarrow> u32 \<Rightarrow> u32 \<Rightarrow> u32 \<Rightarrow> u32 \<Rightarrow> 'c sp \<Rightarrow> 'c transmitted" where
  "getPacket env pk pkt_ctr dropped_cycles skipped max_length s =
    (if pkt_ctr = 0xFFFFFFFF then Inr (RAW1394_ISO_OK, no_packet pk, s)
     else if m_state s = ePS_Error then Inr (RAW1394_ISO_OK, pk, s)
     else let s1 = (if 0 < dropped_cycles then s\<lparr>m_in_xrun := True\<rparr> else s)
          in if 0 < dropped_cycles \<and> m_state s1 = ePS_Running
             then update_or env (request_disable pkt_ctr s1) (\<lambda>s2. (RAW1394_ISO_ERROR, pk, s2))
                    (send_empty_packet env pkt_ctr pk)
             else if m_state s1 = ePS_Created then Inr (RAW1394_ISO_DEFER, no_packet pk, s1)
             else getPacket_normal env pkt_ctr pk s1)"

section \<open>Frames\<close>

text \<open>
  Silence for the ports. The two audio formats and the other port types are all cleared quadlet
  by quadlet, since \<open>0.0f\<close> is the quadlet 0.
\<close>

definition provideSilenceToPort :: "u32 \<Rightarrow> u32 \<Rightarrow> port \<Rightarrow> port result" where
  "provideSilenceToPort offset nevents p =
    assert_result (nevents + offset \<le> m_buffersize p) (
    if nevents = 0 then Inr p
    else case Port_getBufferAddress p of
      None \<Rightarrow> Inl NullPointer
    | Some mem \<Rightarrow>
        if unat offset + unat nevents \<le> length mem
        then Inr (p\<lparr>m_buffer := Some (take (unat offset) mem @ replicate (unat nevents) 0
                     @ drop (unat offset + unat nevents) mem)\<rparr>)
        else Inl OutOfBounds)"

fun silence_loop :: "u32 \<Rightarrow> u32 \<Rightarrow> nat list \<Rightarrow> portmanager \<Rightarrow> portmanager result" where
  "silence_loop nevents offset [] pm = Inr pm"
| "silence_loop nevents offset (a # as) pm =
    (if m_disabled (port_at pm a) then silence_loop nevents offset as pm
     else bind_result (provideSilenceToPort offset nevents (port_at pm a)) (\<lambda>p.
          silence_loop nevents offset as (set_port a p pm)))"

definition provideSilenceBlock :: "u32 \<Rightarrow> u32 \<Rightarrow> portmanager \<Rightarrow> (bool \<times> portmanager) result" where
  "provideSilenceBlock nevents offset pm =
    bind_result (silence_loop nevents offset (m_Ports pm) pm) (\<lambda>pm'. Inr (True, pm'))"

text \<open>
  A transfer that goes through the block loop of the buffer returns \<open>None\<close> when that loop does not
  end; the value the buffer returns is dropped, as the code drops it.
\<close>

definition after_blocks ::
    "'c sp \<Rightarrow> (bool \<times> tsbuf \<times> ('c \<times> portmanager)) result option \<Rightarrow> (bool \<times> 'c sp) result option" where
  "after_blocks s r =
    map_option (\<lambda>r. bind_result r (\<lambda>(_, b, c, pm).
      Inr (True, upd_base (\<lambda>x. x\<lparr>m_data_buffer := b, sp_child := c, sp_ports := pm\<rparr>) s))) r"

definition getFramesWet :: "'c sp_env \<Rightarrow> u32 \<Rightarrow> 'c sp \<Rightarrow> (bool \<times> 'c sp) result option" where
  "getFramesWet env nbframes s =
    after_blocks s (blockProcessReadFrames (sp_client env) nbframes (buf s)
      (child s, sp_ports (m_base s)))"

definition getFramesDry :: "u32 \<Rightarrow> 'c sp \<Rightarrow> (bool \<times> 'c sp) result" where
  "getFramesDry nbframes s =
    bind_result (provideSilenceBlock nbframes 0 (sp_ports (m_base s))) (\<lambda>(ok, pm).
    Inr (ok, set_ports pm s))"

definition getFrames :: "'c sp_env \<Rightarrow> u32 \<Rightarrow> 'c sp \<Rightarrow> (bool \<times> 'c sp) result option" where
  "getFrames env nbframes s =
    (if m_processor_type s \<noteq> ePT_Receive then Some (Inl AssertFailed)
     else if m_state s = ePS_DryRunning then Some (getFramesDry nbframes s)
     else getFramesWet env nbframes s)"

definition SP_dropFrames :: "u32 \<Rightarrow> 'c sp \<Rightarrow> (bool \<times> 'c sp) result" where
  "SP_dropFrames nbframes s = on_buffer (dropFrames nbframes) s"

definition putFramesWet :: "'c sp_env \<Rightarrow> u32 \<Rightarrow> u64 \<Rightarrow> 'c sp \<Rightarrow> (bool \<times> 'c sp) result option" where
  "putFramesWet env nbframes ts s =
    after_blocks s (blockProcessWriteFrames (sp_client env) nbframes (rd (of_int (sint ts))) (buf s)
      (child s, sp_ports (m_base s)))"

definition putFramesDry :: "'c sp \<Rightarrow> (bool \<times> 'c sp) result" where
  "putFramesDry s = Inr (True, s)"

definition putFrames :: "'c sp_env \<Rightarrow> u32 \<Rightarrow> u64 \<Rightarrow> 'c sp \<Rightarrow> (bool \<times> 'c sp) result option" where
  "putFrames env nbframes ts s =
    (if m_processor_type s \<noteq> ePT_Transmit then Some (Inl AssertFailed)
     else if m_state s = ePS_DryRunning then Some (putFramesDry s)
     else putFramesWet env nbframes ts s)"

definition putSilenceFrames :: "'c sp_env \<Rightarrow> u32 \<Rightarrow> u64 \<Rightarrow> 'c sp \<Rightarrow> (bool \<times> 'c sp) result" where
  "putSilenceFrames env nbframes ts s =
    (if getEventSize env (child s) * getEventsPerFrame env (child s) = 0 then Inl DivByZero
     else case m_scratch_buffer (m_base s) of
       None \<Rightarrow> Inl AssertFailed
     | Some scratch \<Rightarrow>
         bind_result (transmitSilenceBlock env scratch nbframes 0 (m_base s)) (\<lambda>(ok, scratch', b).
         let s1 = s\<lparr>m_base := b\<lparr>m_scratch_buffer := Some scratch'\<rparr>\<rparr>
         in if \<not> ok then Inr (False, s1)
            else on_buffer (writeFrames nbframes scratch' (rd (of_int (sint ts)))) s1))"

definition shiftStream :: "u32 \<Rightarrow> 'c sp \<Rightarrow> (bool \<times> 'c sp) result" where
  "shiftStream nbframes s =
    (if nbframes = 0 then Inr (True, s)
     else if 0 <s nbframes then on_buffer (dropFrames nbframes) s
     else Inr (False, s))"

definition canProduce :: "u32 \<Rightarrow> 'c sp \<Rightarrow> bool result" where
  "canProduce nframes s =
    (if m_in_xrun s then Inr True
     else if m_state s = ePS_Running \<and> m_next_state s = ePS_Running
     then bind_result (getBufferSpace (buf s)) (\<lambda>bufferspace. Inr (nframes \<le> bufferspace))
     else Inr (m_processor_type s \<noteq> ePT_Transmit))"

definition canConsume :: "u32 \<Rightarrow> 'c sp \<Rightarrow> bool" where
  "canConsume nframes s =
    (if m_in_xrun s then True
     else if m_state s = ePS_Running \<and> m_next_state s = ePS_Running
     then nframes \<le> getBufferFill (buf s)
     else m_processor_type s = ePT_Transmit)"

definition canProducePacket :: "'c sp_env \<Rightarrow> 'c sp \<Rightarrow> bool result" where
  "canProducePacket env s = canProduce (getNominalFramesPerPacket env (child s)) s"

definition canProducePeriod :: "'c sp_env \<Rightarrow> 'c sp \<Rightarrow> bool result" where
  "canProducePeriod env s = canProduce (getPeriodSize env) s"

definition canConsumePacket :: "'c sp_env \<Rightarrow> 'c sp \<Rightarrow> bool" where
  "canConsumePacket env s = canConsume (getNominalFramesPerPacket env (child s)) s"

definition canConsumePeriod :: "'c sp_env \<Rightarrow> 'c sp \<Rightarrow> bool" where
  "canConsumePeriod env s = canConsume (getPeriodSize env) s"

section \<open>Frame lemmas\<close>

lemma set_private [simp]:
  "m_state (upd_base f s) = m_state s" "m_next_state (upd_base f s) = m_next_state s"
  "m_in_xrun (upd_base f s) = m_in_xrun s" "m_processor_type (upd_base f s) = m_processor_type s"
  "m_cycle_to_switch_state (upd_base f s) = m_cycle_to_switch_state s"
  "m_last_timestamp2 (upd_base f s) = m_last_timestamp2 s"
  "m_channel (upd_base f s) = m_channel s" "m_base (upd_base f s) = f (m_base s)"
  by (simp_all add: upd_base_def)

lemmas base_setters = set_buffer_def set_ports_def set_last_timestamp_def
  set_correct_last_timestamp_def set_local_node_id_def

end
