(* ===== verification/StreamStates.thy ===== *)
theory StreamStates
  imports StreamProcessor
begin

text \<open>
  The control part of a stream processor. An abstract machine over the state, the requested state
  and the xrun flag states what may happen to a stream; every public operation of
  \<^typ>\<open>'c sp\<close> is shown to be a sequence of its steps, for any subclass and any answers of the
  managers. The invariants of the abstract machine, proved by rule induction, carry over to every
  reachable stream processor.
\<close>

section \<open>The abstract machine\<close>

type_synonym control = "eProcessorState \<times> eProcessorState \<times> bool"

definition transitions :: "(eProcessorState \<times> eProcessorState) set" where
  "transitions =
    {(ePS_Created, ePS_Stopped), (ePS_Stopped, ePS_WaitingForStream),
     (ePS_WaitingForStream, ePS_DryRunning), (ePS_DryRunning, ePS_Stopped),
     (ePS_DryRunning, ePS_WaitingForStreamEnable), (ePS_WaitingForStreamEnable, ePS_DryRunning),
     (ePS_WaitingForStreamEnable, ePS_Running), (ePS_Running, ePS_WaitingForStreamDisable),
     (ePS_WaitingForStreamDisable, ePS_DryRunning)}"

inductive ctl_step :: "control \<Rightarrow> control \<Rightarrow> bool" where
  request: "nx' \<noteq> ePS_Invalid \<Longrightarrow> ctl_step (st, nx, x) (st, nx', x)"
| move: "(st, nx) \<in> transitions \<Longrightarrow> nx \<noteq> ePS_Running \<Longrightarrow> ctl_step (st, nx, x) (nx, nx, x)"
| enable: "ctl_step (ePS_WaitingForStreamEnable, ePS_Running, x) (ePS_Running, ePS_Running, False)"
| xrun: "st \<noteq> ePS_Running \<Longrightarrow> ctl_step (st, nx, x) (st, nx, True)"
| disable: "ctl_step (ePS_Running, nx, x) (ePS_WaitingForStreamDisable, ePS_WaitingForStreamDisable, True)"
| bus_reset: "ctl_step (st, nx, x) (ePS_Error, nx, True)"
| died: "ctl_step (st, nx, x) (ePS_Stopped, nx, True)"
| stopped: "ctl_step (st, nx, x) (ePS_Stopped, ePS_Stopped, x)"

abbreviation ctl_steps :: "control \<Rightarrow> control \<Rightarrow> bool" where
  "ctl_steps \<equiv> ctl_step\<^sup>*\<^sup>*"

inductive_cases ctl_stepE: "ctl_step c c'"

definition ctl_inv :: "control \<Rightarrow> bool" where
  "ctl_inv c = (case c of (st, nx, x) \<Rightarrow>
    st \<noteq> ePS_Invalid \<and> (st = ePS_Running \<longrightarrow> \<not> x)
    \<and> (nx = ePS_Invalid \<longrightarrow> st \<in> {ePS_Created, ePS_Error, ePS_Stopped}))"

lemma ctl_step_inv: "ctl_step c c' \<Longrightarrow> ctl_inv c \<Longrightarrow> ctl_inv c'"
  by (induction rule: ctl_step.induct) (auto simp: ctl_inv_def transitions_def)

lemma ctl_steps_inv: "ctl_steps c c' \<Longrightarrow> ctl_inv c \<Longrightarrow> ctl_inv c'"
  by (induction rule: rtranclp_induct) (auto intro: ctl_step_inv)

section \<open>Frames of the operations\<close>

definition ctl :: "'c sp \<Rightarrow> control" where
  "ctl s = (m_state s, m_next_state s, m_in_xrun s)"

text \<open>What only the constructor sets.\<close>

definition fixed :: "'c sp \<Rightarrow> eProcessorType" where
  "fixed s = m_processor_type s"

lemma ctl_base [simp]: "ctl (upd_base f s) = ctl s" "ctl (s\<lparr>m_base := b\<rparr>) = ctl s"
  by (simp_all add: ctl_def)

lemma fixed_base [simp]: "fixed (upd_base f s) = fixed s" "fixed (s\<lparr>m_base := b\<rparr>) = fixed s"
  by (simp_all add: fixed_def)

lemma ctl_setters [simp]:
  "ctl (set_buffer b s) = ctl s" "ctl (set_ports pm s) = ctl s"
  "ctl (set_last_timestamp t s) = ctl s" "ctl (set_correct_last_timestamp f s) = ctl s"
  "ctl (set_local_node_id n s) = ctl s"
  by (simp_all add: base_setters)

lemma fixed_setters [simp]:
  "fixed (set_buffer b s) = fixed s" "fixed (set_ports pm s) = fixed s"
  "fixed (set_last_timestamp t s) = fixed s" "fixed (set_correct_last_timestamp f s) = fixed s"
  "fixed (set_local_node_id n s) = fixed s"
  by (simp_all add: base_setters)

lemma state_setters [simp]:
  "m_state (set_buffer b s) = m_state s" "m_state (set_ports pm s) = m_state s"
  "m_state (set_last_timestamp t s) = m_state s"
  "m_state (set_correct_last_timestamp f s) = m_state s" "m_state (set_local_node_id n s) = m_state s"
  "m_next_state (set_buffer b s) = m_next_state s" "m_next_state (set_ports pm s) = m_next_state s"
  "m_next_state (set_last_timestamp t s) = m_next_state s"
  "m_next_state (set_correct_last_timestamp f s) = m_next_state s"
  "m_next_state (set_local_node_id n s) = m_next_state s"
  "m_cycle_to_switch_state (set_buffer b s) = m_cycle_to_switch_state s"
  "m_cycle_to_switch_state (set_ports pm s) = m_cycle_to_switch_state s"
  "m_cycle_to_switch_state (set_last_timestamp t s) = m_cycle_to_switch_state s"
  "m_cycle_to_switch_state (set_correct_last_timestamp f s) = m_cycle_to_switch_state s"
  "m_cycle_to_switch_state (set_local_node_id n s) = m_cycle_to_switch_state s"
  by (simp_all add: base_setters)

lemma on_buffer_Inr_iff:
  "on_buffer f s = Inr (ok, s') \<longleftrightarrow> (\<exists>b. f (buf s) = Inr (ok, b) \<and> s' = set_buffer b s)"
  by (auto simp: on_buffer_def bind_result_Inr_iff)

lemma ctl_eqD: "ctl s = ctl t \<Longrightarrow> m_state s = m_state t \<and> m_next_state s = m_next_state t"
  by (simp add: ctl_def)

text \<open>An operation that only changes what subclasses share.\<close>

lemma upd_base_iff: "(\<exists>f. s' = upd_base f s) \<longleftrightarrow> s' = s\<lparr>m_base := m_base s'\<rparr>"
  by (auto simp: upd_base_def intro: exI [of _ "\<lambda>_. m_base s'"])

lemma setupDataBuffer_frame:
  "setupDataBuffer env s = Inr (ok, s') \<Longrightarrow> \<exists>f. s' = upd_base f s"
  unfolding upd_base_iff
  by (auto simp: setupDataBuffer_def Let_def case_prod_unfold bind_result_Inr_iff base_setters upd_base_def
      split: if_splits)

lemma transferSilence_frame:
  "transferSilence env n s = Inr (ok, s') \<Longrightarrow> \<exists>f. s' = upd_base f s"
  unfolding upd_base_iff
  by (auto simp: transferSilence_def Let_def case_prod_unfold bind_result_Inr_iff on_buffer_Inr_iff
      base_setters upd_base_def)

section \<open>The transitions\<close>

text \<open>
  What an attempt of a transition may do: nothing, or enter the requested state, which also resets
  the xrun flag when that state is \<open>ePS_Running\<close>.
\<close>

definition entered :: "'c sp \<Rightarrow> 'c sp \<Rightarrow> bool" where
  "entered s s' \<longleftrightarrow>
    ctl s' = (m_next_state s, m_next_state s, m_next_state s \<noteq> ePS_Running \<and> m_in_xrun s)
    \<and> fixed s' = fixed s \<and> m_cycle_to_switch_state s' = m_cycle_to_switch_state s"

definition stayed :: "'c sp \<Rightarrow> 'c sp \<Rightarrow> bool" where
  "stayed s s' \<longleftrightarrow> ctl s' = ctl s \<and> fixed s' = fixed s
    \<and> m_cycle_to_switch_state s' = m_cycle_to_switch_state s"

lemma stayed_upd_base [simp]: "stayed s (upd_base f s)"
  by (simp add: stayed_def)

lemma stayed_refl [simp]: "stayed s s"
  by (simp add: stayed_def)

lemma doStop_finish_effect:
  "doStop_finish r s = Inr (ok, s') \<Longrightarrow>
    ctl s' = (ePS_Stopped, m_next_state s, m_in_xrun s) \<and> fixed s' = fixed s
    \<and> m_cycle_to_switch_state s' = m_cycle_to_switch_state s"
  by (auto simp: doStop_finish_def Let_def case_prod_unfold bind_result_Inr_iff on_buffer_Inr_iff
      ctl_def fixed_def base_setters)

lemma doStop_effect:
  assumes "doStop env s = Inr (ok, s')" "m_next_state s = ePS_Stopped"
  shows "entered s s' \<or> \<not> ok \<and> s' = s"
  using assms
  by (auto simp: doStop_def Let_def case_prod_unfold bind_result_Inr_iff entered_def
      dest!: setupDataBuffer_frame doStop_finish_effect
      split: eProcessorState.splits if_splits)

lemma doDryRunning_effect:
  assumes "doDryRunning env s = Inr (ok, s')" "m_next_state s = ePS_DryRunning"
  shows "entered s s' \<or> \<not> ok \<and> s' = s"
  using assms
  by (cases "m_state s")
    (auto simp: doDryRunning_def Let_def case_prod_unfold bind_result_Inr_iff on_buffer_Inr_iff
      entered_def ctl_def fixed_def base_setters split: if_splits)

lemma entered_upd_base [simp]: "entered (upd_base f s) s' = entered s s'"
  by (simp add: entered_def)

lemma stayed_upd_base_left [simp]: "stayed (upd_base f s) s' = stayed s s'"
  by (simp add: stayed_def)

lemma doWaitForStreamEnable_effect:
  assumes "doWaitForStreamEnable env s = Inr (ok, s')" "m_next_state s = ePS_WaitingForStreamEnable"
  shows "ok \<and> entered s s' \<or> \<not> ok \<and> stayed s s'"
proof (cases "m_state s = ePS_DryRunning")
  case False
  then show ?thesis using assms by (cases "m_state s") (simp_all add: doWaitForStreamEnable_def)
next
  case True
  have enter: "entered s (upd_base f s\<lparr>m_state := ePS_WaitingForStreamEnable\<rparr>)" for f
    using assms(2) by (simp add: entered_def ctl_def fixed_def)
  obtain ok1 b where b: "resizeBuffer (heap_bytes env) (ringbuffer_size_frames env s) (buf s) = Inr (ok1, b)"
    using assms(1) True
    by (auto simp: doWaitForStreamEnable_def bind_result_Inr_iff on_buffer_Inr_iff case_prod_unfold)
  define s1 where "s1 = set_buffer b s"
  obtain f where s1: "s1 = upd_base f s" by (auto simp: s1_def set_buffer_def)
  have step: "doWaitForStreamEnable env s =
      (if \<not> ok1 then Inr (False, s1)
       else if m_processor_type s1 = ePT_Transmit
       then bind_result (transferSilence env (getNbBuffers env * getPeriodSize env
                 + m_extra_buffer_frames (m_base s1)) s1) (\<lambda>(ok2, s2).
              if \<not> ok2 then Inr (False, s2)
              else Inr (True, s2\<lparr>m_state := ePS_WaitingForStreamEnable\<rparr>))
       else Inr (True, s1\<lparr>m_state := ePS_WaitingForStreamEnable\<rparr>))"
    using True b by (simp add: doWaitForStreamEnable_def on_buffer_def s1_def Let_def)
  consider "\<not> ok1" | "ok1" "m_processor_type s1 \<noteq> ePT_Transmit" | "ok1" "m_processor_type s1 = ePT_Transmit"
    by blast
  then show ?thesis
  proof cases
    case 1
    then show ?thesis using assms(1) step s1 by auto
  next
    case 2
    then show ?thesis using assms(1) step s1 enter [of f] by auto
  next
    case 3
    then obtain ok2 s2 where s2: "transferSilence env (getNbBuffers env * getPeriodSize env
          + m_extra_buffer_frames (m_base s1)) s1 = Inr (ok2, s2)"
      using assms(1) step by (auto simp: bind_result_Inr_iff)
    obtain g where g: "s2 = upd_base g s1" using transferSilence_frame [OF s2] by blast
    then have "s2 = upd_base (\<lambda>x. g (f x)) s" by (simp add: s1 upd_base_def)
    then show ?thesis
      using assms(1) step s2 3 enter [of "\<lambda>x. g (f x)"] by (auto split: if_splits)
  qed
qed

lemma doRunning_effect:
  assumes "doRunning env s = (ok, s')" "m_next_state s = ePS_Running"
  shows "entered s s' \<or> \<not> ok \<and> s' = s"
  using assms
  by (cases "m_state s")
    (auto simp: doRunning_def Let_def case_prod_unfold entered_def ctl_def fixed_def base_setters)

lemma updateState_identity: "m_state s = m_next_state s \<Longrightarrow> updateState env s = Inr (True, s)"
  by (simp add: updateState_def)

lemma updateState_refused:
  "m_state s \<noteq> m_next_state s \<Longrightarrow> (m_state s, m_next_state s) \<notin> transitions
    \<Longrightarrow> updateState env s = Inr (False, s)"
  by (cases "m_state s"; cases "m_next_state s") (simp_all add: updateState_def transitions_def)

lemma doWaitForRunningStream_effect:
  "doWaitForRunningStream s = (ok, s') \<Longrightarrow> m_next_state s = ePS_WaitingForStream
    \<Longrightarrow> entered s s' \<or> \<not> ok \<and> s' = s"
  by (cases "m_state s") (auto simp: doWaitForRunningStream_def entered_def ctl_def fixed_def)

lemma doWaitForStreamDisable_effect:
  "doWaitForStreamDisable s = (ok, s') \<Longrightarrow> m_next_state s = ePS_WaitingForStreamDisable
    \<Longrightarrow> entered s s' \<or> \<not> ok \<and> s' = s"
  by (cases "m_state s") (auto simp: doWaitForStreamDisable_def entered_def ctl_def fixed_def)

lemma updateState_dispatch:
  assumes "(m_state s, m_next_state s) \<in> transitions"
  shows "updateState env s =
    (case m_next_state s of
       ePS_Stopped \<Rightarrow> doStop env s
     | ePS_WaitingForStream \<Rightarrow> Inr (doWaitForRunningStream s)
     | ePS_DryRunning \<Rightarrow> doDryRunning env s
     | ePS_WaitingForStreamEnable \<Rightarrow> doWaitForStreamEnable env s
     | ePS_Running \<Rightarrow> Inr (doRunning env s)
     | _ \<Rightarrow> Inr (doWaitForStreamDisable s))"
  using assms by (cases "m_next_state s") (auto simp: updateState_def transitions_def)

lemma updateState_allowed:
  assumes "updateState env s = Inr (ok, s')" "(m_state s, m_next_state s) \<in> transitions"
  shows "entered s s' \<or> \<not> ok \<and> stayed s s'"
proof (cases "m_next_state s")
  case ePS_Stopped
  then show ?thesis using assms doStop_effect [of env s ok s'] by (auto simp: updateState_dispatch)
next
  case ePS_WaitingForStream
  then show ?thesis
    using assms doWaitForRunningStream_effect [of s ok s'] by (auto simp: updateState_dispatch)
next
  case ePS_DryRunning
  then show ?thesis using assms doDryRunning_effect [of env s ok s'] by (auto simp: updateState_dispatch)
next
  case ePS_WaitingForStreamEnable
  then show ?thesis
    using assms doWaitForStreamEnable_effect [of env s ok s'] by (auto simp: updateState_dispatch)
next
  case ePS_Running
  then show ?thesis using assms doRunning_effect [of env s ok s'] by (auto simp: updateState_dispatch)
next
  case ePS_WaitingForStreamDisable
  then show ?thesis
    using assms doWaitForStreamDisable_effect [of s ok s'] by (auto simp: updateState_dispatch)
qed (use assms in \<open>auto simp: transitions_def\<close>)

text \<open>
  What the transitions of the table depend on, in terms of the calls they make: stopping on the
  set-up of the buffer or on the handler, enabling on the new buffer and, for a transmit stream, on
  the silence that fills it, running on the bandwidth of the loop, and whatever clears the buffer
  on its being there.
\<close>

definition succeeds :: "(bool \<times> 'r) result \<Rightarrow> ('r \<Rightarrow> bool) \<Rightarrow> bool" where
  "succeeds r P = (case r of Inl _ \<Rightarrow> False | Inr (ok, x) \<Rightarrow> ok \<and> P x)"

definition has_buffer :: "'c sp \<Rightarrow> bool" where
  "has_buffer s \<longleftrightarrow> m_event_buffer (buf s) \<noteq> None"

definition created_settings :: "'c sp_env \<Rightarrow> 'c sp \<Rightarrow> 'c sp" where
  "created_settings env s =
    upd_base (\<lambda>x. x\<lparr>m_ticks_per_frame := rf (rd (24576000 / u2f (getNominalRate env))),
      m_local_node_id := getLocalNodeId env AND 0x3f, m_correct_last_timestamp := False\<rparr>) s"

definition transition_succeeds :: "'c sp_env \<Rightarrow> 'c sp \<Rightarrow> bool" where
  "transition_succeeds env s =
    (case m_next_state s of
       ePS_Stopped \<Rightarrow>
         (if m_state s = ePS_Created
          then getNominalRate env \<noteq> 0 \<and> succeeds (setupDataBuffer env (created_settings env s)) has_buffer
          else stopHandlerForStream env \<and> has_buffer s)
     | ePS_DryRunning \<Rightarrow> m_state s = ePS_WaitingForStream \<or> has_buffer s
     | ePS_WaitingForStreamEnable \<Rightarrow>
         succeeds (on_buffer (resizeBuffer (heap_bytes env) (ringbuffer_size_frames env s)) s)
           (\<lambda>s1. m_processor_type s = ePT_Transmit \<longrightarrow>
             succeeds (transferSilence env
               (getNbBuffers env * getPeriodSize env + m_extra_buffer_frames (m_base s1)) s1) (\<lambda>_. True))
     | ePS_Running \<Rightarrow> fst (setBandwidth (rd (m_dll_bandwidth_hz (m_base s) / 24576000)) (buf s))
     | _ \<Rightarrow> True)"

lemma succeeds_iff: "succeeds r P \<longleftrightarrow> (\<exists>x. r = Inr (True, x) \<and> P x)"
  by (auto simp: succeeds_def split: sum.splits)

lemma preparePorts_True [simp]: "fst (preparePorts pm)"
proof -
  have "fst (port_loop Port_prepare as pm)" for as
    by (induction as arbitrary: pm) (simp_all add: Port_prepare_def)
  then show ?thesis by (simp add: preparePorts_def)
qed

lemma clearBuffer_succeeds:
  "(\<exists>s'. on_buffer clearBuffer s = Inr (ok, s')) \<longleftrightarrow> ok \<and> has_buffer s"
  by (auto simp: on_buffer_def clearBuffer_def with_buffer_def has_buffer_def split: option.splits)

lemma doStop_finish_succeeds: "(\<exists>s'. doStop_finish r s = Inr (ok, s')) \<longleftrightarrow> (ok \<longleftrightarrow> r) \<and> has_buffer s"
  using clearBuffer_succeeds [of s True] clearBuffer_succeeds [of s False] preparePorts_True
  by (auto simp: doStop_finish_def Let_def case_prod_unfold bind_result_Inr_iff)

lemma doStop_succeeds:
  assumes "m_state s = ePS_Created \<or> m_state s = ePS_DryRunning" "m_next_state s = ePS_Stopped"
  shows "(\<exists>s'. doStop env s = Inr (True, s')) \<longleftrightarrow> transition_succeeds env s"
proof (cases "m_state s = ePS_Created")
  case True
  have "doStop env s = (if getNominalRate env = 0 then Inl NotFinite
      else bind_result (setupDataBuffer env (created_settings env s)) (\<lambda>(r, s2). doStop_finish r s2))"
    using True by (simp add: doStop_def created_settings_def Let_def)
  moreover have "(\<exists>s'. bind_result (setupDataBuffer env (created_settings env s)) (\<lambda>(r, s2). doStop_finish r s2)
        = Inr (True, s'))
      \<longleftrightarrow> succeeds (setupDataBuffer env (created_settings env s)) has_buffer"
  proof (cases "setupDataBuffer env (created_settings env s)")
    case (Inr x)
    then show ?thesis
      using doStop_finish_succeeds [of "fst x" "snd x" True] by (cases x) (simp add: succeeds_def)
  qed (simp add: succeeds_def)
  ultimately show ?thesis using True assms(2) by (simp add: transition_succeeds_def)
next
  case False
  then have "m_state s = ePS_DryRunning" using assms(1) by blast
  then show ?thesis
    using assms(2) doStop_finish_succeeds [of True s True] by (simp add: doStop_def transition_succeeds_def)
qed

lemma doDryRunning_succeeds:
  assumes "m_state s \<in> {ePS_WaitingForStream, ePS_WaitingForStreamEnable, ePS_WaitingForStreamDisable}"
    "m_next_state s = ePS_DryRunning"
  shows "(\<exists>s'. doDryRunning env s = Inr (True, s')) \<longleftrightarrow> transition_succeeds env s"
  using assms clearBuffer_succeeds [of s True]
  by (auto simp: doDryRunning_def transition_succeeds_def Let_def bind_result_Inr_iff case_prod_unfold)

lemma doWaitForStreamEnable_succeeds:
  assumes "m_state s = ePS_DryRunning" "m_next_state s = ePS_WaitingForStreamEnable"
  shows "(\<exists>s'. doWaitForStreamEnable env s = Inr (True, s')) \<longleftrightarrow> transition_succeeds env s"
proof -
  let ?r = "on_buffer (resizeBuffer (heap_bytes env) (ringbuffer_size_frames env s)) s"
  note defs = doWaitForStreamEnable_def transition_succeeds_def succeeds_def assms
  consider e where "?r = Inl e" | ok1 s1 where "?r = Inr (ok1, s1)" by (cases ?r) auto
  then show ?thesis
  proof cases
    case 1
    then show ?thesis by (simp add: defs)
  next
    case 2
    let ?t = "transferSilence env (getNbBuffers env * getPeriodSize env + m_extra_buffer_frames (m_base s1)) s1"
    have "m_processor_type s1 = m_processor_type s" using 2 by (auto simp: on_buffer_Inr_iff set_buffer_def)
    then show ?thesis
      using 2 by (cases ?t) (auto simp: defs Let_def split: if_splits)
  qed
qed

lemma doRunning_succeeds:
  assumes "m_state s = ePS_WaitingForStreamEnable" "m_next_state s = ePS_Running"
  shows "fst (doRunning env s) \<longleftrightarrow> transition_succeeds env s"
  using assms by (simp add: doRunning_def transition_succeeds_def Let_def case_prod_unfold base_setters)

lemma updateState_succeeds:
  assumes "(m_state s, m_next_state s) \<in> transitions"
  shows "(\<exists>s'. updateState env s = Inr (True, s')) \<longleftrightarrow> transition_succeeds env s"
proof (cases "m_next_state s")
  case ePS_Stopped
  then show ?thesis
    using assms doStop_succeeds [of s env] by (simp add: updateState_dispatch) (auto simp: transitions_def)
next
  case ePS_DryRunning
  then show ?thesis
    using assms doDryRunning_succeeds [of s env] by (simp add: updateState_dispatch) (auto simp: transitions_def)
next
  case ePS_WaitingForStreamEnable
  then show ?thesis
    using assms doWaitForStreamEnable_succeeds [of s env]
    by (simp add: updateState_dispatch) (auto simp: transitions_def)
next
  case ePS_Running
  then have "m_state s = ePS_WaitingForStreamEnable" using assms by (simp add: transitions_def)
  then show ?thesis
    using ePS_Running assms doRunning_succeeds [of s env]
    by (cases "doRunning env s") (simp add: updateState_dispatch)
qed (use assms in \<open>auto simp: transitions_def updateState_def transition_succeeds_def
    doWaitForRunningStream_def doWaitForStreamDisable_def\<close>)

text \<open>Where a failing transition leaves the stream: a dry-running stream dry-runs on, all others have
  made the transition.\<close>

lemma updateState_target:
  assumes "updateState env s = Inr (ok, s')" "(m_state s, m_next_state s) \<in> transitions"
    "m_state s \<noteq> ePS_DryRunning"
  shows "m_state s' = m_next_state s"
proof (cases "m_next_state s")
  case ePS_Stopped
  then have "m_state s = ePS_Created" using assms(2,3) by (auto simp: transitions_def)
  then obtain r s2 where "doStop_finish r s2 = Inr (ok, s')"
    using assms(1,2) ePS_Stopped
    by (auto simp: updateState_dispatch doStop_def Let_def bind_result_Inr_iff split: if_splits)
  then show ?thesis using ePS_Stopped doStop_finish_effect [of r s2 ok s'] by (simp add: ctl_def)
next
  case ePS_DryRunning
  then show ?thesis
    using assms by (auto simp: updateState_dispatch transitions_def doDryRunning_def Let_def bind_result_Inr_iff)
next
  case ePS_Running
  then show ?thesis
    using assms by (auto simp: updateState_dispatch transitions_def doRunning_def Let_def case_prod_unfold)
qed (use assms in \<open>auto simp: transitions_def updateState_def doWaitForRunningStream_def doWaitForStreamDisable_def\<close>)

lemma updateState_failed:
  assumes "updateState env s = Inr (False, s')" "(m_state s, m_next_state s) \<in> transitions"
    "m_state s = ePS_DryRunning"
  shows "m_state s' = ePS_DryRunning"
proof -
  consider "m_next_state s = ePS_Stopped" | "m_next_state s = ePS_WaitingForStreamEnable"
    using assms(2,3) by (auto simp: transitions_def)
  then show ?thesis
  proof cases
    case 1
    then show ?thesis
      using assms doStop_finish_succeeds [of True s False]
      by (auto simp: updateState_dispatch doStop_def split: if_splits)
  next
    case 2
    then show ?thesis
      using assms doWaitForStreamEnable_effect [of env s False s']
      by (auto simp: updateState_dispatch stayed_def ctl_def)
  qed
qed

section \<open>Invariants of the packet side\<close>

text \<open>A property of every value that a computation returns.\<close>

definition ensures :: "('r \<Rightarrow> bool) \<Rightarrow> 'r result \<Rightarrow> bool" where
  "ensures P r \<longleftrightarrow> (\<forall>x. r = Inr x \<longrightarrow> P x)"

lemma ensures_Inr [simp]: "ensures P (Inr x) = P x"
  by (simp add: ensures_def)

lemma ensures_bind: "ensures (\<lambda>x. ensures P (f x)) r \<Longrightarrow> ensures P (bind_result r f)"
  by (auto simp: ensures_def bind_result_Inr_iff)

lemma ensures_bindI:
  "ensures Q r \<Longrightarrow> (\<And>x. Q x \<Longrightarrow> ensures P (f x)) \<Longrightarrow> ensures P (bind_result r f)"
  by (auto simp: ensures_def bind_result_Inr_iff)

lemma ensuresD: "ensures P r \<Longrightarrow> r = Inr x \<Longrightarrow> P x"
  by (simp add: ensures_def)

lemma ensuresI: "(\<And>x. r = Inr x \<Longrightarrow> P x) \<Longrightarrow> ensures P r"
  by (simp add: ensures_def)

text \<open>
  The contract between the packet functions and a property of the stream processor: when the
  property survives the transitions, the requests, the calls of the subclass and the few direct
  assignments, it survives \<open>putPacket\<close> and \<open>getPacket\<close> on every path.
\<close>

locale packet_invariant =
  fixes I :: "'c sp \<Rightarrow> bool" and env :: "'c sp_env"
  assumes update: "I s \<Longrightarrow> updateState env s = Inr (ok, s') \<Longrightarrow> I s'"
    and xrun_update: "I s \<Longrightarrow> updateState env (request_disable p s) = Inr (ok, s') \<Longrightarrow> I s'"
    and request: "I s \<Longrightarrow> nx \<noteq> ePS_Invalid \<Longrightarrow> I (s\<lparr>m_next_state := nx\<rparr>)"
    and stamp: "I s \<Longrightarrow> I (s\<lparr>m_last_timestamp2 := t\<rparr>)"
    and flag_xrun: "I s \<Longrightarrow> m_state s \<noteq> ePS_Running \<Longrightarrow> I (s\<lparr>m_in_xrun := True\<rparr>)"
    and correct: "I s \<Longrightarrow> I (set_correct_last_timestamp f s)"
    and tail: "I s \<Longrightarrow> I (set_buffer (setBufferTailTimestamp x (buf s)) s)"
    and receive_header: "I s \<Longrightarrow> processPacketHeader env d l tg y p (m_base s) = Inr (r, b) \<Longrightarrow> I (s\<lparr>m_base := b\<rparr>)"
    and receive_data: "I s \<Longrightarrow> processPacketData env d l (m_base s) = Inr (r, b) \<Longrightarrow> I (s\<lparr>m_base := b\<rparr>)"
    and packet_header: "I s \<Longrightarrow> generatePacketHeader env p pk (m_base s) = Inr (r, pk', b) \<Longrightarrow> I (s\<lparr>m_base := b\<rparr>)"
    and packet_data: "I s \<Longrightarrow> generatePacketData env pk (m_base s) = Inr (r, pk', b) \<Longrightarrow> I (s\<lparr>m_base := b\<rparr>)"
    and empty_header: "I s \<Longrightarrow> generateEmptyPacketHeader env p pk (m_base s) = Inr (r, pk', b) \<Longrightarrow> I (s\<lparr>m_base := b\<rparr>)"
    and empty_data: "I s \<Longrightarrow> generateEmptyPacketData env pk (m_base s) = Inr (r, pk', b) \<Longrightarrow> I (s\<lparr>m_base := b\<rparr>)"
    and silent_header: "I s \<Longrightarrow> generateSilentPacketHeader env p pk (m_base s) = Inr (r, pk', b) \<Longrightarrow> I (s\<lparr>m_base := b\<rparr>)"
    and silent_data: "I s \<Longrightarrow> generateSilentPacketData env pk (m_base s) = Inr (r, pk', b) \<Longrightarrow> I (s\<lparr>m_base := b\<rparr>)"
begin

lemma update_or_ensures:
  assumes "I s" "\<And>s1. I s1 \<Longrightarrow> P (failed s1)" "\<And>s1. I s1 \<Longrightarrow> ensures P (k s1)"
  shows "ensures P (update_or env s failed k)"
  unfolding update_or_def
  by (rule ensures_bind, rule ensuresI) (use assms update in \<open>auto split: prod.splits\<close>)

lemma xrun_update_ensures:
  assumes "I s" "\<And>s1. I s1 \<Longrightarrow> P (failed s1)" "\<And>s1. I s1 \<Longrightarrow> ensures P (k s1)"
  shows "ensures P (update_or env (request_disable p s) failed k)"
  unfolding update_or_def
  by (rule ensures_bind, rule ensuresI) (use assms xrun_update in \<open>auto split: prod.splits\<close>)

lemma update_if_requested_ensures:
  assumes "I s" "\<And>s1. I s1 \<Longrightarrow> P (failed s1)" "\<And>s1. I s1 \<Longrightarrow> ensures P (k s1)"
  shows "ensures P (update_if_requested env s failed k)"
  using assms by (simp add: update_if_requested_def update_or_ensures)

lemma switch_when_due_ensures:
  assumes "I s" "nx \<noteq> ePS_Invalid" "\<And>s1. I s1 \<Longrightarrow> P (failed s1)" "\<And>s1. I s1 \<Longrightarrow> ensures P (k s1)"
  shows "ensures P (switch_when_due env p nx s failed k)"
  using assms by (simp add: switch_when_due_def update_or_ensures request)

lemma putPacket_data_ensures: "I s \<Longrightarrow> ensures (\<lambda>(d, s'). I s') (putPacket_data env data len p s)"
  unfolding putPacket_data_def
  by (rule ensures_bind, rule ensuresI)
    (auto simp: Let_def split: eChildReturnValue.splits dest: receive_data intro!: xrun_update_ensures)

lemma correct_timestamp_I: "I s \<Longrightarrow> I (correct_timestamp env s)"
  by (simp add: correct_timestamp_def Let_def correct tail)

lemma putPacket_ok_ensures:
  assumes "I s0"
  shows "ensures (\<lambda>(d, s'). I s') (putPacket_ok env data len p s0)"
proof -
  have I: "I (correct_timestamp env s0)" by (rule correct_timestamp_I [OF assms])
  then show ?thesis
    by (auto simp: putPacket_ok_def Let_def request intro!: update_or_ensures putPacket_data_ensures)
qed

lemma putPacket_header_ensures:
  assumes "I s"
  shows "ensures (\<lambda>(d, s'). I s') (putPacket_header env data len tag sy p dropped s)"
  unfolding putPacket_header_def
proof (rule ensures_bind, rule ensuresI, clarify)
  fix result b
  assume "processPacketHeader env data len tag sy p (m_base s) = Inr (result, b)"
  then have I1: "I (s\<lparr>m_base := b\<rparr>)" by (rule receive_header [OF assms])
  have dispatch: "ensures (\<lambda>(d, s'). I s') (case result of
      eCRV_OK \<Rightarrow> putPacket_ok env data len p s2
    | eCRV_Invalid \<Rightarrow> Inr (RAW1394_ISO_OK, s2) | _ \<Rightarrow> Inr (RAW1394_ISO_ERROR, s2))" if "I s2" for s2
    using that putPacket_ok_ensures by (cases result) auto
  show "ensures (\<lambda>(d, s'). I s')
     (let s1 = s\<lparr>m_base := b\<rparr>;
          dispatch = \<lambda>s2. case result of eCRV_OK \<Rightarrow> putPacket_ok env data len p s2
            | eCRV_Invalid \<Rightarrow> Inr (RAW1394_ISO_OK, s2) | _ \<Rightarrow> Inr (RAW1394_ISO_ERROR, s2)
      in if dropped \<noteq> 0
         then let s2 = set_correct_last_timestamp True s1
              in if m_state s2 = ePS_Running
                 then update_or env (request_disable p s2) (Pair RAW1394_ISO_ERROR) dispatch
                 else dispatch s2
         else dispatch s1)"
    using I1 correct [OF I1] dispatch by (simp add: Let_def xrun_update_ensures)
qed

lemma putPacket_ensures:
  assumes "I s"
  shows "ensures (\<lambda>(d, s'). I s') (putPacket env data len channel tag sy p dropped s)"
  using assms stamp [OF assms]
  by (auto simp: putPacket_def Let_def request
      intro!: update_or_ensures putPacket_header_ensures)

theorem putPacket_keeps: "I s \<Longrightarrow> putPacket env data len channel tag sy p dropped s = Inr (d, s') \<Longrightarrow> I s'"
  using ensuresD [OF putPacket_ensures] by fastforce

lemma empty_packet_ensures: "I s \<Longrightarrow> ensures (\<lambda>(d, pk, s'). I s') (empty_packet env p d pk s)"
  unfolding empty_packet_def
  by (rule ensures_bind, rule ensuresI, clarify, rule ensures_bind, rule ensuresI, clarify)
    (drule (1) empty_header, drule empty_data, simp_all)

lemma send_empty_packet_ensures: "I s \<Longrightarrow> ensures (\<lambda>(d, pk, s'). I s') (send_empty_packet env p pk s)"
  by (simp add: send_empty_packet_def update_if_requested_ensures empty_packet_ensures)

lemma getPacket_data_ensures: "I s \<Longrightarrow> ensures (\<lambda>(d, pk, s'). I s') (getPacket_data env p result pk s)"
  unfolding getPacket_data_def
  by (rule ensures_bind, rule ensuresI)
    (auto simp: Let_def dest: packet_data intro!: xrun_update_ensures send_empty_packet_ensures)

lemma getPacket_running_ensures:
  "I s \<Longrightarrow> ensures (\<lambda>(d, pk, s'). I s') (getPacket_running env p pk prev s)"
  unfolding getPacket_running_def
  by (rule ensures_bind, rule ensuresI)
    (auto simp: Let_def split: eChildReturnValue.splits dest: packet_header
      intro!: xrun_update_ensures update_if_requested_ensures send_empty_packet_ensures
        empty_packet_ensures getPacket_data_ensures stamp)

lemma getPacket_silent_ensures: "I s \<Longrightarrow> ensures (\<lambda>(d, pk, s'). I s') (getPacket_silent env p pk s)"
proof -
  assume I: "I s"
  have data: "ensures (\<lambda>x. I (s\<lparr>m_base := snd (snd x)\<rparr>)) (generateSilentPacketData env pk' b)"
    if "I (s\<lparr>m_base := b\<rparr>)" for pk' b
    using that silent_data [of "s\<lparr>m_base := b\<rparr>"] by (auto simp: ensures_def)
  show ?thesis
    unfolding getPacket_silent_def
    by (rule ensures_bind, rule ensuresI)
      (auto simp: Let_def case_prod_unfold split: eChildReturnValue.splits dest!: silent_header [OF I]
        intro!: ensures_bind data send_empty_packet_ensures [unfolded case_prod_unfold])
qed

lemma getPacket_normal_ensures: "I s \<Longrightarrow> ensures (\<lambda>(d, pk, s'). I s') (getPacket_normal env p pk s)"
  by (simp add: getPacket_normal_def Let_def switch_when_due_ensures getPacket_silent_ensures
      send_empty_packet_ensures getPacket_running_ensures)

lemma getPacket_ensures:
  assumes "I s"
  shows "ensures (\<lambda>(d, pk, s'). I s') (getPacket env pk p dropped skipped max_length s)"
proof -
  have "request_disable p (s\<lparr>m_in_xrun := True\<rparr>) = request_disable p s"
    by (simp add: request_disable_def)
  then show ?thesis
    using assms
    by (auto simp: getPacket_def Let_def flag_xrun
        intro!: xrun_update_ensures send_empty_packet_ensures getPacket_normal_ensures)
qed

theorem getPacket_keeps:
  "I s \<Longrightarrow> getPacket env pk p dropped skipped max_length s = Inr (d, pk', s') \<Longrightarrow> I s'"
  using ensuresD [OF getPacket_ensures] by fastforce

end

section \<open>Simulation by the abstract machine\<close>

definition follows :: "'c sp \<Rightarrow> 'c sp \<Rightarrow> bool" where
  "follows s0 s \<longleftrightarrow> ctl_steps (ctl s0) (ctl s) \<and> fixed s = fixed s0"

lemma follows_refl [simp]: "follows s s"
  by (simp add: follows_def)

lemma follows_trans: "follows s0 s \<Longrightarrow> follows s s' \<Longrightarrow> follows s0 s'"
  by (auto simp: follows_def)

lemma follows_step: "follows s0 s \<Longrightarrow> ctl_step (ctl s) (ctl s') \<Longrightarrow> fixed s' = fixed s \<Longrightarrow> follows s0 s'"
  by (auto simp: follows_def intro: rtranclp.rtrancl_into_rtrancl)

lemma follows_same: "follows s0 s \<Longrightarrow> ctl s' = ctl s \<Longrightarrow> fixed s' = fixed s \<Longrightarrow> follows s0 s'"
  by (simp add: follows_def)

lemma entered_ctl_step:
  assumes "entered s s'" "(m_state s, m_next_state s) \<in> transitions"
  shows "ctl_step (ctl s) (ctl s')"
proof (cases "m_next_state s = ePS_Running")
  case True
  then have "m_state s = ePS_WaitingForStreamEnable" using assms(2) by (auto simp: transitions_def)
  then show ?thesis using True assms(1) by (simp add: entered_def ctl_def ctl_step.enable)
next
  case False
  then show ?thesis using assms by (simp add: entered_def ctl_def ctl_step.move)
qed

lemma updateState_follows:
  assumes "updateState env s = Inr (ok, s')"
  shows "follows s s'"
proof (cases "(m_state s, m_next_state s) \<in> transitions")
  case True
  from updateState_allowed [OF assms True] show ?thesis
    using entered_ctl_step [OF _ True]
    by (auto intro: follows_step [of s s] follows_same [of s s] simp: entered_def stayed_def)
next
  case False
  then show ?thesis
    using assms updateState_identity [of s env] updateState_refused [of s env]
    by (cases "m_state s = m_next_state s") auto
qed

lemma request_follows: "nx \<noteq> ePS_Invalid \<Longrightarrow> follows s (s\<lparr>m_next_state := nx, m_cycle_to_switch_state := c\<rparr>)"
  by (rule follows_step [OF follows_refl]) (simp_all add: ctl_def fixed_def ctl_step.request)

lemma updateState_disable_running:
  assumes "m_state s = ePS_Running"
  shows "updateState env (request_disable p s)
    = Inr (True, (request_disable p s)\<lparr>m_state := ePS_WaitingForStreamDisable\<rparr>)"
  using assms by (simp add: updateState_def request_disable_def doWaitForStreamDisable_def)

lemma request_disable_follows:
  assumes "updateState env (request_disable p s) = Inr (ok, s')"
  shows "follows s s'"
proof (cases "m_state s = ePS_Running")
  case True
  then have "s' = (request_disable p s)\<lparr>m_state := ePS_WaitingForStreamDisable\<rparr>"
    using assms updateState_disable_running [of s env p] by simp
  then show ?thesis
    using True by (intro follows_step [OF follows_refl])
      (simp_all add: ctl_def fixed_def request_disable_def ctl_step.disable)
next
  case False
  have "follows s (s\<lparr>m_in_xrun := True\<rparr>)"
    using False by (intro follows_step [OF follows_refl]) (simp_all add: ctl_def fixed_def ctl_step.xrun)
  moreover have "follows (s\<lparr>m_in_xrun := True\<rparr>) (request_disable p s)"
    by (intro follows_step [OF follows_refl])
      (simp_all add: ctl_def fixed_def request_disable_def ctl_step.request)
  ultimately show ?thesis using updateState_follows [OF assms] by (blast intro: follows_trans)
qed

interpretation fl: packet_invariant "follows s0" env for s0 :: "'c sp" and env
proof unfold_locales
  fix s s' :: "'c sp" and ok p nx t f x
  assume s: "follows s0 s"
  show "updateState env s = Inr (ok, s') \<Longrightarrow> follows s0 s'"
    using follows_trans [OF s updateState_follows] .
  show "updateState env (request_disable p s) = Inr (ok, s') \<Longrightarrow> follows s0 s'"
    using follows_trans [OF s request_disable_follows] .
  show "nx \<noteq> ePS_Invalid \<Longrightarrow> follows s0 (s\<lparr>m_next_state := nx\<rparr>)"
    by (rule follows_step [OF s]) (simp_all add: ctl_def fixed_def ctl_step.request)
  show "follows s0 (s\<lparr>m_last_timestamp2 := t\<rparr>)"
    by (rule follows_same [OF s]) (simp_all add: ctl_def fixed_def)
  show "m_state s \<noteq> ePS_Running \<Longrightarrow> follows s0 (s\<lparr>m_in_xrun := True\<rparr>)"
    by (rule follows_step [OF s]) (simp_all add: ctl_def fixed_def ctl_step.xrun)
  show "follows s0 (set_correct_last_timestamp f s)"
    by (rule follows_same [OF s]) simp_all
  show "follows s0 (set_buffer (setBufferTailTimestamp x (buf s)) s)"
    by (rule follows_same [OF s]) simp_all
qed (auto intro: follows_same)

section \<open>Reachable stream processors\<close>

text \<open>
  One call of a public operation that returns. The environment may answer differently at each
  call, and the subclass is arbitrary.
\<close>

inductive sp_step :: "'c sp \<Rightarrow> 'c sp \<Rightarrow> bool" where
  put_packet: "putPacket env data len channel tag sy p dropped s = Inr (d, s') \<Longrightarrow> sp_step s s'"
| get_packet: "getPacket env pk p dropped skipped max_length s = Inr (d, pk', s') \<Longrightarrow> sp_step s s'"
| get_frames: "getFrames env n s = Some (Inr (ok, s')) \<Longrightarrow> sp_step s s'"
| put_frames: "putFrames env n ts s = Some (Inr (ok, s')) \<Longrightarrow> sp_step s s'"
| drop_frames: "SP_dropFrames n s = Inr (ok, s') \<Longrightarrow> sp_step s s'"
| put_silence: "putSilenceFrames env n ts s = Inr (ok, s') \<Longrightarrow> sp_step s s'"
| shift: "shiftStream n s = Inr (ok, s') \<Longrightarrow> sp_step s s'"
| initialise: "SP_init env s = (ok, s') \<Longrightarrow> sp_step s s'"
| prepare: "SP_prepare env s = Inr (ok, s') \<Longrightarrow> sp_step s s'"
| period_size: "periodSizeChanged env n s = Inr (ok, s') \<Longrightarrow> sp_step s s'"
| start_dry: "scheduleStartDryRunning env t s = (ok, s') \<Longrightarrow> sp_step s s'"
| start: "scheduleStartRunning env t s = (ok, s') \<Longrightarrow> sp_step s s'"
| stop_dry: "scheduleStopDryRunning env t s = (ok, s') \<Longrightarrow> sp_step s s'"
| stop: "scheduleStopRunning env t s = (ok, s') \<Longrightarrow> sp_step s s'"
| bus_reset: "handleBusReset s = (ok, s') \<Longrightarrow> sp_step s s'"
| died: "handlerDied s = s' \<Longrightarrow> sp_step s s'"
| stopped: "packetsStopped s = s' \<Longrightarrow> sp_step s s'"
| set_channel: "setChannel n s = (ok, s') \<Longrightarrow> sp_step s s'"
| accessor: "s' = upd_base f s \<Longrightarrow> sp_step s s'"

lemma schedule_follows:
  assumes "scheduleStateTransition nx t s = (ok, s')" "nx \<noteq> ePS_Invalid"
  shows "follows s s'"
proof -
  have "s' = s\<lparr>m_next_state := nx, m_cycle_to_switch_state := ucast (TICKS_TO_CYCLES t)\<rparr>"
    using assms(1) by (auto simp: scheduleStateTransition_def)
  then show ?thesis using request_follows [OF assms(2)] by metis
qed

lemma scheduleStartDryRunning_follows:
  "scheduleStartDryRunning env t s = (ok, s') \<Longrightarrow> follows s s'"
  by (cases "m_state s")
    (auto simp: scheduleStartDryRunning_def Let_def intro: schedule_follows split: if_splits)

lemma base_follows: "s' = upd_base f s \<Longrightarrow> follows s s'" "s' = s\<lparr>m_base := b\<rparr> \<Longrightarrow> follows s s'"
  by (auto intro: follows_same [OF follows_refl])

lemma follows_setters [simp]:
  "follows s0 (upd_base f s) = follows s0 s" "follows s0 (s\<lparr>m_base := b\<rparr>) = follows s0 s"
  "follows s0 (set_ports pm s) = follows s0 s"
  by (simp_all add: follows_def)

lemma on_buffer_follows: "on_buffer f s = Inr (ok, s') \<Longrightarrow> follows s s'"
  by (auto simp: on_buffer_Inr_iff set_buffer_def intro: base_follows)

lemma after_blocks_follows: "after_blocks s r = Some (Inr (ok, s')) \<Longrightarrow> follows s s'"
  by (auto simp: after_blocks_def bind_result_Inr_iff case_prod_unfold intro: base_follows)

lemma getFrames_follows: "getFrames env n s = Some (Inr (ok, s')) \<Longrightarrow> follows s s'"
  by (auto simp: getFrames_def getFramesWet_def getFramesDry_def bind_result_Inr_iff set_ports_def
      intro: after_blocks_follows base_follows split: if_splits)

lemma putFrames_follows: "putFrames env n ts s = Some (Inr (ok, s')) \<Longrightarrow> follows s s'"
  by (auto simp: putFrames_def putFramesWet_def putFramesDry_def
      intro: after_blocks_follows split: if_splits)

lemma putSilenceFrames_follows:
  assumes "putSilenceFrames env n ts s = Inr (ok, s')"
  shows "follows s s'"
proof -
  obtain b where "s' = s\<lparr>m_base := b\<rparr> \<or> (\<exists>f. on_buffer f (s\<lparr>m_base := b\<rparr>) = Inr (ok, s'))"
    using assms by (auto simp: putSilenceFrames_def bind_result_Inr_iff Let_def case_prod_unfold
        split: if_splits option.splits)
  then show ?thesis
    using follows_trans [OF base_follows(2) [OF refl] on_buffer_follows] base_follows(2) by blast
qed

lemma setupDataBuffer_ensures: "follows s0 s \<Longrightarrow> ensures (\<lambda>x. follows s0 (snd x)) (setupDataBuffer env s)"
  by (auto simp: ensures_def dest: setupDataBuffer_frame)

lemma updateState_ensures: "follows s0 s \<Longrightarrow> ensures (\<lambda>x. follows s0 (snd x)) (updateState env s)"
  by (auto simp: ensures_def intro: follows_trans updateState_follows)

lemma periodSizeChanged_ensures: "ensures (\<lambda>x. follows s (snd x)) (periodSizeChanged env n s)"
  by (auto simp: periodSizeChanged_def Let_def case_prod_unfold
      intro!: ensures_bindI [OF setupDataBuffer_ensures] updateState_ensures)

lemma SP_prepare_ensures: "ensures (\<lambda>x. follows s (snd x)) (SP_prepare env s)"
  unfolding SP_prepare_def case_prod_unfold Let_def
  by (rule ensures_bindI [OF periodSizeChanged_ensures])
    (auto intro!: ensures_bind ensuresI [of "prepareChild _ _"] updateState_ensures fl.request)

theorem sp_step_follows: "sp_step s s' \<Longrightarrow> follows s s'"
proof (induction rule: sp_step.induct)
  case (put_packet env data len channel tag sy p dropped s d s')
  then show ?case by (rule fl.putPacket_keeps [OF follows_refl])
next
  case (get_packet env pk p dropped skipped max_length s d pk' s')
  then show ?case by (rule fl.getPacket_keeps [OF follows_refl])
next
  case (initialise env s ok s')
  then show ?case
    using fl.request [of s s ePS_Created] by (auto simp: SP_init_def split: if_splits)
next
  case (start_dry env t s ok s')
  then show ?case by (rule scheduleStartDryRunning_follows)
next
  case (bus_reset s ok s')
  then show ?case
    by (auto simp: handleBusReset_def handleBusResetDo_def ctl_def fixed_def ctl_step.bus_reset
        intro!: follows_step [OF follows_refl])
next
  case (died s s')
  then show ?case
    by (auto simp: handlerDied_def ctl_def fixed_def ctl_step.died intro!: follows_step [OF follows_refl])
next
  case (stopped s s')
  then show ?case
    by (auto simp: packetsStopped_def ctl_def fixed_def ctl_step.stopped intro!: follows_step [OF follows_refl])
next
  case (set_channel n s ok s')
  then show ?case by (auto simp: setChannel_def ctl_def fixed_def intro: follows_same [OF follows_refl])
next
  case (shift n s ok s')
  then show ?case by (auto simp: shiftStream_def intro: on_buffer_follows split: if_splits)
qed (auto simp: scheduleStartRunning_def scheduleStopDryRunning_def scheduleStopRunning_def
    SP_dropFrames_def
    intro: getFrames_follows putFrames_follows on_buffer_follows putSilenceFrames_follows
      schedule_follows base_follows
    dest: ensuresD [OF SP_prepare_ensures] ensuresD [OF periodSizeChanged_ensures])

lemma sp_steps_follow: "sp_step\<^sup>*\<^sup>* s s' \<Longrightarrow> follows s s'"
  by (induction rule: rtranclp_induct) (auto intro: follows_trans sp_step_follows)

section \<open>Properties\<close>

text \<open>
  C14. \<open>updateState\<close> implements the transition table. It accepts a request for the current state
  and changes nothing; it refuses a request that is not in the table and changes nothing. A request
  in the table succeeds exactly when the calls that its transition makes succeed; in particular a
  stopped stream always starts to wait, a waiting one always dry-runs and a running one can always
  be disabled. After any attempt that returns the stream is in the requested state, except that a
  dry-running stream that could not be stopped or enabled dry-runs on; the request, the switch cycle
  and the type are unchanged.
\<close>
theorem updateState_contract:
  "(m_state s = m_next_state s \<longrightarrow> updateState env s = Inr (True, s))
    \<and> (m_state s \<noteq> m_next_state s \<and> (m_state s, m_next_state s) \<notin> transitions \<longrightarrow>
         updateState env s = Inr (False, s))
    \<and> ((m_state s, m_next_state s) \<in> transitions \<longrightarrow>
         ((\<exists>s'. updateState env s = Inr (True, s')) \<longleftrightarrow> transition_succeeds env s)
         \<and> (\<forall>ok s'. updateState env s = Inr (ok, s') \<longrightarrow>
              m_state s' = (if ok \<or> m_state s \<noteq> ePS_DryRunning then m_next_state s else ePS_DryRunning)
              \<and> m_next_state s' = m_next_state s
              \<and> m_cycle_to_switch_state s' = m_cycle_to_switch_state s
              \<and> m_processor_type s' = m_processor_type s))"
proof (intro conjI impI allI)
  fix ok s'
  assume t: "(m_state s, m_next_state s) \<in> transitions" and u: "updateState env s = Inr (ok, s')"
  note a = updateState_allowed [OF u t]
  then show "m_next_state s' = m_next_state s" "m_cycle_to_switch_state s' = m_cycle_to_switch_state s"
    "m_processor_type s' = m_processor_type s"
    by (auto simp: entered_def stayed_def ctl_def fixed_def)
  show "m_state s' = (if ok \<or> m_state s \<noteq> ePS_DryRunning then m_next_state s else ePS_DryRunning)"
    using a updateState_target [OF u t] updateState_failed [of env s s'] t u
    by (cases ok) (auto simp: entered_def stayed_def ctl_def)
qed (simp_all add: updateState_identity updateState_refused updateState_succeeds)

text \<open>
  C1. In every stream processor that any sequence of calls can produce, whatever its subclass
  does and whatever the managers answer: the state is a real one, a running stream has no xrun
  pending, a stream that has left the stopped state has a real state requested, and the type is
  the one it was created with.
\<close>
theorem stream_control_invariant:
  assumes "sp_step\<^sup>*\<^sup>* (StreamProcessor type pm c) s"
  shows "m_state s \<noteq> ePS_Invalid \<and> (m_state s = ePS_Running \<longrightarrow> \<not> m_in_xrun s)
    \<and> (m_state s \<notin> {ePS_Created, ePS_Stopped, ePS_Error} \<longrightarrow> m_next_state s \<noteq> ePS_Invalid)
    \<and> m_processor_type s = type"
proof -
  have f: "follows (StreamProcessor type pm c) s" by (rule sp_steps_follow [OF assms])
  have "ctl_inv (ctl (StreamProcessor type pm c))"
    by (simp add: ctl_inv_def ctl_def StreamProcessor_def)
  moreover have "ctl_steps (ctl (StreamProcessor type pm c)) (ctl s)" using f by (simp add: follows_def)
  ultimately have "ctl_inv (ctl s)" by (rule ctl_steps_inv [rotated])
  then show ?thesis
    using f by (auto simp: ctl_inv_def ctl_def follows_def fixed_def StreamProcessor_def)
qed

text \<open>A subclass that accepts every packet and touches nothing, and managers that always agree.\<close>

definition sample_env :: "unit sp_env" where
  "sample_env =
    \<lparr>getNbBuffers = 2, getPeriodSize = 8, getNominalRate = 48000, registerProcessor = True,
     registerStream = True, startHandlerForStream = (\<lambda>_. True), stopHandlerForStream = True,
     getPacketLatencyForStream = 8, getCycleTimerTicks = 0, getLocalNodeId = 0xFFC1,
     heap_bytes = (\<lambda>_. 0), prepareChild = (\<lambda>b. Inr (True, b)),
     getEventsPerFrame = (\<lambda>_. 2), getEventSize = (\<lambda>_. 4), getNominalFramesPerPacket = (\<lambda>_. 8),
     processPacketHeader = (\<lambda>_ _ _ _ _ b. Inr (eCRV_OK, b)),
     processPacketData = (\<lambda>_ _ b. Inr (eCRV_OK, b)),
     generatePacketHeader = (\<lambda>_ pk b. Inr (eCRV_Packet, pk, b)),
     generatePacketData = (\<lambda>pk b. Inr (eCRV_OK, pk, b)),
     generateEmptyPacketHeader = (\<lambda>_ pk b. Inr (eCRV_OK, pk, b)),
     generateEmptyPacketData = (\<lambda>pk b. Inr (eCRV_OK, pk, b)),
     generateSilentPacketHeader = (\<lambda>_ pk b. Inr (eCRV_EmptyPacket, pk, b)),
     generateSilentPacketData = (\<lambda>pk b. Inr (eCRV_OK, pk, b)),
     transmitSilenceBlock = (\<lambda>d _ _ b. Inr (True, d, b)),
     sp_client = \<lparr>processReadBlock = (\<lambda>c _ _ _. (True, c)),
                  processWriteBlock = (\<lambda>c d _ _. (True, d, c))\<rparr>\<rparr>"

definition no_ports :: portmanager where
  "no_ports = \<lparr>m_Ports = [], port_at = (\<lambda>_. Port_new [] E_Audio E_Capture),
     m_UpdateHandlers = [], handler_log = []\<rparr>"

abbreviation sample_sp :: "unit sp" where "sample_sp \<equiv> StreamProcessor ePT_Receive no_ports ()"

definition sample_dry :: "unit sp" where
  "sample_dry = set_buffer (TimestampedBuffer\<lparr>m_events_per_frame := 2, m_event_size := 4\<rparr>) sample_sp
     \<lparr>m_state := ePS_DryRunning, m_next_state := ePS_WaitingForStreamEnable\<rparr>"

lemma sample_dry_state [simp]:
  "m_state sample_dry = ePS_DryRunning" "m_next_state sample_dry = ePS_WaitingForStreamEnable"
  by (simp_all add: sample_dry_def)

lemma sample_dry_succeeds: "transition_succeeds sample_env sample_dry"
proof -
  obtain k where "create_power 1 136 = Inr k" using create_power_defined [of 136 1] by auto
  then show ?thesis
    by (simp add: transition_succeeds_def succeeds_def on_buffer_def resizeBuffer_def ringbuffer_size_frames_def
        ffado_ringbuffer_create_def sample_env_def base_setters StreamProcessor_def Let_def sample_dry_def)
qed

theorem updateState_contract_witness:
  "\<exists>s'. updateState sample_env sample_dry = Inr (True, s') \<and> m_state s' = ePS_WaitingForStreamEnable"
proof -
  have t: "(m_state sample_dry, m_next_state sample_dry) \<in> transitions" by (simp add: transitions_def)
  note c = updateState_contract [of sample_dry sample_env, THEN conjunct2, THEN conjunct2, THEN mp, OF t]
  obtain s' where u: "updateState sample_env sample_dry = Inr (True, s')"
    using c [THEN conjunct1] sample_dry_succeeds by blast
  then show ?thesis using c [THEN conjunct2, THEN spec, THEN spec, THEN mp, OF u] by simp
qed

theorem stream_control_invariant_witness:
  "m_state (snd (handleBusReset sample_sp)) = ePS_Error
    \<and> m_processor_type (snd (handleBusReset sample_sp)) = ePT_Receive"
proof -
  have "sp_step sample_sp (snd (handleBusReset sample_sp))"
    by (rule sp_step.bus_reset [of _ True]) (simp add: handleBusReset_def handleBusResetDo_def)
  then have "sp_step\<^sup>*\<^sup>* sample_sp (snd (handleBusReset sample_sp))" by (rule r_into_rtranclp)
  from stream_control_invariant [OF this] show ?thesis
    by (simp add: handleBusReset_def handleBusResetDo_def)
qed

end
