(* ===== verification/BlockProcessing.thy ===== *)
theory BlockProcessing
  imports TimestampedBuffer
begin

text \<open>
  Block processing of the timestamped buffer: the loops of \<open>blockProcessWriteFrames\<close> and
  \<open>blockProcessReadFrames\<close> hand the client pieces of the ring buffer, in place where a whole block
  of eight frames fits before the end of the storage and through a temporary block where it does
  not. Shown here: for a client whose blocks are its frames one by one, the loops always return,
  trip no assertion, stay inside the memory they work on, and the client cannot tell how its
  frames were cut into blocks; and what is left behind when the ring buffer is too full.
\<close>

section \<open>Invariant\<close>

definition tsb_inv :: "tsbuf \<Rightarrow> bool" where
  "tsb_inv s \<longleftrightarrow>
     (case m_event_buffer s of None \<Rightarrow> False | Some rb \<Rightarrow> rb_inv rb) \<and>
     (case m_process_buffer s of None \<Rightarrow> False | Some d \<Rightarrow> length d = unat (m_process_block_size s)) \<and>
     m_cluster_size s = m_events_per_frame s * m_event_size s \<and> 0 < unat (m_cluster_size s) \<and>
     unat (m_process_block_size s) = 8 * unat (m_cluster_size s)"

definition tsb_bytes :: "tsbuf \<Rightarrow> byte list" where
  "tsb_bytes s = (case m_event_buffer s of None \<Rightarrow> [] | Some rb \<Rightarrow> rb_contents rb)"

definition tsb_space :: "tsbuf \<Rightarrow> nat" where
  "tsb_space s =
     (case m_event_buffer s of None \<Rightarrow> 0 | Some rb \<Rightarrow> rb_capacity rb - length (rb_contents rb))"

text \<open>The state after a number of rounds: only the two buffers have changed.\<close>

abbreviation with_buffers :: "tsbuf \<Rightarrow> ringbuffer \<Rightarrow> byte list \<Rightarrow> tsbuf" where
  "with_buffers s rb d \<equiv> s\<lparr>m_event_buffer := Some rb, m_process_buffer := Some d\<rparr>"

section \<open>Clients\<close>

text \<open>Producing and consuming frames one at a time.\<close>

fun write_each :: "('c \<Rightarrow> nat \<Rightarrow> byte list \<times> 'c) \<Rightarrow> 'c \<Rightarrow> nat list \<Rightarrow> byte list \<times> 'c" where
  "write_each wfr c [] = ([], c)"
| "write_each wfr c (i # ix) =
     (let (d, c1) = wfr c i; (ds, c2) = write_each wfr c1 ix in (d @ ds, c2))"

fun read_each :: "('c \<Rightarrow> nat \<Rightarrow> byte list \<Rightarrow> 'c) \<Rightarrow> nat \<Rightarrow> 'c \<Rightarrow> nat list \<Rightarrow> byte list \<Rightarrow> 'c" where
  "read_each rfr cs c [] data = c"
| "read_each rfr cs c (i # ix) data = read_each rfr cs (rfr c i (take cs data)) ix (drop cs data)"

text \<open>A client that writes, respectively reads, a block as its frames one by one, for frames of
  \<open>cs\<close> bytes and periods of \<open>n\<close> frames.\<close>

definition writes_frames :: "'c tsb_client \<Rightarrow> nat \<Rightarrow> nat \<Rightarrow> ('c \<Rightarrow> nat \<Rightarrow> byte list \<times> 'c) \<Rightarrow> bool" where
  "writes_frames cl cs n wfr \<longleftrightarrow>
     (\<forall>c i. length (fst (wfr c i)) = cs) \<and>
     (\<forall>c d nev off. length d = unat nev * cs \<and> unat off + unat nev \<le> n \<longrightarrow>
        snd (processWriteBlock cl c d nev off) = write_each wfr c [unat off..<unat off + unat nev])"

definition reads_frames ::
  "'c tsb_client \<Rightarrow> nat \<Rightarrow> nat \<Rightarrow> ('c \<Rightarrow> nat \<Rightarrow> byte list \<Rightarrow> 'c) \<Rightarrow> bool" where
  "reads_frames cl cs n rfr \<longleftrightarrow>
     (\<forall>c d nev off. length d = unat nev * cs \<and> unat off + unat nev \<le> n \<longrightarrow>
        snd (processReadBlock cl c d nev off) = read_each rfr cs c [unat off..<unat off + unat nev] d)"

lemma length_write_each:
  assumes "\<And>c i. length (fst (wfr c i)) = cs"
  shows "length (fst (write_each wfr c ix)) = length ix * cs"
proof (induction ix arbitrary: c)
  case (Cons i ix)
  then show ?case using assms [of c i] by (auto simp: split_def Let_def)
qed simp

lemma writes_framesD:
  assumes "writes_frames cl cs n wfr" "length d = unat nev * cs" "unat off + unat nev \<le> n"
    "processWriteBlock cl c d nev off = (ok, d', c')"
  shows "d' = fst (write_each wfr c [unat off..<unat off + unat nev])"
    "c' = snd (write_each wfr c [unat off..<unat off + unat nev])" "length d' = unat nev * cs"
proof -
  have "snd (processWriteBlock cl c d nev off) = write_each wfr c [unat off..<unat off + unat nev]"
    using assms(1-3) unfolding writes_frames_def by blast
  then have e: "write_each wfr c [unat off..<unat off + unat nev] = (d', c')"
    using assms(4) by simp
  show "d' = fst (write_each wfr c [unat off..<unat off + unat nev])"
    "c' = snd (write_each wfr c [unat off..<unat off + unat nev])"
    by (simp_all add: e)
  have "length (fst (write_each wfr c [unat off..<unat off + unat nev])) = unat nev * cs"
    using assms(1) length_write_each [of wfr cs c "[unat off..<unat off + unat nev]"]
    by (simp add: writes_frames_def)
  then show "length d' = unat nev * cs" by (simp add: e)
qed

lemma write_each_append:
  "write_each wfr c (ix @ js) =
     (let (d1, c1) = write_each wfr c ix; (d2, c2) = write_each wfr c1 js in (d1 @ d2, c2))"
  by (induction ix arbitrary: c) (auto simp: split_def Let_def)

lemma read_each_append:
  "read_each rfr cs c (ix @ js) data =
     read_each rfr cs (read_each rfr cs c ix (take (length ix * cs) data)) js (drop (length ix * cs) data)"
  by (induction ix arbitrary: c data) (auto simp: take_drop add.commute min_def)

lemma read_each_take:
  "length ix * cs \<le> k \<Longrightarrow> read_each rfr cs c ix (take k data) = read_each rfr cs c ix data"
  by (induction ix arbitrary: c data k) (auto simp: drop_take min_def)

section \<open>Arithmetic of a round\<close>

text \<open>\<open>n\<close> frames of \<open>cs\<close> bytes, \<open>j\<close> of them done.\<close>

lemma round_arith:
  fixes nb cs bytes :: u32
  assumes "0 < unat cs" "unat nb * unat cs < 2 ^ 32" "j \<le> unat nb" "unat bytes = (unat nb - j) * unat cs"
  shows "unat ((nb * cs - bytes) div cs) = j"
proof -
  have "unat (nb * cs) = unat nb * unat cs" using assms(2) by (intro unat_mult_small) simp
  moreover have "(unat nb - j) * unat cs \<le> unat nb * unat cs" by simp
  ultimately have "unat (nb * cs - bytes) = unat nb * unat cs - (unat nb - j) * unat cs"
    using assms(4) by (simp add: unat_minus_small)
  also have "\<dots> = j * unat cs"
    using assms(3) by (metis diff_diff_cancel diff_mult_distrib)
  finally show ?thesis using assms(1) by (simp add: unat_div_distrib)
qed

lemma next_round_aligned:
  assumes "0 < unat (m_process_block_size s)" "unat (m_process_block_size s) dvd unat bytes"
  shows "next_round bytes s c = Inr (Again bytes s c)"
proof -
  have "unat (bytes mod m_process_block_size s) = 0"
    using assms(2) by (simp add: unat_mod_distrib mod_eq_0_iff_dvd)
  then show ?thesis using assms(1) by (simp add: next_round_def unat_eq_0 unat_gt_0)
qed

lemma unat_minus_part:
  fixes b k :: u32
  assumes "unat b = x * cs" "unat k = y * cs" "y \<le> x"
  shows "unat (b - k) = (x - y) * cs"
  using assms by (simp add: unat_minus_small diff_mult_distrib)

text \<open>How many bytes are done in place: a positive multiple of the block that fits.\<close>

lemma in_place_bytes_sound:
  assumes "unat (m_process_block_size s) = 8 * cs" "0 < cs" "unat bytes = x * cs" "8 dvd x" "0 < x"
    "8 * cs \<le> unat len" "unat len \<le> 1073741824"
  obtains k w where "in_place_bytes s bytes len = Inr w" "unat w = k * cs" "8 dvd k" "0 < k" "k \<le> x"
    "unat w \<le> unat len"
proof (cases "len < ucast bytes")
  case False
  then have "unat bytes \<le> unat len" by (simp add: word_less_nat_alt)
  then show thesis using that [of bytes x] False assms by (simp add: in_place_bytes_def)
next
  case True
  let ?w = "ucast (len - len mod ucast (m_process_block_size s)) :: u32"
  define q where "q = unat len div (8 * cs)"
  have m: "unat len - unat len mod (8 * cs) = 8 * q * cs"
    by (metis minus_mod_eq_mult_div mult.assoc mult.commute q_def)
  then have le: "8 * q * cs \<le> unat len" by (metis diff_le_self)
  have "unat (len mod ucast (m_process_block_size s)) = unat len mod (8 * cs)"
    using assms(1) by (simp add: unat_mod_distrib)
  moreover have "unat len mod (8 * cs) \<le> unat len" by simp
  ultimately have d: "unat (len - len mod ucast (m_process_block_size s)) = 8 * q * cs"
    using m by (simp add: unat_minus_small)
  have w: "unat ?w = 8 * q * cs"
    using d le assms(7) unat_ucast_64_32 [of "len - len mod ucast (m_process_block_size s)"] by linarith
  have q: "0 < q" using assms(2,6) by (simp add: q_def div_greater_zero_iff)
  have "unat len < unat bytes" using True by (simp add: word_less_nat_alt)
  then have "8 * q * cs < x * cs" using le assms(3) by linarith
  then have "8 * q \<le> x" by simp
  moreover have "m_process_block_size s \<noteq> 0" using assms(1,2) by (auto simp: unat_eq_0)
  ultimately show thesis
    using that [of ?w "8 * q"] True w le q by (simp add: in_place_bytes_def)
qed

section \<open>A round of writing\<close>

lemma tsb_invD:
  assumes "tsb_inv s" "m_event_buffer s = Some rb"
  obtains d where "rb_inv rb" "m_process_buffer s = Some d" "length d = 8 * unat (m_cluster_size s)"
    "0 < unat (m_cluster_size s)" "unat (m_process_block_size s) = 8 * unat (m_cluster_size s)"
    "m_cluster_size s = m_events_per_frame s * m_event_size s"
  using assms by (auto simp: tsb_inv_def split: option.splits)

lemma dvd_8_step:
  fixes j n :: nat
  assumes "j < n" "8 dvd j" "8 dvd n"
  shows "j + 8 \<le> n"
proof -
  obtain a b where "j = 8 * a" "n = 8 * b" using assms by (auto elim!: dvdE)
  then show ?thesis using assms(1) by simp
qed

lemma dvd_rest:
  fixes n j k cs :: nat
  assumes "8 dvd j" "8 dvd n" "8 dvd k"
  shows "8 * cs dvd (n - (j + k)) * cs"
  using assms by (simp add: mult_dvd_mono)

text \<open>The effect of a round that goes on: \<open>k\<close> more frames are in the ring buffer.\<close>

definition round_wrote ::
  "('c \<Rightarrow> nat \<Rightarrow> byte list \<times> 'c) \<Rightarrow> tsbuf \<Rightarrow> 'c \<Rightarrow> nat \<Rightarrow> nat \<Rightarrow> nat \<Rightarrow> ringbuffer \<Rightarrow> byte list \<Rightarrow> 'c \<Rightarrow> bool" where
  "round_wrote wfr s c cs j k rb d c' \<longleftrightarrow>
     rb_inv rb \<and> rb_capacity rb = rb_capacity (the (m_event_buffer s)) \<and>
     rb_contents rb = rb_contents (the (m_event_buffer s)) @ fst (write_each wfr c [j..<j + k]) \<and>
     length d = 8 * cs \<and> c' = snd (write_each wfr c [j..<j + k])"

lemma write_round_temp:
  assumes "tsb_inv s" "m_event_buffer s = Some rb" "writes_frames cl cs (unat nb) wfr"
    "cs = unat (m_cluster_size s)" "unat nb * cs < 2 ^ 32" "j < unat nb" "8 dvd j" "8 dvd unat nb"
    "unat bytes = (unat nb - j) * cs" "8 * cs \<le> rb_capacity rb - rb_fill rb"
    "unat (rd_len (fst (ffado_ringbuffer_get_write_vector rb no_vec))) < 8 * cs"
  shows "\<exists>w rb' d' c'. write_round cl nb bytes s c = Inr (Again w (with_buffers s rb' d') c') \<and>
           unat w = (unat nb - (j + 8)) * cs \<and> round_wrote wfr s c cs j 8 rb' d' c'"
proof -
  obtain d where I: "rb_inv rb" "m_process_buffer s = Some d" "length d = 8 * cs" "0 < cs"
    "unat (m_process_block_size s) = 8 * cs"
    using tsb_invD [OF assms(1,2)] assms(4) by metis
  obtain v0 v1 where v: "ffado_ringbuffer_get_write_vector rb no_vec = (v0, v1)" by fastforce
  have j8: "j + 8 \<le> unat nb" using assms(6-8) by (rule dvd_8_step)
  define off where "off = (nb * m_cluster_size s - bytes) div m_cluster_size s"
  have off: "unat off = j" unfolding off_def using assms(4-6,9) I(4) by (intro round_arith) auto
  obtain ok d' c' where p: "processWriteBlock cl c d 8 off = (ok, d', c')"
    using prod_cases3 by blast
  note wd = writes_framesD [OF assms(3) _ _ p]
  have d': "d' = fst (write_each wfr c [j..<j + 8])" "c' = snd (write_each wfr c [j..<j + 8])"
    and len: "length d' = 8 * cs"
    using wd off j8 I(3) by simp_all
  obtain rb' where wr: "ffado_ringbuffer_write rb d' (ucast (m_process_block_size s)) =
      Inr (ucast (m_process_block_size s), rb')" "rb_inv rb'" "rb_capacity rb' = rb_capacity rb"
    "rb_contents rb' = rb_contents rb @ d'"
    using rbq.put_all [OF I(1), of "ucast (m_process_block_size s)" d'] len I(5) assms(10)
    by (simp add: le_diff_conv2 rbq.bounded [OF I(1), simplified]) (metis add.commute)
  have b8: "unat (bytes - m_process_block_size s) = (unat nb - j - 8) * cs"
    using assms(9) I(5) j8 by (intro unat_minus_part) simp_all
  have nr: "next_round (bytes - m_process_block_size s) (with_buffers s rb' d') c' =
      Inr (Again (bytes - m_process_block_size s) (with_buffers s rb' d') c')"
    using I(4,5) b8 dvd_rest [OF assms(7,8), of 8 cs] by (intro next_round_aligned) simp_all
  have eq: "s\<lparr>m_process_buffer := Some d', m_event_buffer := Some rb'\<rparr> = with_buffers s rb' d'" by simp
  have len0: "\<not> rd_len v0 + rd_len v1 < ucast (m_process_block_size s)"
    "rd_len v0 < ucast (m_process_block_size s)"
    using get_write_vector_total [OF I(1), of no_vec] assms(10,11) v I(5)
    by (simp_all add: word_less_nat_alt)
  have "write_round cl nb bytes s c =
      Inr (Again (bytes - m_process_block_size s) (with_buffers s rb' d') c')"
    using I(2,4) assms(2,4) v p wr(1) nr len0
    by (simp add: write_round_def with_buffer_def with_process_buffer_def off_def [symmetric] Let_def eq
        unat_gt_0 [symmetric])
  then show ?thesis using b8 wr d' len assms(2) by (auto simp: round_wrote_def)
qed

lemma unat_scast_32_64:
  fixes x :: u32
  assumes "unat x < 2147483648"
  shows "unat (scast x :: u64) = unat x"
proof -
  have u: "uint x < 2147483648" using assms by (simp only: unat_eq_nat_uint)
  have "sint x = uint x"
    using signed_take_bit_int_eq_self [of 31 "uint x"] u uint_ge_0 [of x] by (simp add: sint_uint)
  then have "(scast x :: u64) = word_of_int (uint x)" by (simp add: scast_eq)
  then show ?thesis using u by (simp add: unsigned_ucast_eq take_bit_nat_eq_self
        less_trans [OF unsigned_less])
qed

lemma with_buffers_same: "m_process_buffer s = Some d \<Longrightarrow> with_buffers s rb d = s\<lparr>m_event_buffer := Some rb\<rparr>"
  by (cases s) simp

lemma write_round_in_place:
  assumes "tsb_inv s" "m_event_buffer s = Some rb" "writes_frames cl cs (unat nb) wfr"
    "cs = unat (m_cluster_size s)" "unat nb * cs < 2 ^ 32" "j < unat nb" "8 dvd j" "8 dvd unat nb"
    "unat bytes = (unat nb - j) * cs"
    "8 * cs \<le> unat (rd_len (fst (ffado_ringbuffer_get_write_vector rb no_vec)))"
  shows "\<exists>k w rb' d' c'. 0 < k \<and> 8 dvd k \<and> j + k \<le> unat nb \<and> k * cs \<le> rb_capacity rb - rb_fill rb \<and>
           write_round cl nb bytes s c = Inr (Again w (with_buffers s rb' d') c') \<and>
           unat w = (unat nb - (j + k)) * cs \<and> round_wrote wfr s c cs j k rb' d' c'"
proof -
  obtain d where I: "rb_inv rb" "m_process_buffer s = Some d" "length d = 8 * cs" "0 < cs"
    "unat (m_process_block_size s) = 8 * cs"
    using tsb_invD [OF assms(1,2)] assms(4) by metis
  obtain v0 v1 where v: "ffado_ringbuffer_get_write_vector rb no_vec = (v0, v1)" by fastforce
  note gv = get_write_vector_first [OF I(1), of no_vec, unfolded v, simplified]
  have small: "unat (rd_len v0) \<le> 1073741824" using gv(3) rb_inv_bounds(2) [OF I(1)] by linarith
  have len: "8 * cs \<le> unat (rd_len v0)" using assms(10) v by simp
  have dn: "8 dvd unat nb - j" using assms(7,8) by simp
  obtain k bw where k: "in_place_bytes s bytes (rd_len v0) = Inr bw" "unat bw = k * cs" "8 dvd k" "0 < k"
    "k \<le> unat nb - j" "unat bw \<le> unat (rd_len v0)"
    by (rule in_place_bytes_sound [OF I(5) I(4) assms(9) dn _ len small]) (use assms(6) in auto)
  define off where "off = (nb * m_cluster_size s - bytes) div m_cluster_size s"
  have off: "unat off = j" unfolding off_def using assms(4-6,9) I(4) by (intro round_arith) auto
  have kd: "unat (bw div m_cluster_size s) = k" using k(2) I(4) assms(4) by (simp add: unat_div_distrib)
  define dd where "dd = take (unat bw) (drop (unat (rb_write_ptr rb)) (rb_buf rb))"
  have rd: "mem_read (rb_buf rb) (unat (rd_buf v0)) (unat bw) = Inr dd" "length dd = k * cs"
    using gv k(2,6) by (simp_all add: mem_read_def dd_def)
  obtain ok d' c' where p: "processWriteBlock cl c dd (bw div m_cluster_size s) off = (ok, d', c')"
    using prod_cases3 by blast
  note wd = writes_framesD [OF assms(3) _ _ p, unfolded kd off, OF rd(2)]
  have jk: "j + k \<le> unat nb" using k(5) assms(6) by linarith
  note d' = wd(1,2,3) [OF jk]
  have sp: "k * cs \<le> rb_capacity rb - rb_fill rb" using k(2,6) gv(2) by linarith
  have sc: "unat (scast bw :: u64) = length d'"
    using d'(3) k(2,6) small by (simp add: unat_scast_32_64)
  obtain buf where wr: "mem_write (rb_buf rb) (unat (rb_write_ptr rb)) d' = Inr buf"
    "rb_inv (ffado_ringbuffer_write_advance (rb\<lparr>rb_buf := buf\<rparr>) (scast bw))"
    "rb_contents (ffado_ringbuffer_write_advance (rb\<lparr>rb_buf := buf\<rparr>) (scast bw)) = rb_contents rb @ d'"
  proof (rule write_in_place [OF I(1) sc])
    show "unat (rb_write_ptr rb) + length d' \<le> rb_len rb" using d'(3) gv(3) k(2,6) by linarith
    show "rb_fill rb + length d' \<le> rb_capacity rb"
      using d'(3) sp rbq.bounded [OF I(1)] by simp
  qed auto
  let ?rb' = "ffado_ringbuffer_write_advance (rb\<lparr>rb_buf := buf\<rparr>) (scast bw)"
  have b: "unat (bytes - bw) = (unat nb - j - k) * cs" using assms(9) k(2,5) by (rule unat_minus_part)
  have nr: "next_round (bytes - bw) (s\<lparr>m_event_buffer := Some ?rb'\<rparr>) c' =
      Inr (Again (bytes - bw) (s\<lparr>m_event_buffer := Some ?rb'\<rparr>) c')"
    using I(4,5) b dvd_rest [OF assms(7,8) k(3), of cs] by (intro next_round_aligned) simp_all
  have l0: "\<not> rd_len v0 + rd_len v1 < ucast (m_process_block_size s)"
    "\<not> rd_len v0 < ucast (m_process_block_size s)"
    using get_write_vector_total [OF I(1), of no_vec] gv(2) len v I(5) by (simp_all add: word_less_nat_alt)
  have "write_round cl nb bytes s c = Inr (Again (bytes - bw) (with_buffers s ?rb' d) c')"
    unfolding with_buffers_same [OF I(2)]
    using I(4) assms(2,4) v k(1) rd(1) gv(1) p wr(1) nr l0
    by (simp add: write_round_def with_buffer_def off_def [symmetric] Let_def unat_gt_0 [symmetric])
  moreover have "round_wrote wfr s c cs j k ?rb' d c'"
    using wr d' I(3) assms(2) by (simp add: round_wrote_def ffado_ringbuffer_write_advance_def rb_capacity_def)
  ultimately show ?thesis using k(3,4) jk sp b by (metis diff_diff_left)
qed

lemma round_wrote_trans:
  assumes "round_wrote wfr s c cs j k rb1 d1 c1" "round_wrote wfr (with_buffers s rb1 d1) c1 cs (j + k) m rb2 d2 c2"
  shows "round_wrote wfr s c cs j (k + m) rb2 d2 c2"
proof -
  have u: "[j..<j + (k + m)] = [j..<j + k] @ [j + k..<j + k + m]"
    by (metis add.assoc le_add1 upt_add_eq_append)
  show ?thesis using assms unfolding round_wrote_def u write_each_append
    by (auto simp: split_def Let_def)
qed

lemma round_wrote_inv:
  assumes "round_wrote wfr s c cs j k rb d c'" "tsb_inv s" "cs = unat (m_cluster_size s)"
  shows "tsb_inv (with_buffers s rb d)"
  using assms by (auto simp: round_wrote_def tsb_inv_def)

lemma write_round_sound:
  assumes "tsb_inv s" "m_event_buffer s = Some rb" "writes_frames cl cs (unat nb) wfr"
    "cs = unat (m_cluster_size s)" "unat nb * cs < 2 ^ 32" "j < unat nb" "8 dvd j" "8 dvd unat nb"
    "unat bytes = (unat nb - j) * cs"
  shows "if tsb_space s < 8 * cs then write_round cl nb bytes s c = Inr (Return False s c)
         else \<exists>k w rb' d' c'. 0 < k \<and> 8 dvd k \<and> j + k \<le> unat nb \<and> k * cs \<le> tsb_space s \<and>
           write_round cl nb bytes s c = Inr (Again w (with_buffers s rb' d') c') \<and>
           unat w = (unat nb - (j + k)) * cs \<and> round_wrote wfr s c cs j k rb' d' c'"
proof (cases "tsb_space s < 8 * cs")
  case True
  obtain v0 v1 where v: "ffado_ringbuffer_get_write_vector rb no_vec = (v0, v1)" by fastforce
  have I: "rb_inv rb" "0 < cs" "unat (m_process_block_size s) = 8 * cs"
    using assms(1,2,4) by (auto simp: tsb_inv_def)
  have "rd_len v0 + rd_len v1 < ucast (m_process_block_size s)"
    using True get_write_vector_total [OF I(1), of no_vec] v I(3) assms(2)
    by (simp add: word_less_nat_alt tsb_space_def)
  then show ?thesis using True v I assms(2,4)
    by (simp add: write_round_def with_buffer_def Let_def unat_gt_0 [symmetric])
next
  case False
  have sp: "tsb_space s = rb_capacity rb - rb_fill rb" using assms(2) by (simp add: tsb_space_def)
  show ?thesis
  proof (cases "unat (rd_len (fst (ffado_ringbuffer_get_write_vector rb no_vec))) < 8 * cs")
    case True
    then show ?thesis
      using write_round_temp [OF assms(1-9) _ True, of c] False dvd_8_step [OF assms(6-8)] sp
      by (auto intro!: exI [of _ "8 :: nat"])
  next
    case in_place: False
    then show ?thesis using write_round_in_place [OF assms(1-9), of c] False sp by (simp add: not_less)
  qed
qed

section \<open>A round of reading\<close>

lemma reads_framesD:
  assumes "reads_frames cl cs n rfr" "length d = unat nev * cs" "unat off + unat nev \<le> n"
    "processReadBlock cl c d nev off = (ok, c')"
  shows "c' = read_each rfr cs c [unat off..<unat off + unat nev] d"
  using assms unfolding reads_frames_def by (metis snd_conv)

text \<open>The effect of a round that goes on: \<open>k\<close> frames have left the ring buffer.\<close>

definition round_read ::
  "('c \<Rightarrow> nat \<Rightarrow> byte list \<Rightarrow> 'c) \<Rightarrow> tsbuf \<Rightarrow> 'c \<Rightarrow> nat \<Rightarrow> nat \<Rightarrow> nat \<Rightarrow> ringbuffer \<Rightarrow> byte list \<Rightarrow> 'c \<Rightarrow> bool" where
  "round_read rfr s c cs j k rb d c' \<longleftrightarrow>
     rb_inv rb \<and> rb_capacity rb = rb_capacity (the (m_event_buffer s)) \<and>
     k * cs \<le> length (rb_contents (the (m_event_buffer s))) \<and>
     rb_contents rb = drop (k * cs) (rb_contents (the (m_event_buffer s))) \<and>
     length d = 8 * cs \<and> c' = read_each rfr cs c [j..<j + k] (rb_contents (the (m_event_buffer s)))"

lemma read_round_temp:
  assumes "tsb_inv s" "m_event_buffer s = Some rb" "reads_frames cl cs (unat nb) rfr"
    "cs = unat (m_cluster_size s)" "unat nb * cs < 2 ^ 32" "j < unat nb" "8 dvd j" "8 dvd unat nb"
    "unat bytes = (unat nb - j) * cs" "8 * cs \<le> rb_fill rb"
    "unat (rd_len (fst (ffado_ringbuffer_get_read_vector rb no_vec))) < 8 * cs"
  shows "\<exists>w rb' d' c'. read_round cl nb bytes s c = Inr (Again w (with_buffers s rb' d') c') \<and>
           unat w = (unat nb - (j + 8)) * cs \<and> round_read rfr s c cs j 8 rb' d' c'"
proof -
  obtain d where I: "rb_inv rb" "m_process_buffer s = Some d" "length d = 8 * cs" "0 < cs"
    "unat (m_process_block_size s) = 8 * cs"
    using tsb_invD [OF assms(1,2)] assms(4) by metis
  obtain v0 v1 where v: "ffado_ringbuffer_get_read_vector rb no_vec = (v0, v1)" by fastforce
  have j8: "j + 8 \<le> unat nb" using assms(6-8) by (rule dvd_8_step)
  define off where "off = (nb * m_cluster_size s - bytes) div m_cluster_size s"
  have off: "unat off = j" unfolding off_def using assms(4-6,9) I(4) by (intro round_arith) auto
  let ?data = "take (8 * cs) (rb_contents rb)"
  obtain rb' where g: "ffado_ringbuffer_read rb (ucast (m_process_block_size s)) =
      Inr (ucast (m_process_block_size s), ?data, rb')" "rb_inv rb'" "rb_capacity rb' = rb_capacity rb"
    "rb_contents rb' = drop (8 * cs) (rb_contents rb)"
    using rbq.get_all [OF I(1), of "ucast (m_process_block_size s)"] I(5) assms(10) by auto
  have len: "length ?data = 8 * cs" using assms(10) by simp
  have mw: "mem_write d 0 ?data = Inr ?data" using len I(3) by (simp add: mem_write_def)
  obtain ok c' where p: "processReadBlock cl c ?data 8 off = (ok, c')" by fastforce
  have c': "c' = read_each rfr cs c [j..<j + 8] (rb_contents rb)"
    using reads_framesD [OF assms(3) _ _ p] len off j8 read_each_take [of "[j..<j + 8]" cs "8 * cs"] by simp
  have b8: "unat (bytes - m_process_block_size s) = (unat nb - j - 8) * cs"
    using assms(9) I(5) j8 by (intro unat_minus_part) simp_all
  have eq: "s\<lparr>m_process_buffer := Some x, m_event_buffer := Some y\<rparr> = with_buffers s y x" for x y by simp
  have nr: "next_round (bytes - m_process_block_size s) (with_buffers s rb' ?data) c' =
      Inr (Again (bytes - m_process_block_size s) (with_buffers s rb' ?data) c')"
    using I(4,5) b8 dvd_rest [OF assms(7,8), of 8 cs] by (intro next_round_aligned) simp_all
  have l0: "\<not> rd_len v0 + rd_len v1 < ucast (m_process_block_size s)"
    "rd_len v0 < ucast (m_process_block_size s)"
    using get_read_vector_first(4) [OF I(1), of no_vec] assms(10,11) v I(5)
    by (simp_all add: word_less_nat_alt)
  have "read_round cl nb bytes s c =
      Inr (Again (bytes - m_process_block_size s) (with_buffers s rb' ?data) c')"
    using I(2,4) assms(2,4) v g(1) mw p nr l0
    by (simp add: read_round_def with_buffer_def with_process_buffer_def off_def [symmetric] Let_def eq
        unat_gt_0 [symmetric])
  moreover have "round_read rfr s c cs j 8 rb' ?data c'"
    using g c' len assms(2,10) by (simp add: round_read_def)
  ultimately show ?thesis using b8 by (metis diff_diff_left)
qed

lemma read_round_in_place:
  assumes "tsb_inv s" "m_event_buffer s = Some rb" "reads_frames cl cs (unat nb) rfr"
    "cs = unat (m_cluster_size s)" "unat nb * cs < 2 ^ 32" "j < unat nb" "8 dvd j" "8 dvd unat nb"
    "unat bytes = (unat nb - j) * cs"
    "8 * cs \<le> unat (rd_len (fst (ffado_ringbuffer_get_read_vector rb no_vec)))"
  shows "\<exists>k w rb' d' c'. 0 < k \<and> 8 dvd k \<and> j + k \<le> unat nb \<and> k * cs \<le> rb_fill rb \<and>
           read_round cl nb bytes s c = Inr (Again w (with_buffers s rb' d') c') \<and>
           unat w = (unat nb - (j + k)) * cs \<and> round_read rfr s c cs j k rb' d' c'"
proof -
  obtain d where I: "rb_inv rb" "m_process_buffer s = Some d" "length d = 8 * cs" "0 < cs"
    "unat (m_process_block_size s) = 8 * cs"
    using tsb_invD [OF assms(1,2)] assms(4) by metis
  obtain v0 v1 where v: "ffado_ringbuffer_get_read_vector rb no_vec = (v0, v1)" by fastforce
  note gv = get_read_vector_first [OF I(1), of no_vec, unfolded v, simplified]
  have small: "unat (rd_len v0) \<le> 1073741824" using gv(3) rb_inv_bounds(2) [OF I(1)] by linarith
  have len: "8 * cs \<le> unat (rd_len v0)" using assms(10) v by simp
  have dn: "8 dvd unat nb - j" using assms(7,8) by simp
  obtain k br where k: "in_place_bytes s bytes (rd_len v0) = Inr br" "unat br = k * cs" "8 dvd k" "0 < k"
    "k \<le> unat nb - j" "unat br \<le> unat (rd_len v0)"
    by (rule in_place_bytes_sound [OF I(5) I(4) assms(9) dn _ len small]) (use assms(6) in auto)
  define off where "off = (nb * m_cluster_size s - bytes) div m_cluster_size s"
  have off: "unat off = j" unfolding off_def using assms(4-6,9) I(4) by (intro round_arith) auto
  have kd: "unat (br div m_cluster_size s) = k" using k(2) I(4) assms(4) by (simp add: unat_div_distrib)
  have jk: "j + k \<le> unat nb" using k(5) assms(6) by linarith
  have fl: "k * cs \<le> rb_fill rb" using k(2,6) gv(2) by linarith
  let ?data = "take (k * cs) (rb_contents rb)"
  have rd: "mem_read (rb_buf rb) (unat (rd_buf v0)) (unat br) = Inr ?data"
    using gv(1,3) k(2,6) fl by (simp add: read_in_place)
  obtain ok c' where p: "processReadBlock cl c ?data (br div m_cluster_size s) off = (ok, c')" by fastforce
  have c': "c' = read_each rfr cs c [j..<j + k] (rb_contents rb)"
    using reads_framesD [OF assms(3) _ _ p, unfolded kd off] fl jk read_each_take [of "[j..<j + k]" cs "k * cs"]
    by simp
  have sc: "unat (scast br :: u64) = k * cs" using k(2,6) small by (simp add: unat_scast_32_64)
  let ?rb' = "ffado_ringbuffer_read_advance rb (scast br)"
  note ra = read_advance_drops [OF I(1), of "scast br", unfolded sc, OF fl]
  have b: "unat (bytes - br) = (unat nb - j - k) * cs" using assms(9) k(2,5) by (rule unat_minus_part)
  have nr: "next_round (bytes - br) (s\<lparr>m_event_buffer := Some ?rb'\<rparr>) c' =
      Inr (Again (bytes - br) (s\<lparr>m_event_buffer := Some ?rb'\<rparr>) c')"
    using I(4,5) b dvd_rest [OF assms(7,8) k(3), of cs] by (intro next_round_aligned) simp_all
  have l0: "\<not> rd_len v0 + rd_len v1 < ucast (m_process_block_size s)"
    "\<not> rd_len v0 < ucast (m_process_block_size s)"
    using gv(2,4) len I(5) by (simp_all add: word_less_nat_alt)
  have "read_round cl nb bytes s c = Inr (Again (bytes - br) (with_buffers s ?rb' d) c')"
    unfolding with_buffers_same [OF I(2)]
    using I(4) assms(2,4) v k(1) rd p nr l0
    by (simp add: read_round_def with_buffer_def off_def [symmetric] Let_def unat_gt_0 [symmetric])
  moreover have "round_read rfr s c cs j k ?rb' d c'"
    using ra c' I(3) fl assms(2) by (simp add: round_read_def)
  ultimately show ?thesis using k(3,4) jk fl b by (metis diff_diff_left)
qed

lemma round_read_trans:
  assumes "round_read rfr s c cs j k rb1 d1 c1" "round_read rfr (with_buffers s rb1 d1) c1 cs (j + k) m rb2 d2 c2"
  shows "round_read rfr s c cs j (k + m) rb2 d2 c2"
proof -
  have u: "[j..<j + (k + m)] = [j..<j + k] @ [j + k..<j + k + m]"
    by (metis add.assoc le_add1 upt_add_eq_append)
  show ?thesis
    using assms read_each_take [of "[j..<j + k]" cs "k * cs" rfr c] unfolding round_read_def u read_each_append
    by (auto simp: distrib_right add.commute)
qed

lemma round_read_inv:
  assumes "round_read rfr s c cs j k rb d c'" "tsb_inv s" "cs = unat (m_cluster_size s)"
  shows "tsb_inv (with_buffers s rb d)"
  using assms by (auto simp: round_read_def tsb_inv_def)

lemma read_round_sound:
  assumes "tsb_inv s" "m_event_buffer s = Some rb" "reads_frames cl cs (unat nb) rfr"
    "cs = unat (m_cluster_size s)" "unat nb * cs < 2 ^ 32" "j < unat nb" "8 dvd j" "8 dvd unat nb"
    "unat bytes = (unat nb - j) * cs"
  shows "if length (tsb_bytes s) < 8 * cs then read_round cl nb bytes s c = Inr (Return False s c)
         else \<exists>k w rb' d' c'. 0 < k \<and> 8 dvd k \<and> j + k \<le> unat nb \<and> k * cs \<le> length (tsb_bytes s) \<and>
           read_round cl nb bytes s c = Inr (Again w (with_buffers s rb' d') c') \<and>
           unat w = (unat nb - (j + k)) * cs \<and> round_read rfr s c cs j k rb' d' c'"
proof (cases "length (tsb_bytes s) < 8 * cs")
  case True
  obtain v0 v1 where v: "ffado_ringbuffer_get_read_vector rb no_vec = (v0, v1)" by fastforce
  have I: "rb_inv rb" "0 < cs" "unat (m_process_block_size s) = 8 * cs"
    using assms(1,2,4) by (auto simp: tsb_inv_def)
  have "rd_len v0 + rd_len v1 < ucast (m_process_block_size s)"
    using True get_read_vector_first(4) [OF I(1), of no_vec] v I(3) assms(2)
    by (simp add: word_less_nat_alt tsb_bytes_def)
  then show ?thesis using True v I assms(2,4)
    by (simp add: read_round_def with_buffer_def Let_def unat_gt_0 [symmetric])
next
  case False
  have sp: "length (tsb_bytes s) = rb_fill rb" using assms(2) by (simp add: tsb_bytes_def)
  show ?thesis
  proof (cases "unat (rd_len (fst (ffado_ringbuffer_get_read_vector rb no_vec))) < 8 * cs")
    case True
    then show ?thesis
      using read_round_temp [OF assms(1-9) _ True, of c] False dvd_8_step [OF assms(6-8)] sp
      by (auto intro!: exI [of _ "8 :: nat"])
  next
    case in_place: False
    then show ?thesis using read_round_in_place [OF assms(1-9), of c] False sp by (simp add: not_less)
  qed
qed

section \<open>The loop\<close>

text \<open>The number of frames that fit: all that are asked for, or the whole blocks there is room for.\<close>

definition frames_done :: "nat \<Rightarrow> nat \<Rightarrow> nat \<Rightarrow> nat" where
  "frames_done cs n space = (if n * cs \<le> space then n else 8 * (space div (8 * cs)))"

lemma frames_done_step:
  assumes "8 dvd k" "k \<le> n" "k * cs \<le> space" "0 < cs"
  shows "frames_done cs n space = k + frames_done cs (n - k) (space - k * cs)"
    "(n - k) * cs \<le> space - k * cs \<longleftrightarrow> n * cs \<le> space"
proof -
  have le: "(n - k) * cs = n * cs - k * cs" "k * cs \<le> n * cs"
    using assms(2) by (simp_all add: diff_mult_distrib)
  then show i: "(n - k) * cs \<le> space - k * cs \<longleftrightarrow> n * cs \<le> space" using assms(3) by linarith
  obtain q where q: "k = 8 * q" using assms(1) by (auto elim: dvdE)
  have kq: "k * cs = q * (8 * cs)" by (simp add: q)
  then have "space = (space - k * cs) + q * (8 * cs)" using assms(3) by linarith
  then have "space div (8 * cs) = q + (space - k * cs) div (8 * cs)"
    using assms(4) by (metis add.commute div_mult_self1 mult_eq_0_iff not_gr_zero zero_neq_numeral)
  then show "frames_done cs n space = k + frames_done cs (n - k) (space - k * cs)"
    using i assms(2) q by (simp add: frames_done_def)
qed

text \<open>
  Both loops move frames in blocks of eight: as long as there is room for a block a round moves one
  or more whole blocks, otherwise the loop gives up. \<open>room\<close> is the number of bytes that can be moved,
  \<open>moved s c j k s' c'\<close> says that \<open>k\<close> frames from the \<open>j\<close>-th on took the states to \<open>s'\<close> and \<open>c'\<close>.
\<close>

locale block_rounds =
  fixes rnd :: "u32 \<Rightarrow> tsbuf \<Rightarrow> 'c \<Rightarrow> 'c round result"
    and ready :: "tsbuf \<Rightarrow> bool"
    and room :: "tsbuf \<Rightarrow> nat"
    and moved :: "tsbuf \<Rightarrow> 'c \<Rightarrow> nat \<Rightarrow> nat \<Rightarrow> tsbuf \<Rightarrow> 'c \<Rightarrow> bool"
    and cs n :: nat
  assumes step: "ready s \<Longrightarrow> j < n \<Longrightarrow> 8 dvd j \<Longrightarrow> unat bytes = (n - j) * cs \<Longrightarrow>
      if room s < 8 * cs then rnd bytes s c = Inr (Return False s c)
      else \<exists>k w s' c'. 0 < k \<and> 8 dvd k \<and> j + k \<le> n \<and> k * cs \<le> room s \<and>
        rnd bytes s c = Inr (Again w s' c') \<and> unat w = (n - (j + k)) * cs \<and>
        ready s' \<and> room s' = room s - k * cs \<and> moved s c j k s' c'"
    and stay: "ready s \<Longrightarrow> moved s c j 0 s c"
    and compose: "moved s c j k s1 c1 \<Longrightarrow> moved s1 c1 (j + k) m s2 c2 \<Longrightarrow> moved s c j (k + m) s2 c2"
    and blocks: "ready s \<Longrightarrow> 8 dvd n \<and> 0 < cs"
begin

lemma loop_returns:
  assumes "ready s" "j \<le> n" "8 dvd j" "unat bytes = (n - j) * cs"
  shows "\<exists>s' c'. block_loop rnd bytes s c = Some (Inr ((n - j) * cs \<le> room s, s', c')) \<and>
           ready s' \<and> moved s c j (frames_done cs (n - j) (room s)) s' c'"
  using assms
proof (induction "n - j" arbitrary: s c j bytes rule: less_induct)
  case less
  have cs: "0 < cs" and n8: "8 dvd n" using blocks [OF less.prems(1)] by auto
  note here = stay [OF less.prems(1), of c j]
  show ?case
  proof (cases "j = n")
    case True
    then have "bytes = 0" using less.prems(4) by (simp add: unat_eq_0)
    then have "block_loop rnd bytes s c = Some (Inr (True, s, c))" by (simp add: block_loop.simps)
    then show ?thesis
      using True here less.prems(1) by (intro exI [of _ s] exI [of _ c]) (simp add: frames_done_def)
  next
    case False
    then have j: "j < n" using less.prems(2) by simp
    then have nz: "bytes \<noteq> 0" using less.prems(4) cs by (auto simp: unat_eq_0 [symmetric])
    note rnd = step [OF less.prems(1) j less.prems(3,4), of c]
    show ?thesis
    proof (cases "room s < 8 * cs")
      case True
      then have "block_loop rnd bytes s c = Some (Inr (False, s, c))"
        using rnd nz by (simp add: block_loop.simps)
      moreover have "8 * cs \<le> (n - j) * cs"
        using dvd_8_step [OF j less.prems(3) n8] by (intro mult_right_mono) simp_all
      moreover from this have "\<not> (n - j) * cs \<le> room s" using True by linarith
      ultimately show ?thesis
        using True here less.prems(1) by (intro exI [of _ s] exI [of _ c]) (simp add: frames_done_def)
    next
      case False
      then obtain k w s1 c1 where k: "0 < k" "8 dvd k" "j + k \<le> n" "k * cs \<le> room s"
        "rnd bytes s c = Inr (Again w s1 c1)" "unat w = (n - (j + k)) * cs"
        "ready s1" "room s1 = room s - k * cs" "moved s c j k s1 c1"
        using rnd by auto
      have "8 dvd j + k" using k(2) less.prems(3) by simp
      moreover have "n - (j + k) < n - j" using j k(1) by simp
      ultimately obtain s2 c2 where IH:
        "block_loop rnd w s1 c1 = Some (Inr ((n - (j + k)) * cs \<le> room s1, s2, c2))" "ready s2"
        "moved s1 c1 (j + k) (frames_done cs (n - (j + k)) (room s1)) s2 c2"
        using less.hyps [of "j + k" s1 w c1] k(3,6,7) by auto
      have "k \<le> n - j" using k(3) by simp
      note fd = frames_done_step [OF k(2) this k(4) cs, unfolded diff_diff_left k(8) [symmetric]]
      have "block_loop rnd bytes s c = block_loop rnd w s1 c1"
        using nz k(5) by (simp add: block_loop.simps [of _ bytes s c])
      then show ?thesis
        using IH(1,2) fd compose [OF k(9) IH(3)] by (intro exI [of _ s2] exI [of _ c2]) simp
    qed
  qed
qed

end

section \<open>The loops of the buffer\<close>

definition write_ready :: "'c tsb_client \<Rightarrow> ('c \<Rightarrow> nat \<Rightarrow> byte list \<times> 'c) \<Rightarrow> nat \<Rightarrow> u32 \<Rightarrow> tsbuf \<Rightarrow> bool" where
  "write_ready cl wfr cs nb s \<longleftrightarrow>
     tsb_inv s \<and> writes_frames cl cs (unat nb) wfr \<and> cs = unat (m_cluster_size s) \<and>
     unat nb * cs < 2 ^ 32 \<and> 8 dvd unat nb"

definition write_moved ::
  "('c \<Rightarrow> nat \<Rightarrow> byte list \<times> 'c) \<Rightarrow> nat \<Rightarrow> tsbuf \<Rightarrow> 'c \<Rightarrow> nat \<Rightarrow> nat \<Rightarrow> tsbuf \<Rightarrow> 'c \<Rightarrow> bool" where
  "write_moved wfr cs s c j k s' c' \<longleftrightarrow>
     (\<exists>rb d. s' = with_buffers s rb d \<and> round_wrote wfr s c cs j k rb d c')"

interpretation wl: block_rounds "write_round cl nb" "write_ready cl wfr cs nb" tsb_space "write_moved wfr cs"
    cs "unat nb" for cl nb wfr cs
proof unfold_locales
  fix s j and bytes :: u32 and c :: 'a
  assume r: "write_ready cl wfr cs nb s" and j: "j < unat nb" "8 dvd j" and b: "unat bytes = (unat nb - j) * cs"
  note R = r [unfolded write_ready_def]
  obtain rb where rb: "m_event_buffer s = Some rb" using R by (auto simp: tsb_inv_def split: option.splits)
  have "tsb_space (with_buffers s rb' d') = tsb_space s - k * cs" "write_ready cl wfr cs nb (with_buffers s rb' d')"
    if "round_wrote wfr s c cs j k rb' d' c'" for k rb' d' c'
    using that R rb length_write_each [of wfr cs c "[j..<j + k]"] round_wrote_inv [OF that]
    by (auto simp: tsb_space_def round_wrote_def writes_frames_def write_ready_def simp flip: length_rb_contents)
  moreover have "if tsb_space s < 8 * cs then write_round cl nb bytes s c = Inr (Return False s c)
       else \<exists>k w rb' d' c'. 0 < k \<and> 8 dvd k \<and> j + k \<le> unat nb \<and> k * cs \<le> tsb_space s \<and>
           write_round cl nb bytes s c = Inr (Again w (with_buffers s rb' d') c') \<and>
           unat w = (unat nb - (j + k)) * cs \<and> round_wrote wfr s c cs j k rb' d' c'"
    using R j b rb by (intro write_round_sound) auto
  ultimately show "if tsb_space s < 8 * cs then write_round cl nb bytes s c = Inr (Return False s c)
      else \<exists>k w s' c'. 0 < k \<and> 8 dvd k \<and> j + k \<le> unat nb \<and> k * cs \<le> tsb_space s \<and>
        write_round cl nb bytes s c = Inr (Again w s' c') \<and> unat w = (unat nb - (j + k)) * cs \<and>
        write_ready cl wfr cs nb s' \<and> tsb_space s' = tsb_space s - k * cs \<and> write_moved wfr cs s c j k s' c'"
    unfolding write_moved_def by (simp split: if_splits) blast
next
  fix s j and c :: 'a
  assume "write_ready cl wfr cs nb s"
  then show "write_moved wfr cs s c j 0 s c"
    by (auto simp: write_moved_def round_wrote_def write_ready_def tsb_inv_def split: option.splits
        intro!: exI [of _ "the (m_event_buffer s)"] exI [of _ "the (m_process_buffer s)"])
next
  fix s c j k s1 c1 m s2 c2
  assume "write_moved wfr cs s c j k s1 c1" "write_moved wfr cs s1 c1 (j + k) m s2 c2"
  then show "write_moved wfr cs s c j (k + m) s2 c2"
    unfolding write_moved_def using round_wrote_trans by fastforce
next
  fix s assume "write_ready cl wfr cs nb s"
  then show "8 dvd unat nb \<and> 0 < cs" by (auto simp: write_ready_def tsb_inv_def)
qed

definition read_ready :: "'c tsb_client \<Rightarrow> ('c \<Rightarrow> nat \<Rightarrow> byte list \<Rightarrow> 'c) \<Rightarrow> nat \<Rightarrow> u32 \<Rightarrow> tsbuf \<Rightarrow> bool" where
  "read_ready cl rfr cs nb s \<longleftrightarrow>
     tsb_inv s \<and> reads_frames cl cs (unat nb) rfr \<and> cs = unat (m_cluster_size s) \<and>
     unat nb * cs < 2 ^ 32 \<and> 8 dvd unat nb"

definition read_moved ::
  "('c \<Rightarrow> nat \<Rightarrow> byte list \<Rightarrow> 'c) \<Rightarrow> nat \<Rightarrow> tsbuf \<Rightarrow> 'c \<Rightarrow> nat \<Rightarrow> nat \<Rightarrow> tsbuf \<Rightarrow> 'c \<Rightarrow> bool" where
  "read_moved rfr cs s c j k s' c' \<longleftrightarrow>
     (\<exists>rb d. s' = with_buffers s rb d \<and> round_read rfr s c cs j k rb d c')"

interpretation rl: block_rounds "read_round cl nb" "read_ready cl rfr cs nb" "\<lambda>s. length (tsb_bytes s)"
    "read_moved rfr cs" cs "unat nb" for cl nb rfr cs
proof unfold_locales
  fix s j and bytes :: u32 and c :: 'a
  assume r: "read_ready cl rfr cs nb s" and j: "j < unat nb" "8 dvd j" and b: "unat bytes = (unat nb - j) * cs"
  note R = r [unfolded read_ready_def]
  obtain rb where rb: "m_event_buffer s = Some rb" using R by (auto simp: tsb_inv_def split: option.splits)
  have "length (tsb_bytes (with_buffers s rb' d')) = length (tsb_bytes s) - k * cs"
    "read_ready cl rfr cs nb (with_buffers s rb' d')"
    if "round_read rfr s c cs j k rb' d' c'" for k rb' d' c'
    using that R rb round_read_inv [OF that]
    by (auto simp: tsb_bytes_def round_read_def read_ready_def simp del: length_rb_contents)
  moreover have "if length (tsb_bytes s) < 8 * cs then read_round cl nb bytes s c = Inr (Return False s c)
       else \<exists>k w rb' d' c'. 0 < k \<and> 8 dvd k \<and> j + k \<le> unat nb \<and> k * cs \<le> length (tsb_bytes s) \<and>
           read_round cl nb bytes s c = Inr (Again w (with_buffers s rb' d') c') \<and>
           unat w = (unat nb - (j + k)) * cs \<and> round_read rfr s c cs j k rb' d' c'"
    using R j b rb by (intro read_round_sound) auto
  ultimately show "if length (tsb_bytes s) < 8 * cs then read_round cl nb bytes s c = Inr (Return False s c)
      else \<exists>k w s' c'. 0 < k \<and> 8 dvd k \<and> j + k \<le> unat nb \<and> k * cs \<le> length (tsb_bytes s) \<and>
        read_round cl nb bytes s c = Inr (Again w s' c') \<and> unat w = (unat nb - (j + k)) * cs \<and>
        read_ready cl rfr cs nb s' \<and> length (tsb_bytes s') = length (tsb_bytes s) - k * cs \<and>
        read_moved rfr cs s c j k s' c'"
    unfolding read_moved_def by (simp split: if_splits) blast
next
  fix s j and c :: 'a
  assume "read_ready cl rfr cs nb s"
  then show "read_moved rfr cs s c j 0 s c"
    by (auto simp: read_moved_def round_read_def read_ready_def tsb_inv_def split: option.splits
        intro!: exI [of _ "the (m_event_buffer s)"] exI [of _ "the (m_process_buffer s)"])
next
  fix s c j k s1 c1 m s2 c2
  assume "read_moved rfr cs s c j k s1 c1" "read_moved rfr cs s1 c1 (j + k) m s2 c2"
  then show "read_moved rfr cs s c j (k + m) s2 c2"
    unfolding read_moved_def using round_read_trans by fastforce
next
  fix s assume "read_ready cl rfr cs nb s"
  then show "8 dvd unat nb \<and> 0 < cs" by (auto simp: read_ready_def tsb_inv_def)
qed

section \<open>The frame counter\<close>

text \<open>With a timestamp in range and the right number of frames the counter and the loop are updated;
  nothing else of the buffer changes.\<close>

lemma incrementFrameCounter_Inr:
  assumes "0 \<le> ts" "ts < m_wrap_at s" "nb = m_update_period s" "m_update_period s \<noteq> 0"
  shows "\<exists>tail nxt e2 r. incrementFrameCounter nb ts s =
    Inr (s\<lparr>m_framecounter := m_framecounter s + nb, m_buffer_tail_timestamp := tail,
           m_buffer_next_tail_timestamp := nxt, m_dll_e2 := e2, m_current_rate := r\<rparr>)"
proof -
  define err where "err = dll_error s ts"
  define next1 where "next1 = rd (m_buffer_next_tail_timestamp s + rd (rd (m_dll_b s * err) + m_dll_e2 s))"
  define s1 where "s1 = s\<lparr>m_framecounter := m_framecounter s + nb,
      m_buffer_tail_timestamp := m_buffer_next_tail_timestamp s,
      m_buffer_next_tail_timestamp := (if m_wrap_at s \<le> next1 then rd (next1 - m_wrap_at s) else next1),
      m_dll_e2 := rd (m_dll_e2 s + rd (m_dll_c s * err))\<rparr>"
  have "m_update_period s1 \<noteq> 0" using assms(4) by (simp add: s1_def)
  then obtain r where "calculateRate s1 = Inr r" by (simp add: calculateRate_def Let_def)
  then have "incrementFrameCounter nb ts s = Inr (s1\<lparr>m_current_rate := r\<rparr>)"
    using assms unfolding incrementFrameCounter_def Let_def err_def [symmetric] next1_def [symmetric]
      s1_def [symmetric] by simp
  then show ?thesis unfolding s1_def by blast
qed

lemma incrementFrameCounter_ok_iff:
  "(\<exists>s'. incrementFrameCounter nb ts s = Inr s') \<longleftrightarrow>
     0 \<le> ts \<and> ts < m_wrap_at s \<and> nb = m_update_period s \<and> m_update_period s \<noteq> 0"
proof
  assume "\<exists>s'. incrementFrameCounter nb ts s = Inr s'"
  then show "0 \<le> ts \<and> ts < m_wrap_at s \<and> nb = m_update_period s \<and> m_update_period s \<noteq> 0"
    by (auto simp: incrementFrameCounter_def Let_def bind_result_Inr_iff calculateRate_def split: if_splits)
next
  assume "0 \<le> ts \<and> ts < m_wrap_at s \<and> nb = m_update_period s \<and> m_update_period s \<noteq> 0"
  then show "\<exists>s'. incrementFrameCounter nb ts s = Inr s'" using incrementFrameCounter_Inr by blast
qed

lemma unat_total_bytes:
  assumes "tsb_inv s" "unat nb * unat (m_cluster_size s) < 2 ^ 32"
  shows "unat (nb * m_events_per_frame s * m_event_size s) = unat nb * unat (m_cluster_size s)"
proof -
  have "nb * m_events_per_frame s * m_event_size s = nb * m_cluster_size s"
    using assms(1) by (simp add: tsb_inv_def mult.assoc)
  then show ?thesis using assms(2) by (simp add: unat_mult_small)
qed

lemma write_loop:
  assumes "write_ready cl wfr cs nb s"
  shows "\<exists>rb d. block_loop (write_round cl nb) (nb * m_events_per_frame s * m_event_size s) s c =
       Some (Inr (unat nb * cs \<le> tsb_space s, with_buffers s rb d,
                  snd (write_each wfr c [0..<frames_done cs (unat nb) (tsb_space s)]))) \<and>
     tsb_inv (with_buffers s rb d) \<and>
     tsb_bytes (with_buffers s rb d) =
       tsb_bytes s @ fst (write_each wfr c [0..<frames_done cs (unat nb) (tsb_space s)])"
proof -
  have b: "unat (nb * m_events_per_frame s * m_event_size s) = (unat nb - 0) * cs"
    using assms unat_total_bytes [of s nb] by (auto simp: write_ready_def)
  obtain s' c' where L: "block_loop (write_round cl nb) (nb * m_events_per_frame s * m_event_size s) s c =
       Some (Inr (unat nb * cs \<le> tsb_space s, s', c'))" "write_ready cl wfr cs nb s'"
    "write_moved wfr cs s c 0 (frames_done cs (unat nb) (tsb_space s)) s' c'"
    using wl.loop_returns [OF assms _ _ b, of c] by auto
  then obtain rb d where m: "s' = with_buffers s rb d"
    "round_wrote wfr s c cs 0 (frames_done cs (unat nb) (tsb_space s)) rb d c'"
    by (auto simp: write_moved_def)
  have "\<exists>rb0. m_event_buffer s = Some rb0" using assms by (auto simp: write_ready_def tsb_inv_def split: option.splits)
  then show ?thesis
    using L m by (intro exI [of _ rb] exI [of _ d]) (auto simp: round_wrote_def tsb_bytes_def write_ready_def)
qed

lemma read_loop:
  assumes "read_ready cl rfr cs nb s"
  shows "\<exists>rb d. block_loop (read_round cl nb) (nb * m_events_per_frame s * m_event_size s) s c =
       Some (Inr (unat nb * cs \<le> length (tsb_bytes s), with_buffers s rb d,
                  read_each rfr cs c [0..<frames_done cs (unat nb) (length (tsb_bytes s))] (tsb_bytes s))) \<and>
     tsb_inv (with_buffers s rb d) \<and>
     tsb_bytes (with_buffers s rb d) =
       drop (frames_done cs (unat nb) (length (tsb_bytes s)) * cs) (tsb_bytes s)"
proof -
  have b: "unat (nb * m_events_per_frame s * m_event_size s) = (unat nb - 0) * cs"
    using assms unat_total_bytes [of s nb] by (auto simp: read_ready_def)
  obtain s' c' where L: "block_loop (read_round cl nb) (nb * m_events_per_frame s * m_event_size s) s c =
       Some (Inr (unat nb * cs \<le> length (tsb_bytes s), s', c'))" "read_ready cl rfr cs nb s'"
    "read_moved rfr cs s c 0 (frames_done cs (unat nb) (length (tsb_bytes s))) s' c'"
    using rl.loop_returns [OF assms _ _ b, of c] by auto
  then obtain rb d where m: "s' = with_buffers s rb d"
    "round_read rfr s c cs 0 (frames_done cs (unat nb) (length (tsb_bytes s))) rb d c'"
    by (auto simp: read_moved_def)
  have "\<exists>rb0. m_event_buffer s = Some rb0" using assms by (auto simp: read_ready_def tsb_inv_def split: option.splits)
  then show ?thesis
    using L m by (intro exI [of _ rb] exI [of _ d]) (auto simp: round_read_def tsb_bytes_def read_ready_def)
qed

lemma frames_done_all: "n * cs \<le> space \<Longrightarrow> frames_done cs n space = n"
  by (simp add: frames_done_def)

section \<open>Properties\<close>

text \<open>A small buffer and a client for the concrete instances: frames of one byte, a ring buffer of
  16 bytes with its positions shortly before the end; the client writes the frame numbers and
  collects what it reads.\<close>

definition sample_client :: "byte list tsb_client" where
  "sample_client =
     \<lparr>processReadBlock = (\<lambda>c d nev off. (True, c @ d)),
      processWriteBlock = (\<lambda>c d nev off. (True, map of_nat [unat off..<unat off + unat nev], c))\<rparr>"

definition sample_ring :: ringbuffer where
  "sample_ring = \<lparr>rb_buf = replicate 16 0, rb_write_ptr = 12, rb_read_ptr = 12, rb_size = 16,
     rb_size_mask = 15, rb_mlocked = False\<rparr>"

text \<open>The same ring buffer with eight bytes in it, five of them before the end of the storage.\<close>

definition sample_full_ring :: ringbuffer where
  "sample_full_ring = sample_ring\<lparr>rb_buf := [15, 16, 17, 0, 0, 0, 0, 0, 0, 0, 0, 10, 11, 12, 13, 14],
     rb_write_ptr := 3, rb_read_ptr := 11\<rparr>"

definition sample_buffer :: tsbuf where
  "sample_buffer = TimestampedBuffer\<lparr>m_event_buffer := Some sample_ring,
     m_process_buffer := Some (replicate 8 0), m_cluster_size := 1, m_process_block_size := 8,
     m_event_size := 1, m_events_per_frame := 1, m_buffer_size := 15, m_wrap_at := 3145728000,
     m_transparent := False, m_nominal_rate := 512, m_current_rate := 512, m_update_period := 8,
     m_buffer_tail_timestamp := 0, m_buffer_next_tail_timestamp := 4096, m_dll_e2 := 4096\<rparr>"

lemma write_each_bytes: "write_each (\<lambda>c i. ([f i], c)) c ix = (map f ix, c)"
  by (induction ix) simp_all

lemma read_each_bytes: "length d = length ix \<Longrightarrow> read_each (\<lambda>c i x. c @ x) (Suc 0) c ix d = c @ d"
proof (induction ix arbitrary: c d)
  case (Cons i ix)
  then show ?case by (cases d) simp_all
qed simp

lemma sample_ready:
  "write_ready sample_client (\<lambda>c i. ([of_nat i], c)) 1 8 sample_buffer"
  "rb_inv sample_ring" "rb_contents sample_ring = []"
  by (auto simp: write_ready_def writes_frames_def sample_client_def write_each_bytes
      tsb_inv_def sample_buffer_def TimestampedBuffer_def sample_ring_def rb_inv_def rb_contents_empty
      intro!: bexI [of _ 4])

lemma sample_space: "tsb_bytes sample_buffer = []" "tsb_space sample_buffer = 15"
  using sample_ready(3)
  by (simp_all add: tsb_bytes_def tsb_space_def sample_buffer_def rb_capacity_def)
    (simp_all add: sample_ring_def rb_fill_def ring_dist_def)

text \<open>C4. Writing a period of frames in place. For a client that writes a block as its frames one by
  one, a period that is a whole number of blocks and for which there is room: the method returns
  true, no assertion fails and nothing is written outside the buffers; the frames of the period are
  appended to the buffer in order, each written once, whatever way the ring buffer wraps around;
  and the frame counter has grown by their number.\<close>

theorem blockProcessWriteFrames_sound:
  assumes "write_ready cl wfr cs nb s" "unat nb * cs \<le> tsb_space s"
    "0 \<le> ts" "ts < m_wrap_at s" "nb = m_update_period s" "nb \<noteq> 0"
  shows "\<exists>s'. blockProcessWriteFrames cl nb ts s c =
             Some (Inr (True, s', snd (write_each wfr c [0..<unat nb]))) \<and> tsb_inv s' \<and>
           tsb_bytes s' = tsb_bytes s @ fst (write_each wfr c [0..<unat nb]) \<and>
           m_framecounter s' = m_framecounter s + nb"
proof -
  obtain rb d where L: "block_loop (write_round cl nb) (nb * m_events_per_frame s * m_event_size s) s c =
       Some (Inr (True, with_buffers s rb d, snd (write_each wfr c [0..<unat nb])))"
    "tsb_inv (with_buffers s rb d)"
    "tsb_bytes (with_buffers s rb d) = tsb_bytes s @ fst (write_each wfr c [0..<unat nb])"
    using write_loop [OF assms(1), of c] assms(2) by (auto simp: frames_done_all)
  obtain tail nxt e2 r where "incrementFrameCounter nb ts (with_buffers s rb d) =
    Inr ((with_buffers s rb d)\<lparr>m_framecounter := m_framecounter s + nb, m_buffer_tail_timestamp := tail,
           m_buffer_next_tail_timestamp := nxt, m_dll_e2 := e2, m_current_rate := r\<rparr>)"
    using incrementFrameCounter_Inr [of ts "with_buffers s rb d" nb] assms(3-6) by auto
  then show ?thesis
    using L by (auto simp: blockProcessWriteFrames_def tsb_inv_def tsb_bytes_def)
qed

theorem blockProcessWriteFrames_sound_witness:
  "\<exists>s'. blockProcessWriteFrames sample_client 8 4096 sample_buffer [] = Some (Inr (True, s', [])) \<and>
     tsb_bytes s' = [0, 1, 2, 3, 4, 5, 6, 7] \<and> m_framecounter s' = 8"
proof -
  have "[0..<8] = [0, 1, 2, 3, 4, 5, 6, 7 :: nat]" by (simp add: upt_conv_Cons)
  then show ?thesis
    using blockProcessWriteFrames_sound [OF sample_ready(1), of 4096 "[]"] sample_space
    by (auto simp: write_each_bytes) (auto simp: sample_buffer_def TimestampedBuffer_def)
qed

text \<open>C17. The same for reading a period in place: when the buffer holds the period the method returns
  true, the client has consumed the oldest frames in order, each once, and exactly those have left
  the buffer; the frame counter has shrunk by their number. When it holds less the method returns
  false, but the whole blocks that were there are gone, while the frame counter still counts them.\<close>

theorem blockProcessReadFrames_sound:
  assumes "read_ready cl rfr cs nb s"
  shows "if unat nb * cs \<le> length (tsb_bytes s)
         then \<exists>s'. blockProcessReadFrames cl nb s c =
                Some (Inr (True, s', read_each rfr cs c [0..<unat nb] (tsb_bytes s))) \<and> tsb_inv s' \<and>
                tsb_bytes s' = drop (unat nb * cs) (tsb_bytes s) \<and>
                m_framecounter s' = m_framecounter s - nb
         else \<exists>s' c'. blockProcessReadFrames cl nb s c = Some (Inr (False, s', c')) \<and> tsb_inv s' \<and>
                tsb_bytes s' = drop (8 * (length (tsb_bytes s) div (8 * cs)) * cs) (tsb_bytes s) \<and>
                m_framecounter s' = m_framecounter s"
proof -
  obtain rb d where L: "block_loop (read_round cl nb) (nb * m_events_per_frame s * m_event_size s) s c =
       Some (Inr (unat nb * cs \<le> length (tsb_bytes s), with_buffers s rb d,
                  read_each rfr cs c [0..<frames_done cs (unat nb) (length (tsb_bytes s))] (tsb_bytes s)))"
    "tsb_inv (with_buffers s rb d)"
    "tsb_bytes (with_buffers s rb d) =
       drop (frames_done cs (unat nb) (length (tsb_bytes s)) * cs) (tsb_bytes s)"
    using read_loop [OF assms, of c] by blast
  then show ?thesis
    by (auto simp: blockProcessReadFrames_def decrementFrameCounter_def frames_done_def tsb_inv_def tsb_bytes_def)
qed

lemma sample_read_ready:
  "read_ready sample_client (\<lambda>c i x. c @ x) 1 8 (sample_buffer\<lparr>m_event_buffer := Some sample_full_ring\<rparr>)"
  "tsb_bytes (sample_buffer\<lparr>m_event_buffer := Some sample_full_ring\<rparr>) = [10, 11, 12, 13, 14, 15, 16, 17]"
  by (auto simp: read_ready_def reads_frames_def sample_client_def read_each_bytes
      tsb_inv_def sample_buffer_def TimestampedBuffer_def sample_full_ring_def sample_ring_def rb_inv_def
      intro!: bexI [of _ 4])
    (simp add: tsb_bytes_def rb_contents_def rb_fill_def ring_dist_def ring_slice_def upt_conv_Cons)

theorem blockProcessReadFrames_sound_witness:
  "\<exists>s'. blockProcessReadFrames sample_client 8 (sample_buffer\<lparr>m_event_buffer := Some sample_full_ring\<rparr>) [] =
       Some (Inr (True, s', [10, 11, 12, 13, 14, 15, 16, 17])) \<and> tsb_bytes s' = []"
  using blockProcessReadFrames_sound [OF sample_read_ready(1), of "[]"] sample_read_ready(2)
  by (auto simp: read_each_bytes)

text \<open>C27. When there is no room for the whole period the method returns false, but the whole blocks
  that did fit are in the buffer by then and the frame counter does not count them.\<close>

theorem blockProcessWriteFrames_overrun:
  assumes "write_ready cl wfr cs nb s" "tsb_space s < unat nb * cs"
  shows "\<exists>s' c'. blockProcessWriteFrames cl nb ts s c = Some (Inr (False, s', c')) \<and> tsb_inv s' \<and>
           tsb_bytes s' = tsb_bytes s @ fst (write_each wfr c [0..<8 * (tsb_space s div (8 * cs))]) \<and>
           m_framecounter s' = m_framecounter s"
proof -
  obtain rb d where L: "block_loop (write_round cl nb) (nb * m_events_per_frame s * m_event_size s) s c =
       Some (Inr (False, with_buffers s rb d, snd (write_each wfr c [0..<8 * (tsb_space s div (8 * cs))])))"
    "tsb_inv (with_buffers s rb d)"
    "tsb_bytes (with_buffers s rb d) =
       tsb_bytes s @ fst (write_each wfr c [0..<8 * (tsb_space s div (8 * cs))])"
    using write_loop [OF assms(1), of c] assms(2) by (auto simp: frames_done_def)
  then show ?thesis by (auto simp: blockProcessWriteFrames_def)
qed

theorem blockProcessWriteFrames_overrun_witness:
  "\<exists>s' c'. blockProcessWriteFrames sample_client 16 0 (sample_buffer\<lparr>m_update_period := 16\<rparr>) [] =
       Some (Inr (False, s', c')) \<and> tsb_bytes s' = [0, 1, 2, 3, 4, 5, 6, 7] \<and> m_framecounter s' = 0"
proof -
  let ?s = "sample_buffer\<lparr>m_update_period := 16\<rparr>"
  have r: "write_ready sample_client (\<lambda>c i. ([of_nat i], c)) 1 16 ?s"
    by (auto simp: write_ready_def writes_frames_def sample_client_def write_each_bytes
        tsb_inv_def sample_buffer_def TimestampedBuffer_def sample_ready(2))
  have "tsb_bytes ?s = []" "tsb_space ?s = 15" "m_framecounter ?s = 0"
    using sample_space by (simp_all add: tsb_bytes_def tsb_space_def)
      (simp add: sample_buffer_def TimestampedBuffer_def)
  moreover have "[0..<8] = [0, 1, 2, 3, 4, 5, 6, 7 :: nat]" by (simp add: upt_conv_Cons)
  ultimately show ?thesis
    using blockProcessWriteFrames_overrun [OF r, of 0 "[]"] by (auto simp: write_each_bytes)
qed

end
