(* ===== verification/FrameAccounting.thy ===== *)
theory FrameAccounting
  imports BlockProcessing
begin

text \<open>
  The frame counter of the timestamped buffer counts the frames in its ring buffer. The successful
  calls of the operations of a prepared buffer are the steps of a transition relation, frame by
  frame and block operations alike; the relation between the counter and the bytes is an invariant
  of it. Preparing the buffer establishes the invariant. A drop is a step only when the buffer
  holds the frames: \<open>dropFrames\<close> does not test this and always succeeds, and the last part of the
  main property shows that the count is wrong afterwards.
\<close>

section \<open>The invariant\<close>

definition frames_counted :: "tsbuf \<Rightarrow> bool" where
  "frames_counted s \<longleftrightarrow>
     tsb_inv s \<and> length (tsb_bytes s) = unat (m_framecounter s) * unat (m_cluster_size s)"

text \<open>A request whose size in bytes does not overflow.\<close>

definition request_ok :: "u32 \<Rightarrow> tsbuf \<Rightarrow> bool" where
  "request_ok n s \<longleftrightarrow> unat n * unat (m_cluster_size s) < 2 ^ 32"

lemma unat_request:
  assumes "tsb_inv s" "request_ok n s"
  shows "unat (n * m_event_size s * m_events_per_frame s) = unat n * unat (m_cluster_size s)"
  using unat_total_bytes [OF assms(1)] assms(2) by (simp add: request_ok_def ac_simps)

lemma tsb_inv_buffer:
  assumes "tsb_inv s"
  obtains rb where "m_event_buffer s = Some rb" "rb_inv rb" "tsb_bytes s = rb_contents rb"
  using assms by (auto simp: tsb_inv_def tsb_bytes_def split: option.splits)

lemma tsb_inv_cluster: "tsb_inv s \<Longrightarrow> 0 < unat (m_cluster_size s)"
  unfolding tsb_inv_def by blast

lemma tsb_inv_fields:
  assumes "tsb_inv s" "rb_inv rb"
    "m_event_buffer s' = Some rb" "m_process_buffer s' = m_process_buffer s"
    "m_cluster_size s' = m_cluster_size s" "m_process_block_size s' = m_process_block_size s"
    "m_events_per_frame s' = m_events_per_frame s" "m_event_size s' = m_event_size s"
  shows "tsb_inv s'"
  using assms unfolding tsb_inv_def by (auto split: option.splits)

lemma incrementFrameCounter_fields:
  assumes "incrementFrameCounter nb ts s = Inr s'"
  shows "m_framecounter s' = m_framecounter s + nb" "m_event_buffer s' = m_event_buffer s"
    "m_process_buffer s' = m_process_buffer s" "m_cluster_size s' = m_cluster_size s"
    "m_process_block_size s' = m_process_block_size s" "m_events_per_frame s' = m_events_per_frame s"
    "m_event_size s' = m_event_size s"
  using assms by (auto simp: incrementFrameCounter_def Let_def bind_result_Inr_iff)

lemma set_timestamp_fields [simp]:
  "m_event_buffer (setBufferTailTimestamp ts s) = m_event_buffer s"
  "m_framecounter (setBufferTailTimestamp ts s) = m_framecounter s"
  "m_process_buffer (setBufferTailTimestamp ts s) = m_process_buffer s"
  "m_cluster_size (setBufferTailTimestamp ts s) = m_cluster_size s"
  "m_process_block_size (setBufferTailTimestamp ts s) = m_process_block_size s"
  "m_events_per_frame (setBufferTailTimestamp ts s) = m_events_per_frame s"
  "m_event_size (setBufferTailTimestamp ts s) = m_event_size s"
  "m_event_buffer (setBufferHeadTimestamp ts s) = m_event_buffer s"
  "m_framecounter (setBufferHeadTimestamp ts s) = m_framecounter s"
  "m_process_buffer (setBufferHeadTimestamp ts s) = m_process_buffer s"
  "m_cluster_size (setBufferHeadTimestamp ts s) = m_cluster_size s"
  "m_process_block_size (setBufferHeadTimestamp ts s) = m_process_block_size s"
  "m_events_per_frame (setBufferHeadTimestamp ts s) = m_events_per_frame s"
  "m_event_size (setBufferHeadTimestamp ts s) = m_event_size s"
  by (simp_all add: setBufferTailTimestamp_def setBufferHeadTimestamp_def set_tail_def Let_def)

lemma setBandwidth_fields [simp]:
  "m_event_buffer (snd (setBandwidth bw s)) = m_event_buffer s"
  "m_framecounter (snd (setBandwidth bw s)) = m_framecounter s"
  "m_process_buffer (snd (setBandwidth bw s)) = m_process_buffer s"
  "m_cluster_size (snd (setBandwidth bw s)) = m_cluster_size s"
  "m_process_block_size (snd (setBandwidth bw s)) = m_process_block_size s"
  "m_events_per_frame (snd (setBandwidth bw s)) = m_events_per_frame s"
  "m_event_size (snd (setBandwidth bw s)) = m_event_size s"
  by (simp_all add: setBandwidth_def Let_def)

text \<open>Adding and removing \<open>n\<close> frames keeps the count right: no overflow, since a ring buffer holds
  less than \<open>2 ^ 30\<close> bytes.\<close>

lemma le_mult_pos: "0 < c \<Longrightarrow> x \<le> x * (c :: nat)"
  by simp

lemma count_add:
  assumes "frames_counted s" "rb_inv rb" "m_event_buffer s' = Some rb"
    "m_process_buffer s' = m_process_buffer s"
    "m_cluster_size s' = m_cluster_size s" "m_process_block_size s' = m_process_block_size s"
    "m_events_per_frame s' = m_events_per_frame s" "m_event_size s' = m_event_size s"
    "length (rb_contents rb) = length (tsb_bytes s) + unat n * unat (m_cluster_size s)"
    "m_framecounter s' = m_framecounter s + n"
  shows "frames_counted s'"
proof -
  have inv: "tsb_inv s'"
    using assms(1) tsb_inv_fields [OF _ assms(2-8)] by (simp add: frames_counted_def)
  have cs: "0 < unat (m_cluster_size s)" using assms(1) tsb_inv_cluster by (simp add: frames_counted_def)
  have len: "length (rb_contents rb) = (unat (m_framecounter s) + unat n) * unat (m_cluster_size s)"
    using assms(1,9) by (simp only: frames_counted_def distrib_right)
  have "length (rb_contents rb) < 1073741824"
    using rb_fill_less [OF assms(2)] rb_inv_bounds(2) [OF assms(2)] by simp
  then have "(unat (m_framecounter s) + unat n) * unat (m_cluster_size s) < 1073741824" by (simp only: len)
  then have "unat (m_framecounter s) + unat n < 1073741824"
    by (rule order.strict_trans1 [OF le_mult_pos [OF cs]])
  then have "unat (m_framecounter s + n) = unat (m_framecounter s) + unat n"
    by (intro unat_plus_small) simp
  then show ?thesis
    using inv len assms(3,5,10) by (simp add: frames_counted_def tsb_bytes_def)
qed

lemma count_remove:
  assumes "frames_counted s" "rb_inv rb" "m_event_buffer s' = Some rb"
    "m_process_buffer s' = m_process_buffer s"
    "m_cluster_size s' = m_cluster_size s" "m_process_block_size s' = m_process_block_size s"
    "m_events_per_frame s' = m_events_per_frame s" "m_event_size s' = m_event_size s"
    "length (rb_contents rb) = length (tsb_bytes s) - unat n * unat (m_cluster_size s)"
    "unat n \<le> unat (m_framecounter s)" "m_framecounter s' = m_framecounter s - n"
  shows "frames_counted s'"
proof -
  have "tsb_inv s'"
    using assms(1) tsb_inv_fields [OF _ assms(2-8)] by (simp add: frames_counted_def)
  moreover have "length (rb_contents rb) = (unat (m_framecounter s) - unat n) * unat (m_cluster_size s)"
    using assms(1,9) by (simp only: frames_counted_def diff_mult_distrib)
  ultimately show ?thesis
    using assms(3,5,10,11) by (simp add: frames_counted_def tsb_bytes_def unat_minus_small)
qed

lemma counted_same:
  assumes "frames_counted s" "m_event_buffer s' = m_event_buffer s" "m_process_buffer s' = m_process_buffer s"
    "m_cluster_size s' = m_cluster_size s" "m_process_block_size s' = m_process_block_size s"
    "m_events_per_frame s' = m_events_per_frame s" "m_event_size s' = m_event_size s"
    "m_framecounter s' = m_framecounter s"
  shows "frames_counted s'"
proof -
  have "tsb_inv s" using assms(1) by (simp add: frames_counted_def)
  then obtain rb where "m_event_buffer s = Some rb" "rb_inv rb" "tsb_bytes s = rb_contents rb"
    by (rule tsb_inv_buffer)
  then show ?thesis using assms by (intro count_add [of s rb s' 0]) simp_all
qed

section \<open>Steps\<close>

text \<open>The calls that succeed, on a buffer with the client \<open>cl\<close>, whose state is arbitrary in every call.
  The callers pass the bytes of the frames they announce, and the client of a block operation writes
  or reads a block as its frames. A drop is only a step when the buffer holds the frames.\<close>

inductive tsb_step :: "'c tsb_client \<Rightarrow> tsbuf \<Rightarrow> tsbuf \<Rightarrow> bool" for cl :: "'c tsb_client" where
  write_frames: "writeFrames n data ts s = Inr (True, s') \<Longrightarrow> request_ok n s \<Longrightarrow>
          unat n * unat (m_cluster_size s) \<le> length data \<Longrightarrow> tsb_step cl s s'"
| preload: "preloadFrames n data keep s = Inr (True, s') \<Longrightarrow> request_ok n s \<Longrightarrow>
          unat n * unat (m_cluster_size s) \<le> length data \<Longrightarrow> tsb_step cl s s'"
| dummy: "writeDummyFrame s = Inr (True, s') \<Longrightarrow> tsb_step cl s s'"
| read_frames: "readFrames n s = Inr (True, data, s') \<Longrightarrow> request_ok n s \<Longrightarrow> tsb_step cl s s'"
| drop_frames: "dropFrames n s = Inr (True, s') \<Longrightarrow> request_ok n s \<Longrightarrow> unat n \<le> unat (m_framecounter s) \<Longrightarrow>
          tsb_step cl s s'"
| clear: "clearBuffer s = Inr (True, s') \<Longrightarrow> tsb_step cl s s'"
| set_tail: "tsb_step cl s (setBufferTailTimestamp ts s)"
| set_head: "tsb_step cl s (setBufferHeadTimestamp ts s)"
| transparent: "tsb_step cl s (setTransparent b s)"
| rate: "tsb_step cl s (setRate r s)"
| bandwidth: "setBandwidth bw s = (ok, s') \<Longrightarrow> tsb_step cl s s'"
| resize: "resizeBuffer heap n s = Inr (True, s') \<Longrightarrow> tsb_step cl s s'"
| block_write: "blockProcessWriteFrames cl n ts s c = Some (Inr (True, s', c')) \<Longrightarrow> request_ok n s \<Longrightarrow>
          8 dvd unat n \<Longrightarrow> writes_frames cl (unat (m_cluster_size s)) (unat n) wfr \<Longrightarrow> tsb_step cl s s'"
| block_read: "blockProcessReadFrames cl n s c = Some (Inr (True, s', c')) \<Longrightarrow> request_ok n s \<Longrightarrow>
          8 dvd unat n \<Longrightarrow> reads_frames cl (unat (m_cluster_size s)) (unat n) rfr \<Longrightarrow> tsb_step cl s s'"

text \<open>Writing the bytes of \<open>n\<close> frames to the ring buffer, completely.\<close>

lemma ring_written:
  assumes "rb_inv rb" "ffado_ringbuffer_write rb data (ucast w) = Inr (m, rb')" "\<not> m < ucast (w :: u32)"
    "unat w \<le> length data"
  shows "rb_inv rb' \<and> length (rb_contents rb') = length (rb_contents rb) + unat w \<and>
         rb_contents rb' = rb_contents rb @ take (unat w) data"
proof -
  have le: "unat (ucast w :: u64) \<le> length data" using assms(4) by simp
  obtain m1 rb1 where w: "ffado_ringbuffer_write rb data (ucast w) = Inr (m1, rb1)" "rb_inv rb1"
    "unat m1 = min (unat (ucast w :: u64)) (rb_capacity rb - length (rb_contents rb))"
    "rb_contents rb1 = rb_contents rb @ take (unat m1) data"
    using ringbuffer_put_law [OF assms(1) le] by blast
  then have "m1 = m" "rb1 = rb'" using assms(2) by simp_all
  moreover have "unat m = unat w" using w(3) assms(3) calculation by (simp add: word_less_nat_alt)
  ultimately show ?thesis using w(2,4) assms(4) by simp
qed

lemma ring_write_all:
  assumes "rb_inv rb" "ffado_ringbuffer_write rb data (ucast w) = Inr (m, rb')" "\<not> m < ucast (w :: u32)"
    "unat w \<le> length data"
  shows "rb_inv rb' \<and> length (rb_contents rb') = length (rb_contents rb) + unat w"
  using ring_written [OF assms] by blast

lemma ring_read_all:
  assumes "rb_inv rb" "ffado_ringbuffer_read rb (ucast w) = Inr (m, data, rb')" "\<not> m < ucast (w :: u32)"
  shows "rb_inv rb' \<and> unat w \<le> length (rb_contents rb) \<and>
         length (rb_contents rb') = length (rb_contents rb) - unat w \<and> data = take (unat w) (rb_contents rb)"
proof -
  obtain m1 rb1 where w: "ffado_ringbuffer_read rb (ucast w) = Inr (m1, take (unat (ucast w :: u64)) (rb_contents rb), rb1)"
    "rb_inv rb1" "unat m1 = min (unat (ucast w :: u64)) (length (rb_contents rb))"
    "rb_contents rb1 = drop (unat (ucast w :: u64)) (rb_contents rb)"
    using ringbuffer_get_law [OF assms(1), of "ucast w"] by blast
  then have "m1 = m" "rb1 = rb'" "data = take (unat w) (rb_contents rb)" using assms(2) by simp_all
  moreover have "unat w \<le> length (rb_contents rb)" using w(3) assms(3) calculation by (simp add: word_less_nat_alt)
  ultimately show ?thesis using w(2,4) by simp
qed

lemma counted_write:
  assumes "frames_counted s" "writeFrames n data ts s = Inr (True, s')" "request_ok n s"
    "unat n * unat (m_cluster_size s) \<le> length data"
  shows "frames_counted s'"
proof -
  have inv: "tsb_inv s" using assms(1) by (simp add: frames_counted_def)
  obtain rb where rb: "m_event_buffer s = Some rb" "rb_inv rb" "tsb_bytes s = rb_contents rb"
    using inv by (rule tsb_inv_buffer)
  note n = unat_request [OF inv assms(3)]
  show ?thesis
  proof (cases "m_transparent s")
    case True
    let ?c = "m_buffer_tail_timestamp s < TIMESTAMP_MAX \<and> m_buffer_next_tail_timestamp s < TIMESTAMP_MAX"
    consider "s' = setBufferTailTimestamp ts s"
      | s2 where "incrementFrameCounter n ts s = Inr s2" "s' = setBufferTailTimestamp ts (decrementFrameCounter n s2)"
    proof (cases ?c)
      case c: True
      have "\<exists>s2. incrementFrameCounter n ts s = Inr s2 \<and> s' = setBufferTailTimestamp ts (decrementFrameCounter n s2)"
        using assms(2) True unfolding writeFrames_def Let_def if_P [OF True] if_P [OF c]
        by (simp add: bind_result_Inr_iff) blast
      then show thesis using that(2) by blast
    next
      case c: False
      have "s' = setBufferTailTimestamp ts s"
        using assms(2) unfolding writeFrames_def Let_def if_P [OF True] if_not_P [OF c] by simp
      then show thesis by (rule that(1))
    qed
    then show ?thesis
    proof cases
      case 1
      show ?thesis by (rule counted_same [OF assms(1)]) (simp_all add: 1)
    next
      case (2 s2)
      note 3 = incrementFrameCounter_fields [OF 2(1)]
      show ?thesis
        by (rule counted_same [OF assms(1)]) (simp_all add: 2(2) 3 decrementFrameCounter_def)
    qed
  next
    case False
    then obtain m rb' where w: "ffado_ringbuffer_write rb data (ucast (n * m_event_size s * m_events_per_frame s)) = Inr (m, rb')"
      "\<not> m < ucast (n * m_event_size s * m_events_per_frame s)"
      "incrementFrameCounter n ts (s\<lparr>m_event_buffer := Some rb'\<rparr>) = Inr s'"
      using assms(2) rb(1)
      by (auto simp: writeFrames_def with_buffer_def Let_def bind_result_Inr_iff split: if_splits)
    have "unat (n * m_event_size s * m_events_per_frame s) \<le> length data" using assms(4) n by simp
    note rw = ring_write_all [OF rb(2) w(1,2) this]
    show ?thesis
      using incrementFrameCounter_fields [OF w(3)] rw n rb(3)
      by (intro count_add [OF assms(1), of rb' s' n]) simp_all
  qed
qed

lemma counted_preload:
  assumes "frames_counted s" "preloadFrames n data keep s = Inr (True, s')" "request_ok n s"
    "unat n * unat (m_cluster_size s) \<le> length data"
  shows "frames_counted s'"
proof -
  have inv: "tsb_inv s" using assms(1) by (simp add: frames_counted_def)
  obtain rb where rb: "m_event_buffer s = Some rb" "rb_inv rb" "tsb_bytes s = rb_contents rb"
    using inv by (rule tsb_inv_buffer)
  note n = unat_request [OF inv assms(3)]
  obtain m rb' ts where w: "ffado_ringbuffer_write rb data (ucast (n * m_event_size s * m_events_per_frame s)) = Inr (m, rb')"
    "\<not> m < ucast (n * m_event_size s * m_events_per_frame s)"
    and s': "s' = (if keep then setBufferHeadTimestamp ts (s\<lparr>m_event_buffer := Some rb', m_framecounter := m_framecounter s + n\<rparr>)
                   else setBufferTailTimestamp ts (s\<lparr>m_event_buffer := Some rb', m_framecounter := m_framecounter s + n\<rparr>))"
    using assms(2) rb(1)
    by (auto simp: preloadFrames_def with_buffer_def Let_def bind_result_Inr_iff split_def split: if_splits)
  have "unat (n * m_event_size s * m_events_per_frame s) \<le> length data" using assms(4) n by simp
  note rw = ring_write_all [OF rb(2) w this]
  show ?thesis
    using rw n rb(3) by (intro count_add [OF assms(1), of rb' s' n]) (simp_all add: s')
qed

lemma counted_dummy:
  assumes "frames_counted s" "writeDummyFrame s = Inr (True, s')"
  shows "frames_counted s'"
proof -
  have inv: "tsb_inv s" using assms(1) by (simp add: frames_counted_def)
  obtain rb where rb: "m_event_buffer s = Some rb" "rb_inv rb" "tsb_bytes s = rb_contents rb"
    using inv by (rule tsb_inv_buffer)
  have cs: "m_event_size s * m_events_per_frame s = m_cluster_size s"
    using inv by (simp add: tsb_inv_def mult.commute)
  obtain m rb' where w: "ffado_ringbuffer_write rb (replicate (unat (m_cluster_size s)) 0) (ucast (m_cluster_size s)) = Inr (m, rb')"
    "\<not> m < ucast (m_cluster_size s)" "s' = s\<lparr>m_event_buffer := Some rb', m_framecounter := m_framecounter s + 1\<rparr>"
    using assms(2) rb(1) cs
    by (auto simp: writeDummyFrame_def with_buffer_def Let_def bind_result_Inr_iff split: if_splits)
  show ?thesis
    using ring_write_all [OF rb(2) w(1,2)] rb(3)
    by (intro count_add [OF assms(1), of rb' s' 1]) (simp_all add: w(3))
qed

lemma counted_read:
  assumes "frames_counted s" "readFrames n s = Inr (True, data, s')" "request_ok n s"
  shows "frames_counted s'"
proof (cases "m_transparent s")
  case True
  then show ?thesis using assms(1,2) by (simp add: readFrames_def)
next
  case False
  have inv: "tsb_inv s" using assms(1) by (simp add: frames_counted_def)
  obtain rb where rb: "m_event_buffer s = Some rb" "rb_inv rb" "tsb_bytes s = rb_contents rb"
    using inv by (rule tsb_inv_buffer)
  note n = unat_request [OF inv assms(3)]
  obtain m rb' where w: "ffado_ringbuffer_read rb (ucast (n * m_event_size s * m_events_per_frame s)) = Inr (m, data, rb')"
    "\<not> m < ucast (n * m_event_size s * m_events_per_frame s)"
    "s' = decrementFrameCounter n (s\<lparr>m_event_buffer := Some rb'\<rparr>)"
    using assms(2) rb(1) False
    by (auto simp: readFrames_def with_buffer_def Let_def bind_result_Inr_iff split: if_splits)
  note rr = ring_read_all [OF rb(2) w(1,2), unfolded n]
  have "unat n * unat (m_cluster_size s) \<le> unat (m_framecounter s) * unat (m_cluster_size s)"
    using rr assms(1) rb(3) by (simp add: frames_counted_def)
  moreover have "0 < unat (m_cluster_size s)" using inv by (rule tsb_inv_cluster)
  ultimately have "unat n \<le> unat (m_framecounter s)" by simp
  then show ?thesis
    using rr rb(3) by (intro count_remove [OF assms(1), of rb' s' n]) (simp_all add: w(3) decrementFrameCounter_def)
qed

lemma counted_drop:
  assumes "frames_counted s" "dropFrames n s = Inr (True, s')" "request_ok n s" "unat n \<le> unat (m_framecounter s)"
  shows "frames_counted s'"
proof -
  have inv: "tsb_inv s" using assms(1) by (simp add: frames_counted_def)
  obtain rb where rb: "m_event_buffer s = Some rb" "rb_inv rb" "tsb_bytes s = rb_contents rb"
    using inv by (rule tsb_inv_buffer)
  let ?w = "ucast (n * m_event_size s * m_events_per_frame s) :: u64"
  have n: "unat ?w = unat n * unat (m_cluster_size s)" using unat_request [OF inv assms(3)] by simp
  have "unat n * unat (m_cluster_size s) \<le> unat (m_framecounter s) * unat (m_cluster_size s)"
    using assms(4) by simp
  then have "unat ?w \<le> rb_fill rb" using assms(1) rb(3) n by (simp add: frames_counted_def)
  note ra = read_advance_drops [OF rb(2) this]
  have "s' = decrementFrameCounter n (s\<lparr>m_event_buffer := Some (ffado_ringbuffer_read_advance rb ?w)\<rparr>)"
    using assms(2) rb(1) by (simp add: dropFrames_def with_buffer_def Let_def)
  moreover have "length (rb_contents (ffado_ringbuffer_read_advance rb ?w)) =
      length (rb_contents rb) - unat n * unat (m_cluster_size s)"
    by (simp only: ra(2) length_drop n)
  ultimately show ?thesis
    using ra(1) rb(3) assms(4)
    by (intro count_remove [OF assms(1), of "ffado_ringbuffer_read_advance rb ?w" s' n])
      (simp_all add: decrementFrameCounter_def)
qed

lemma rb_reset:
  assumes "rb_inv rb"
  shows "rb_inv (ffado_ringbuffer_reset rb)" "rb_contents (ffado_ringbuffer_reset rb) = []"
proof -
  have "0 < unat (rb_size rb)" using rb_inv_bounds(1,4) [OF assms] by linarith
  then have "0 < rb_size rb" by (simp only: word_less_nat_alt unat_0)
  then show "rb_inv (ffado_ringbuffer_reset rb)" using assms by (simp add: rb_inv_def ffado_ringbuffer_reset_def)
  show "rb_contents (ffado_ringbuffer_reset rb) = []"
    by (rule rb_contents_empty) (simp add: ffado_ringbuffer_reset_def)
qed

lemma counted_clear:
  assumes "frames_counted s" "clearBuffer s = Inr (ok, s')"
  shows "frames_counted s' \<and> tsb_bytes s' = []"
proof -
  have inv: "tsb_inv s" using assms(1) by (simp add: frames_counted_def)
  obtain rb where rb: "m_event_buffer s = Some rb" "rb_inv rb" using inv by (rule tsb_inv_buffer)
  have s': "s' = reset_rate (resetFrameCounter (s\<lparr>m_event_buffer := Some (ffado_ringbuffer_reset rb)\<rparr>))"
    using assms(2) rb(1) by (simp add: clearBuffer_def with_buffer_def)
  have "tsb_inv s'"
    by (rule tsb_inv_fields [OF inv rb_reset(1) [OF rb(2)]])
      (simp_all add: s' reset_rate_def resetFrameCounter_def)
  then show ?thesis
    using rb_reset(2) [OF rb(2)]
    by (simp add: frames_counted_def tsb_bytes_def s' reset_rate_def resetFrameCounter_def)
qed

lemma ringbuffer_create_empty:
  assumes "ffado_ringbuffer_create heap sz = Inr rb"
  shows "rb_inv rb" "rb_contents rb = []"
proof -
  obtain k where k: "create_power 1 sz = Inr k"
    "rb = \<lparr>rb_buf = map heap [0..<2 ^ k], rb_write_ptr = 0, rb_read_ptr = 0,
            rb_size = 2 ^ k, rb_size_mask = 2 ^ k - 1, rb_mlocked = False\<rparr>"
    using assms by (auto simp: ffado_ringbuffer_create_def bind_result_Inr_iff Let_def)
  then show "rb_inv rb" using created_inv(1) create_power_Inr by fastforce
  show "rb_contents rb = []" by (simp add: k(2) rb_contents_empty)
qed

lemma counted_resize:
  assumes "frames_counted s" "resizeBuffer heap n s = Inr (True, s')"
  shows "frames_counted s'"
proof -
  have inv: "tsb_inv s" using assms(1) by (simp add: frames_counted_def)
  obtain rb where rb: "ffado_ringbuffer_create heap (ucast (m_events_per_frame s * n * m_event_size s)) = Inr rb"
    "s' = (reset_rate (resetFrameCounter (s\<lparr>m_event_buffer := Some rb\<rparr>)))\<lparr>m_buffer_size := n\<rparr>"
    using assms(2) by (auto simp: resizeBuffer_def Let_def bind_result_Inr_iff assert_result_Inr_iff)
  note e = ringbuffer_create_empty [OF rb(1)]
  have "tsb_inv s'"
    by (rule tsb_inv_fields [OF inv e(1)]) (simp_all add: rb(2) reset_rate_def resetFrameCounter_def)
  then show ?thesis
    using e(2) by (simp add: frames_counted_def tsb_bytes_def rb(2) reset_rate_def resetFrameCounter_def)
qed

text \<open>The block operations: the loop leaves new buffers, and the counter follows.\<close>

lemma length_written_frames:
  assumes "writes_frames cl cs n wfr"
  shows "length (fst (write_each wfr c [0..<n])) = n * cs"
  using length_write_each [of wfr cs c "[0..<n]"] assms by (simp add: writes_frames_def)

lemma counted_block_write:
  assumes "frames_counted s" "blockProcessWriteFrames cl n ts s c = Some (Inr (True, s', c'))" "request_ok n s"
    "8 dvd unat n" "writes_frames cl (unat (m_cluster_size s)) (unat n) wfr"
  shows "frames_counted s'"
proof -
  let ?cs = "unat (m_cluster_size s)"
  have "write_ready cl wfr ?cs n s"
    using assms(1,3-5) by (simp add: write_ready_def frames_counted_def request_ok_def)
  then obtain rb d where L: "block_loop (write_round cl n) (n * m_events_per_frame s * m_event_size s) s c =
       Some (Inr (unat n * ?cs \<le> tsb_space s, with_buffers s rb d,
                  snd (write_each wfr c [0..<frames_done ?cs (unat n) (tsb_space s)])))"
    "tsb_inv (with_buffers s rb d)"
    "tsb_bytes (with_buffers s rb d) =
       tsb_bytes s @ fst (write_each wfr c [0..<frames_done ?cs (unat n) (tsb_space s)])"
    using write_loop [of cl wfr ?cs n s c] by blast
  have room: "unat n * ?cs \<le> tsb_space s" and inc: "incrementFrameCounter n ts (with_buffers s rb d) = Inr s'"
    using assms(2) L(1) by (auto simp: blockProcessWriteFrames_def bind_result_Inr_iff split: if_splits)
  have "rb_inv rb" using L(2) by (simp add: tsb_inv_def)
  moreover have "length (rb_contents rb) = length (tsb_bytes s) + unat n * ?cs"
    using L(3) length_written_frames [OF assms(5)] room by (simp add: tsb_bytes_def frames_done_all)
  moreover have "frames_counted (s\<lparr>m_process_buffer := Some d\<rparr>)"
    using assms(1) L(2) by (simp add: frames_counted_def tsb_inv_def tsb_bytes_def)
  ultimately show ?thesis
    using incrementFrameCounter_fields [OF inc]
    by (intro count_add [of "s\<lparr>m_process_buffer := Some d\<rparr>" rb s' n]) (simp_all add: tsb_bytes_def)
qed

lemma counted_block_read:
  assumes "frames_counted s" "blockProcessReadFrames cl n s c = Some (Inr (True, s', c'))" "request_ok n s"
    "8 dvd unat n" "reads_frames cl (unat (m_cluster_size s)) (unat n) rfr"
  shows "frames_counted s'"
proof -
  let ?cs = "unat (m_cluster_size s)"
  have "read_ready cl rfr ?cs n s"
    using assms(1,3-5) by (simp add: read_ready_def frames_counted_def request_ok_def)
  then obtain rb d where L: "block_loop (read_round cl n) (n * m_events_per_frame s * m_event_size s) s c =
       Some (Inr (unat n * ?cs \<le> length (tsb_bytes s), with_buffers s rb d,
                  read_each rfr ?cs c [0..<frames_done ?cs (unat n) (length (tsb_bytes s))] (tsb_bytes s)))"
    "tsb_inv (with_buffers s rb d)"
    "tsb_bytes (with_buffers s rb d) = drop (frames_done ?cs (unat n) (length (tsb_bytes s)) * ?cs) (tsb_bytes s)"
    using read_loop [of cl rfr ?cs n s c] by blast
  have held: "unat n * ?cs \<le> length (tsb_bytes s)" and s': "s' = decrementFrameCounter n (with_buffers s rb d)"
    using assms(2) L(1) by (auto simp: blockProcessReadFrames_def split: if_splits)
  have "0 < ?cs" using assms(1) tsb_inv_cluster by (simp add: frames_counted_def)
  then have "unat n \<le> unat (m_framecounter s)" using held assms(1) by (simp add: frames_counted_def)
  moreover have "rb_inv rb" using L(2) by (simp add: tsb_inv_def)
  moreover have "length (rb_contents rb) = length (tsb_bytes s) - unat n * ?cs"
    using arg_cong [OF L(3), of length] held by (simp add: tsb_bytes_def frames_done_all)
  moreover have "frames_counted (s\<lparr>m_process_buffer := Some d\<rparr>)"
    using assms(1) L(2) by (simp add: frames_counted_def tsb_inv_def tsb_bytes_def)
  ultimately show ?thesis
    by (intro count_remove [of "s\<lparr>m_process_buffer := Some d\<rparr>" rb s' n])
      (simp_all add: s' decrementFrameCounter_def tsb_bytes_def)
qed

text \<open>A drop of more frames than there are: the counter wraps around far above what a ring buffer can hold.\<close>

lemma unat_minus_wrap:
  fixes x y :: u32
  assumes "unat x < unat y"
  shows "unat (x - y) = 2 ^ 32 + unat x - unat y"
  using assms unsigned_less [of y] by (simp add: unat_sub_if_size word_size word_le_nat_alt)

lemma excess_drop_miscounts:
  assumes "frames_counted s" "unat (m_framecounter s) < unat n" "unat n \<le> 2 ^ 31"
  shows "\<exists>s'. dropFrames n s = Inr (True, s') \<and>
           length (tsb_bytes s') < unat (m_framecounter s') * unat (m_cluster_size s')"
proof -
  have inv: "tsb_inv s" using assms(1) by (simp add: frames_counted_def)
  obtain rb where rb: "m_event_buffer s = Some rb" "rb_inv rb" using inv by (rule tsb_inv_buffer)
  let ?rb = "ffado_ringbuffer_read_advance rb (ucast (n * m_event_size s * m_events_per_frame s))"
  let ?s = "decrementFrameCounter n (s\<lparr>m_event_buffer := Some ?rb\<rparr>)"
  have "rb_inv ?rb"
    unfolding ffado_ringbuffer_read_advance_def by (rule rb_inv_set_read_ptr [OF rb(2)])
  then have "rb_fill ?rb < 1073741824"
    using rb_fill_less [of ?rb] rb_inv_bounds(2) [of ?rb] by simp
  moreover have "unat (m_framecounter s - n) = 2 ^ 32 + unat (m_framecounter s) - unat n"
    using assms(2) by (rule unat_minus_wrap)
  then have "1073741824 \<le> unat (m_framecounter s - n)" using assms(3) by simp
  then have "1073741824 \<le> unat (m_framecounter s - n) * unat (m_cluster_size s)"
    by (rule order.trans [OF _ le_mult_pos [OF tsb_inv_cluster [OF inv]]])
  ultimately show ?thesis
    using rb(1) by (intro exI [of _ ?s])
      (simp add: dropFrames_def with_buffer_def Let_def tsb_bytes_def decrementFrameCounter_def)
qed

lemma step_keeps_count:
  assumes "tsb_step cl s s'" "frames_counted s"
  shows "frames_counted s'"
  using assms
proof (induction rule: tsb_step.induct)
  case (write_frames n data ts s s')
  then show ?case using counted_write by blast
next
  case (preload n data keep s s')
  then show ?case using counted_preload by blast
next
  case (dummy s s')
  then show ?case using counted_dummy by blast
next
  case (read_frames n s data s')
  then show ?case using counted_read by blast
next
  case (drop_frames n s s')
  then show ?case using counted_drop by blast
next
  case (clear s s')
  then show ?case using counted_clear by blast
next
  case (set_tail s ts)
  then show ?case by (rule counted_same) simp_all
next
  case (set_head s ts)
  then show ?case by (rule counted_same) simp_all
next
  case (transparent s b)
  then show ?case by (rule counted_same) (simp_all add: setTransparent_def)
next
  case (rate s r)
  then show ?case by (rule counted_same) (simp_all add: setRate_def Let_def)
next
  case (bandwidth bw s ok s')
  then have "s' = snd (setBandwidth bw s)" by simp
  with bandwidth(2) show ?case by (intro counted_same [of s s']) simp_all
next
  case (resize heap n s s')
  then show ?case using counted_resize by blast
next
  case (block_write n ts s c s' c' wfr)
  then show ?case by (intro counted_block_write [of s cl n ts c s' c' wfr])
next
  case (block_read n s c s' c' rfr)
  then show ?case by (intro counted_block_read [of s cl n c s' c' rfr])
qed

section \<open>Preparation\<close>

text \<open>The parameters are set and the sizes they give do not overflow.\<close>

definition parameters_ok :: "tsbuf \<Rightarrow> bool" where
  "parameters_ok s \<longleftrightarrow>
     0 < unat (m_buffer_size s) \<and> 0 < unat (m_events_per_frame s) \<and> 0 < unat (m_event_size s) \<and>
     m_nominal_rate s \<noteq> 0 \<and> m_update_period s \<noteq> 0 \<and>
     8 * (unat (m_events_per_frame s) * unat (m_event_size s)) < 2 ^ 32 \<and>
     unat (m_events_per_frame s) * unat (m_buffer_size s) * unat (m_event_size s) \<le> 2 ^ 30"

lemma ringbuffer_created:
  assumes "unat sz \<le> 2 ^ 30"
  obtains rb k where "ffado_ringbuffer_create heap sz = Inr rb" "rb_inv rb" "rb_contents rb = []"
    "unat sz \<le> 2 ^ k" "rb_capacity rb = 2 ^ k - 1" "k = 1 \<or> 2 ^ (k - 1) < unat sz"
proof -
  obtain k where k: "create_power 1 sz = Inr k" using create_power_defined [of sz 1] assms by auto
  note kb = create_power_Inr [OF k]
  let ?rb = "\<lparr>rb_buf = map heap [0..<2 ^ k], rb_write_ptr = 0, rb_read_ptr = 0,
            rb_size = 2 ^ k, rb_size_mask = 2 ^ k - 1, rb_mlocked = False\<rparr>"
  show thesis
  proof
    show "ffado_ringbuffer_create heap sz = Inr ?rb"
      unfolding ffado_ringbuffer_create_def k by simp
    show "rb_inv ?rb" using created_inv(1) kb by simp
    show "rb_contents ?rb = []" by (simp add: rb_contents_empty)
    show "rb_capacity ?rb = 2 ^ k - 1" using created_inv(2) [of k] kb by (simp add: rb_capacity_def)
    show "unat sz \<le> 2 ^ k" "k = 1 \<or> 2 ^ (k - 1) < unat sz" using kb by auto
  qed
qed

lemma unat_triple:
  assumes "parameters_ok s"
  shows "unat ((m_events_per_frame s * m_buffer_size s) * m_event_size s) =
           unat (m_events_per_frame s) * unat (m_buffer_size s) * unat (m_event_size s)"
    "unat (m_events_per_frame s * m_event_size s) = unat (m_events_per_frame s) * unat (m_event_size s)"
    "unat (m_events_per_frame s * m_event_size s * 8) = 8 * (unat (m_events_per_frame s) * unat (m_event_size s))"
proof -
  let ?e = "unat (m_events_per_frame s)" and ?b = "unat (m_buffer_size s)" and ?z = "unat (m_event_size s)"
  have p: "0 < ?z" "8 * (?e * ?z) < 4294967296" "?e * ?b * ?z \<le> 1073741824"
    using assms by (simp_all add: parameters_ok_def)
  have "?e * ?b \<le> 1073741824" using le_mult_pos [OF p(1), of "?e * ?b"] p(3) by (rule order.trans)
  then have eb: "unat (m_events_per_frame s * m_buffer_size s) = ?e * ?b" by (intro unat_mult_small) simp
  show "unat ((m_events_per_frame s * m_buffer_size s) * m_event_size s) = ?e * ?b * ?z"
    using p(3) by (subst unat_mult_small) (simp_all add: eb)
  show ez: "unat (m_events_per_frame s * m_event_size s) = ?e * ?z"
    using p(2) by (intro unat_mult_small) (simp add: mult.commute)
  show "unat (m_events_per_frame s * m_event_size s * 8) = 8 * (?e * ?z)"
    using p(2) by (subst unat_mult_small) (simp_all add: ez)
qed

lemma prepare_establishes:
  assumes "parameters_ok s"
  obtains rb k s' where "prepare heap s = Inr (True, s')" "m_event_buffer s' = Some rb" "rb_contents rb = []"
    "frames_counted s'" "rb_capacity rb = 2 ^ k - 1" "m_framecounter s' = 0"
    "m_cluster_size s' = m_events_per_frame s * m_event_size s"
    "unat (m_events_per_frame s) * unat (m_buffer_size s) * unat (m_event_size s) \<le> 2 ^ k"
    "k = 1 \<or> 2 ^ (k - 1) < unat (m_events_per_frame s) * unat (m_buffer_size s) * unat (m_event_size s)"
    "m_buffer_size s' = m_buffer_size s" "m_update_period s' = m_update_period s" "m_wrap_at s' = m_wrap_at s"
proof -
  note u = unat_triple [OF assms]
  have nz: "m_buffer_size s \<noteq> 0" "m_events_per_frame s \<noteq> 0" "m_event_size s \<noteq> 0"
    "m_nominal_rate s \<noteq> 0" "m_update_period s \<noteq> 0"
    using assms by (auto simp: parameters_ok_def)
  let ?sz = "(m_events_per_frame s * m_buffer_size s) * m_event_size s"
  have "unat (ucast ?sz :: u64) \<le> 2 ^ 30" using u(1) assms by (simp add: parameters_ok_def)
  then obtain rb k where c: "ffado_ringbuffer_create heap (ucast ?sz) = Inr rb" "rb_inv rb"
    "rb_contents rb = []" "unat (ucast ?sz :: u64) \<le> 2 ^ k" "rb_capacity rb = 2 ^ k - 1"
    "k = 1 \<or> 2 ^ (k - 1) < unat (ucast ?sz :: u64)"
    by (rule ringbuffer_created)
  let ?cs = "m_events_per_frame s * m_event_size s"
  define s' where "s' = s\<lparr>m_current_rate := m_nominal_rate s, m_event_buffer := Some rb, m_framecounter := 0,
     m_dll_e2 := rf (m_nominal_rate s * u2f (m_update_period s)), m_cluster_size := ?cs,
     m_process_block_size := ?cs * 8, m_process_buffer := Some (replicate (unat (?cs * 8)) 0),
     m_buffer_tail_timestamp := TIMESTAMP_MAX + 1, m_buffer_next_tail_timestamp := TIMESTAMP_MAX + 1\<rparr>"
  have "prepare heap s = Inr (True, s')"
    using nz c(1) by (simp add: prepare_def resizeBuffer_def reset_rate_def resetFrameCounter_def Let_def s'_def)
  moreover have "tsb_inv s'"
    using c(2) u assms unfolding tsb_inv_def s'_def by (simp add: parameters_ok_def)
  ultimately show thesis
    using that [of s' rb k] c u(1) by (simp add: s'_def frames_counted_def tsb_bytes_def)
qed

section \<open>Properties\<close>

text \<open>Parameters for the concrete instances: 16 frames of one event of 4 bytes.\<close>

definition sample_parameters :: tsbuf where
  "sample_parameters = TimestampedBuffer\<lparr>m_buffer_size := 16, m_events_per_frame := 1, m_event_size := 4,
     m_nominal_rate := 512, m_update_period := 8, m_wrap_at := 3145728000\<rparr>"

lemma sample_parameters_ok: "parameters_ok sample_parameters"
  by (simp add: parameters_ok_def sample_parameters_def TimestampedBuffer_def)

lemma writeFrames_stores:
  assumes "tsb_inv s" "\<not> m_transparent s" "request_ok n s" "unat n * unat (m_cluster_size s) \<le> length data"
    "writeFrames n data ts s = Inr (True, s')"
  shows "tsb_bytes s' = tsb_bytes s @ take (unat n * unat (m_cluster_size s)) data \<and>
         m_framecounter s' = m_framecounter s + n \<and> m_cluster_size s' = m_cluster_size s"
proof -
  obtain rb where rb: "m_event_buffer s = Some rb" "rb_inv rb" "tsb_bytes s = rb_contents rb"
    using assms(1) by (rule tsb_inv_buffer)
  note n = unat_request [OF assms(1,3)]
  obtain m rb' where w: "ffado_ringbuffer_write rb data (ucast (n * m_event_size s * m_events_per_frame s)) = Inr (m, rb')"
    "\<not> m < ucast (n * m_event_size s * m_events_per_frame s)"
    "incrementFrameCounter n ts (s\<lparr>m_event_buffer := Some rb'\<rparr>) = Inr s'"
    using assms(2,5) rb(1)
    by (auto simp: writeFrames_def with_buffer_def Let_def bind_result_Inr_iff split: if_splits)
  have "unat (n * m_event_size s * m_events_per_frame s) \<le> length data" using assms(4) n by simp
  from ring_written [OF rb(2) w(1,2) this] show ?thesis
    using incrementFrameCounter_fields(1,2,4) [OF w(3)] rb(3) n by (simp add: tsb_bytes_def)
qed

text \<open>Writing succeeds when there is room and the timestamp and the number of frames are the expected ones.\<close>

lemma writeFrames_succeeds:
  assumes "tsb_inv s" "\<not> m_transparent s" "request_ok n s" "unat n * unat (m_cluster_size s) \<le> length data"
    "unat n * unat (m_cluster_size s) \<le> tsb_space s" "0 \<le> ts" "ts < m_wrap_at s" "n = m_update_period s" "n \<noteq> 0"
  obtains s' where "writeFrames n data ts s = Inr (True, s')"
proof -
  obtain rb where rb: "m_event_buffer s = Some rb" "rb_inv rb" "tsb_bytes s = rb_contents rb"
    using assms(1) by (rule tsb_inv_buffer)
  let ?w = "ucast (n * m_event_size s * m_events_per_frame s) :: u64"
  have n: "unat ?w = unat n * unat (m_cluster_size s)" using unat_request [OF assms(1,3)] by simp
  then have le: "unat ?w \<le> length data" using assms(4) by simp
  obtain m rb' where w: "ffado_ringbuffer_write rb data ?w = Inr (m, rb')"
    "unat m = min (unat ?w) (rb_capacity rb - length (rb_contents rb))"
    using ringbuffer_put_law [OF rb(2) le] by blast
  have "\<not> m < ?w" using w(2) n assms(5) rb(1) by (simp add: word_less_nat_alt tsb_space_def)
  moreover obtain s' where "incrementFrameCounter n ts (s\<lparr>m_event_buffer := Some rb'\<rparr>) = Inr s'"
    using incrementFrameCounter_ok_iff [of n ts "s\<lparr>m_event_buffer := Some rb'\<rparr>"] assms(6-9) by auto
  ultimately show thesis
    using that [of s'] w(1) rb(1) assms(2) by (simp add: writeFrames_def with_buffer_def Let_def)
qed

text \<open>C12. From preparation on, after any sequence of successful calls, of the operations on frames and on
  blocks, in which no drop exceeds what the buffer holds, the frame counter that \<open>getBufferFill\<close>
  reports is the number of frames in the ring buffer: its bytes are that many whole frames. The
  condition on drops is needed. \<open>dropFrames\<close> does not test it: asked for more frames, up to 2 ^ 31, it
  still returns true, and then the counter claims more frames than the ring buffer has.\<close>

theorem frame_count_invariant:
  assumes "parameters_ok s0" "prepare heap s0 = Inr (ok, s)" "(tsb_step cl)\<^sup>*\<^sup>* s s'"
  shows "tsb_inv s' \<and> length (tsb_bytes s') = unat (getBufferFill s') * unat (m_cluster_size s') \<and>
    (\<forall>n. unat (getBufferFill s') < unat n \<and> unat n \<le> 2 ^ 31 \<longrightarrow>
       (\<exists>s''. dropFrames n s' = Inr (True, s'') \<and>
          length (tsb_bytes s'') < unat (getBufferFill s'') * unat (m_cluster_size s'')))"
proof -
  have "frames_counted s" using prepare_establishes [OF assms(1), of heap] assms(2) by fastforce
  with assms(3) have "frames_counted s'" by (induction rule: rtranclp_induct) (auto intro: step_keeps_count)
  then show ?thesis
    using excess_drop_miscounts [of s'] by (simp add: frames_counted_def getBufferFill_def)
qed

text \<open>A period of 8 frames is written and 3 of them are dropped; then 6 are dropped of the remaining 5.\<close>

theorem frame_count_invariant_witness:
  "\<exists>s s1 s2 s3. prepare (\<lambda>_. 0) sample_parameters = Inr (True, s) \<and>
     writeFrames 8 (replicate 32 7) 0 (setTransparent False s) = Inr (True, s1) \<and>
     dropFrames 3 s1 = Inr (True, s2) \<and> getBufferFill s2 = 5 \<and> length (tsb_bytes s2) = 20 \<and>
     dropFrames 6 s2 = Inr (True, s3) \<and> length (tsb_bytes s3) < unat (getBufferFill s3) * 4"
proof -
  obtain rb k s where s: "prepare (\<lambda>_. 0) sample_parameters = Inr (True, s)" "m_event_buffer s = Some rb"
    "rb_contents rb = []" "frames_counted s" "rb_capacity rb = 2 ^ k - 1" "m_framecounter s = 0" "m_cluster_size s = 4"
    "64 \<le> (2::nat) ^ k" "m_update_period s = 8" "m_wrap_at s = 3145728000"
    by (rule prepare_establishes [OF sample_parameters_ok, of "\<lambda>_. 0"])
      (simp add: sample_parameters_def TimestampedBuffer_def)
  let ?s = "setTransparent False s"
  have c: "frames_counted ?s"
    by (rule step_keeps_count [OF tsb_step.transparent s(4)])
  have q: "tsb_inv ?s" "\<not> m_transparent ?s" "request_ok 8 ?s" "m_cluster_size ?s = 4" "32 \<le> tsb_space ?s"
    "m_framecounter ?s = 0" "m_update_period ?s = 8" "m_wrap_at ?s = 3145728000"
    using s c by (simp_all add: frames_counted_def setTransparent_def request_ok_def tsb_space_def)
  obtain s1 where w: "writeFrames 8 (replicate 32 7) 0 ?s = Inr (True, s1)"
    by (rule writeFrames_succeeds [of ?s 8 "replicate 32 7" 0]) (use q in simp_all)
  have step1: "tsb_step sample_client s ?s" "tsb_step sample_client ?s s1"
    using tsb_step.transparent tsb_step.write_frames [OF w q(3)] q(4) by simp_all
  have s1: "m_framecounter s1 = 8" "m_cluster_size s1 = 4"
    using writeFrames_stores [OF q(1-3) _ w] q(4,6) by simp_all
  have c1: "frames_counted s1" by (rule step_keeps_count [OF step1(2) c])
  then obtain rb1 where "m_event_buffer s1 = Some rb1"
    using tsb_inv_buffer by (auto simp: frames_counted_def)
  then obtain s2 where d: "dropFrames 3 s1 = Inr (True, s2)" "m_framecounter s2 = 5" "m_cluster_size s2 = 4"
    using s1 by (auto simp: dropFrames_def with_buffer_def Let_def decrementFrameCounter_def)
  have "tsb_step sample_client s1 s2"
    by (rule tsb_step.drop_frames [OF d(1)]) (simp_all add: request_ok_def s1)
  then have "(tsb_step sample_client)\<^sup>*\<^sup>* s s2"
    using step1 by (meson converse_rtranclp_into_rtranclp rtranclp.rtrancl_refl)
  from frame_count_invariant [OF sample_parameters_ok s(1) this]
  have "length (tsb_bytes s2) = 20"
    "\<exists>s3. dropFrames 6 s2 = Inr (True, s3) \<and> length (tsb_bytes s3) < unat (getBufferFill s3) * unat (m_cluster_size s3)"
    using d(2,3) by (simp_all add: getBufferFill_def)
  moreover have "m_cluster_size s3 = m_cluster_size s2" if "dropFrames 6 s2 = Inr (True, s3)" for s3
    using that by (auto simp: dropFrames_def with_buffer_def Let_def decrementFrameCounter_def split: option.splits)
  ultimately show ?thesis using s(1) w d by (auto simp: getBufferFill_def)
qed

text \<open>C29. A prepared buffer is empty and takes \<open>m_buffer_size\<close> frames, except when the size of these
  frames in bytes is a power of two: then it takes one frame less, although \<open>getBufferSpace\<close> reports
  room for \<open>m_buffer_size\<close>.\<close>

theorem prepare_capacity:
  assumes "parameters_ok s"
  shows "\<exists>s' k. prepare heap s = Inr (True, s') \<and> tsb_bytes s' = [] \<and>
           getBufferSpace s' = Inr (m_buffer_size s) \<and>
           unat (m_buffer_size s) * unat (m_cluster_size s') \<le> 2 ^ k \<and>
           (k = 1 \<or> 2 ^ (k - 1) < unat (m_buffer_size s) * unat (m_cluster_size s')) \<and>
           (unat (m_buffer_size s) * unat (m_cluster_size s') \<le> tsb_space s' \<longleftrightarrow>
              unat (m_buffer_size s) * unat (m_cluster_size s') \<noteq> 2 ^ k)"
proof -
  obtain rb k s' where p: "prepare heap s = Inr (True, s')" "m_event_buffer s' = Some rb" "rb_contents rb = []"
    "rb_capacity rb = 2 ^ k - 1" "m_framecounter s' = 0"
    "m_cluster_size s' = m_events_per_frame s * m_event_size s"
    "unat (m_events_per_frame s) * unat (m_buffer_size s) * unat (m_event_size s) \<le> 2 ^ k"
    "k = 1 \<or> 2 ^ (k - 1) < unat (m_events_per_frame s) * unat (m_buffer_size s) * unat (m_event_size s)"
    "m_buffer_size s' = m_buffer_size s"
    using prepare_establishes [OF assms, of heap] by blast
  have m: "unat (m_events_per_frame s) * unat (m_buffer_size s) * unat (m_event_size s) =
      unat (m_buffer_size s) * unat (m_cluster_size s')"
    using unat_triple(2) [OF assms] by (simp add: p(6) ac_simps)
  have sp: "tsb_space s' = 2 ^ k - 1" using p(2-4) by (simp add: tsb_space_def)
  have "(a \<le> q - 1) = (a \<noteq> q)" if "a \<le> q" "0 < q" for a q :: nat using that by auto
  then have "(unat (m_buffer_size s) * unat (m_cluster_size s') \<le> tsb_space s') =
      (unat (m_buffer_size s) * unat (m_cluster_size s') \<noteq> 2 ^ k)"
    using p(7) unfolding m sp by simp
  then show ?thesis
    using p m by (intro exI [of _ s'] exI [of _ k]) (simp add: getBufferSpace_def tsb_bytes_def)
qed

theorem prepare_capacity_witness:
  "\<exists>s' k. prepare (\<lambda>_. 0) sample_parameters = Inr (True, s') \<and> getBufferSpace s' = Inr 16 \<and>
     unat (16 :: u32) * unat (m_cluster_size s') \<le> 2 ^ k"
  using prepare_capacity [OF sample_parameters_ok, of "\<lambda>_. 0"]
  by (auto simp: sample_parameters_def)

end
