(* ===== verification/StreamRecovery.thy ===== *)
theory StreamRecovery
  imports StreamStates FrameAccounting
begin

text \<open>
  What the packet functions do with the state of a stream over several packets: a running stream
  that loses packets or runs dry is disabled at once and is dry-running again with the next
  packet; a stopped stream that is asked to start is running after four good packets.
\<close>

section \<open>The switch cycle\<close>

lemma sint_diffCycles_le:
  assumes "uint x \<le> 8000" and "uint y \<le> 8000"
  shows "sint (diffCycles x y) =
    (let k = uint x - uint y
     in if 4000 < k then k - 8000 else if k < - 4000 then k + 8000 else k)"
  using assms sint_affine_32 [of x y 0] sint_affine_32 [of x y 8000] sint_affine_32 [of x y "- 8000"]
  by (simp add: diffCycles_def Let_def word_sless_alt)

lemma diffCycles_ahead:
  assumes "c < 8000" "1 \<le> k" "k \<le> 4000" "unat x = (c + k) mod 8000" "unat y = c + 1"
  shows "0 \<le>s diffCycles x y"
proof -
  have wrap: "(c + k) mod 8000 = (if c + k < 8000 then c + k else c + k - 8000)"
    using assms(1,3) le_mod_geq [of 8000 "c + k"] by auto
  have x: "uint x = int ((c + k) mod 8000)" and y: "uint y = int (c + 1)"
    by (rule uint_eq_of_unat [OF assms(4)], rule uint_eq_of_unat [OF assms(5)])
  have m: "(c + k) mod 8000 \<le> 8000" by (rule less_imp_le) simp
  have le: "uint x \<le> 8000" "uint y \<le> 8000"
    unfolding x y using m assms(1) by linarith+
  have "0 \<le> sint (diffCycles x y)"
    unfolding sint_diffCycles_le [OF le] Let_def x y wrap using assms(1-3) by (cases "c + k < 8000") auto
  then show ?thesis by (simp add: word_sle_eq)
qed

text \<open>
  An xrun in cycle \<open>c\<close> schedules the switch for \<open>c + 1\<close>, which is 8000 when \<open>c\<close> is the last cycle
  of a second; the packets of the following half second still find the switch due.
\<close>

lemma unat_packet_cycle_Suc:
  "unat (packet_cycle p) < 8000 \<Longrightarrow> unat (packet_cycle p + 1) = unat (packet_cycle p) + 1"
  by (rule trans [OF unat_plus_small]) simp_all

lemma switch_due_after:
  assumes "unat (packet_cycle p) < 8000" "1 \<le> k" "k \<le> 4000"
    and "unat (packet_cycle p') = (unat (packet_cycle p) + k) mod 8000"
    and "m_cycle_to_switch_state s = ucast (packet_cycle p + 1)"
  shows "switch_due p' s"
  unfolding switch_due_def assms(5)
proof (rule diffCycles_ahead [OF assms(1-3)])
  have "unat (packet_cycle p') < 8000" unfolding assms(4) by simp
  then show "unat (ucast (packet_cycle p') :: u32) = (unat (packet_cycle p) + k) mod 8000"
    unfolding assms(4) [symmetric] by (intro unat_ucast_64_32) simp
  show "unat (ucast (packet_cycle p + 1) :: u32) = unat (packet_cycle p) + 1"
    using unat_packet_cycle_Suc [OF assms(1)] assms(1) unat_ucast_64_32 [of "packet_cycle p + 1"] by simp
qed

section \<open>Xruns\<close>

definition disabled_at :: "u32 \<Rightarrow> 'c sp \<Rightarrow> bool" where
  "disabled_at p s \<longleftrightarrow>
    ctl s = (ePS_WaitingForStreamDisable, ePS_WaitingForStreamDisable, True)
    \<and> m_cycle_to_switch_state s = ucast (packet_cycle p + 1)"

lemma disabled_at_base [simp]: "disabled_at p (s\<lparr>m_base := b\<rparr>) = disabled_at p s"
  "disabled_at p (set_buffer x s) = disabled_at p s"
  "disabled_at p (set_correct_last_timestamp f s) = disabled_at p s"
  by (simp_all add: disabled_at_def)

lemma disabled_at_state:
  "disabled_at p s \<Longrightarrow> m_state s = ePS_WaitingForStreamDisable \<and> m_next_state s = ePS_WaitingForStreamDisable"
  by (simp add: disabled_at_def ctl_def)

lemma disable_running:
  "m_state s = ePS_Running \<Longrightarrow>
    \<exists>s'. updateState env (request_disable p s) = Inr (True, s') \<and> disabled_at p s' \<and> m_base s' = m_base s"
  by (rule exI, rule conjI, erule updateState_disable_running)
    (simp add: disabled_at_def ctl_def request_disable_def)

lemma disable_again:
  "disabled_at p s \<Longrightarrow> updateState env (request_disable p s) = Inr (True, request_disable p s)
    \<and> disabled_at p (request_disable p s)"
  by (simp add: updateState_def disabled_at_def ctl_def request_disable_def)

lemma putPacket_data_disabled:
  "disabled_at p s \<Longrightarrow> ensures (\<lambda>(d, s'). disabled_at p s') (putPacket_data env data len p s)"
  unfolding putPacket_data_def
  by (rule ensures_bind, rule ensuresI)
    (auto simp: Let_def update_or_def disable_again split: eChildReturnValue.splits)

lemma correct_timestamp_disabled [simp]: "disabled_at p (correct_timestamp env s) = disabled_at p s"
  by (simp add: correct_timestamp_def Let_def)

lemma putPacket_ok_disabled:
  "disabled_at p s \<Longrightarrow> ensures (\<lambda>(d, s'). disabled_at p s') (putPacket_ok env data len p s)"
  using disabled_at_state [of p "correct_timestamp env s"]
  by (auto simp: putPacket_ok_def Let_def putPacket_data_disabled)

lemma putPacket_header_dropped:
  assumes "m_state s = ePS_Running" "dropped \<noteq> 0"
  shows "ensures (\<lambda>(d, s'). disabled_at p s') (putPacket_header env data len tag sy p dropped s)"
  unfolding putPacket_header_def
proof (rule ensures_bind, rule ensuresI, clarify)
  fix result b
  let ?s2 = "set_correct_last_timestamp True (s\<lparr>m_base := b\<rparr>)"
  obtain s3 where s3: "updateState env (request_disable p ?s2) = Inr (True, s3)" "disabled_at p s3"
    using disable_running [of ?s2 env p] assms(1) by auto
  show "ensures (\<lambda>(d, s'). disabled_at p s')
     (let s1 = s\<lparr>m_base := b\<rparr>;
          dispatch = \<lambda>s2. case result of eCRV_OK \<Rightarrow> putPacket_ok env data len p s2
            | eCRV_Invalid \<Rightarrow> Inr (RAW1394_ISO_OK, s2) | _ \<Rightarrow> Inr (RAW1394_ISO_ERROR, s2)
      in if dropped \<noteq> 0
         then let s2 = set_correct_last_timestamp True s1
              in if m_state s2 = ePS_Running
                 then update_or env (request_disable p s2) (Pair RAW1394_ISO_ERROR) dispatch
                 else dispatch s2
         else dispatch s1)"
    using assms s3 putPacket_ok_disabled [OF s3(2)]
    by (auto simp: Let_def update_or_def split: eChildReturnValue.splits)
qed

lemma putPacket_dropped:
  assumes "m_state s = ePS_Running" "dropped \<noteq> 0"
  shows "ensures (\<lambda>(d, s'). disabled_at p s') (putPacket env data len channel tag sy p dropped s)"
  using assms by (simp add: putPacket_def Let_def putPacket_header_dropped)

text \<open>The packet that the subclass makes as an empty one out of \<open>pk\<close>, and the base state this leaves.\<close>

definition empty_made :: "'c sp_env \<Rightarrow> u32 \<Rightarrow> iso_packet \<Rightarrow> 'c sp_base \<Rightarrow> iso_packet \<Rightarrow> 'c sp_base \<Rightarrow> bool" where
  "empty_made env p pk b pk' b' \<longleftrightarrow>
    (\<exists>r1 pk1 b1 r2. generateEmptyPacketHeader env p pk b = Inr (r1, pk1, b1)
      \<and> generateEmptyPacketData env pk1 b1 = Inr (r2, pk', b'))"

lemma send_empty_packet_disabled:
  assumes "disabled_at p s" "empty_made env q pk (m_base s) pk' b'"
  shows "send_empty_packet env q pk s = Inr (RAW1394_ISO_OK, pk', s\<lparr>m_base := b'\<rparr>)"
  using assms disabled_at_state [of p s]
  by (auto simp: send_empty_packet_def update_if_requested_def empty_packet_def empty_made_def)

lemma clearBuffer_Some:
  "m_event_buffer b = Some rb \<Longrightarrow> clearBuffer b
    = Inr (True, reset_rate (resetFrameCounter (b\<lparr>m_event_buffer := Some (ffado_ringbuffer_reset rb)\<rparr>)))"
  by (simp add: clearBuffer_def with_buffer_def)

text \<open>The buffer after it has been cleared: transparent, no frame counted, no byte stored.\<close>

definition cleared :: "tsbuf \<Rightarrow> bool" where
  "cleared b \<longleftrightarrow> m_transparent b \<and> getBufferFill b = 0 \<and> (\<exists>rb. m_event_buffer b = Some rb \<and> rb_contents rb = [])"

lemma rb_contents_reset: "rb_contents (ffado_ringbuffer_reset rb) = []"
  by (simp add: ffado_ringbuffer_reset_def rb_contents_empty)

lemma leave_disable:
  assumes "m_state s = ePS_WaitingForStreamDisable" "m_event_buffer (buf s) \<noteq> None"
  shows "\<exists>s'. updateState env (s\<lparr>m_next_state := ePS_DryRunning\<rparr>) = Inr (True, s')
    \<and> m_state s' = ePS_DryRunning \<and> m_next_state s' = ePS_DryRunning \<and> m_in_xrun s' = m_in_xrun s
    \<and> m_last_timestamp (m_base s') = 0 \<and> cleared (buf s')"
proof -
  obtain rb where "m_event_buffer (buf s) = Some rb" using assms(2) by blast
  then show ?thesis
    using assms(1) rb_contents_reset [of rb]
    by (simp add: updateState_def doDryRunning_def on_buffer_def clearBuffer_Some base_setters Let_def
        cleared_def setTransparent_def reset_rate_def resetFrameCounter_def getBufferFill_def)
qed

section \<open>Starting\<close>

text \<open>What the transitions of a start depend on, and a subclass that takes every packet for a good one.\<close>

definition geometry :: "'c sp_base \<Rightarrow> u32 \<times> u32 \<times> rat \<times> u32 \<times> u32 \<times> rat" where
  "geometry b = (m_event_size (m_data_buffer b), m_events_per_frame (m_data_buffer b),
     m_nominal_rate (m_data_buffer b), m_update_period (m_data_buffer b),
     m_extra_buffer_frames b, m_dll_bandwidth_hz b)"

definition keeps_settings :: "'c sp_base \<Rightarrow> 'c sp_base \<Rightarrow> bool" where
  "keeps_settings b b' \<longleftrightarrow> geometry b' = geometry b
    \<and> m_transparent (m_data_buffer b') = m_transparent (m_data_buffer b)"

definition accepts_packets :: "'c sp_env \<Rightarrow> bool" where
  "accepts_packets env \<longleftrightarrow>
    (\<forall>data len tag sy p b. \<exists>b'. processPacketHeader env data len tag sy p b = Inr (eCRV_OK, b') \<and> keeps_settings b b')
    \<and> (\<forall>data len b. \<exists>b'. processPacketData env data len b = Inr (eCRV_OK, b') \<and> keeps_settings b b')"

definition can_enable :: "'c sp_env \<Rightarrow> 'c sp \<Rightarrow> bool" where
  "can_enable env s \<longleftrightarrow>
    ringbuffer_size_frames env s \<noteq> 0 \<and> m_events_per_frame (buf s) \<noteq> 0 \<and> m_event_size (buf s) \<noteq> 0
    \<and> unat (m_events_per_frame (buf s) * ringbuffer_size_frames env s * m_event_size (buf s)) \<le> 2 ^ 30
    \<and> rd (rd (m_dll_bandwidth_hz (m_base s) / 24576000) * dll_tupdate (buf s)) < 1 / 2"

definition same_settings :: "'c sp \<Rightarrow> 'c sp \<Rightarrow> bool" where
  "same_settings s s' \<longleftrightarrow> geometry (m_base s') = geometry (m_base s)
    \<and> m_processor_type s' = m_processor_type s"

lemma same_settings_trans: "same_settings s s' \<Longrightarrow> same_settings s' s'' \<Longrightarrow> same_settings s s''"
  by (simp add: same_settings_def)

lemma can_enable_same: "same_settings s s' \<Longrightarrow> can_enable env s' = can_enable env s"
  by (simp add: same_settings_def can_enable_def geometry_def ringbuffer_size_frames_def dll_tupdate_def)

lemma accepts_header:
  assumes "accepts_packets env"
  obtains b where "processPacketHeader env data len tag sy p (m_base s) = Inr (eCRV_OK, b)"
    "geometry b = geometry (m_base s)" "m_transparent (m_data_buffer b) = m_transparent (buf s)"
  using assms that unfolding accepts_packets_def keeps_settings_def by blast

lemma accepts_data:
  assumes "accepts_packets env"
  obtains b where "processPacketData env data len (m_base s) = Inr (eCRV_OK, b)"
    "geometry b = geometry (m_base s)" "m_transparent (m_data_buffer b) = m_transparent (buf s)"
  using assms that unfolding accepts_packets_def keeps_settings_def by blast

lemma correct_timestamp_private [simp]:
  "m_state (correct_timestamp env s) = m_state s" "m_next_state (correct_timestamp env s) = m_next_state s"
  "m_in_xrun (correct_timestamp env s) = m_in_xrun s"
  "m_cycle_to_switch_state (correct_timestamp env s) = m_cycle_to_switch_state s"
  "m_processor_type (correct_timestamp env s) = m_processor_type s"
  by (simp_all add: correct_timestamp_def Let_def base_setters)

lemma correct_timestamp_settings [simp]:
  "geometry (m_base (correct_timestamp env s)) = geometry (m_base s)"
  "m_transparent (buf (correct_timestamp env s)) = m_transparent (buf s)"
  by (simp_all add: correct_timestamp_def Let_def base_setters geometry_def setBufferTailTimestamp_def set_tail_def)

lemma putPacket_accepted:
  assumes "accepts_packets env" "m_state s \<notin> {ePS_Created, ePS_Error, ePS_WaitingForStreamDisable}"
    and "\<not> (m_state s = ePS_WaitingForStreamEnable \<and> m_next_state s = ePS_WaitingForStreamEnable)"
  shows "\<exists>s1. putPacket env data len channel tag sy p 0 s = putPacket_ok env data len p s1
    \<and> ctl s1 = ctl s \<and> m_cycle_to_switch_state s1 = m_cycle_to_switch_state s \<and> same_settings s s1"
proof -
  let ?s = "s\<lparr>m_last_timestamp2 := m_last_timestamp (m_base s)\<rparr>"
  obtain b where b: "processPacketHeader env data len tag sy p (m_base ?s) = Inr (eCRV_OK, b)"
      "geometry b = geometry (m_base s)"
    using accepts_header [OF assms(1), of data len tag sy p ?s] by auto
  have "putPacket env data len channel tag sy p 0 s = putPacket_ok env data len p (?s\<lparr>m_base := b\<rparr>)"
    using assms(2,3) b by (auto simp: putPacket_def putPacket_header_def Let_def)
  then show ?thesis
    by (intro exI [of _ "?s\<lparr>m_base := b\<rparr>"]) (simp add: ctl_def same_settings_def b)
qed

lemma start_stopped:
  assumes "accepts_packets env" "m_state s = ePS_Stopped" "m_next_state s = ePS_WaitingForStream"
  shows "\<exists>s'. putPacket env data len channel tag sy p 0 s = Inr (RAW1394_ISO_OK, s')
    \<and> m_state s' = ePS_WaitingForStream \<and> m_cycle_to_switch_state s' = m_cycle_to_switch_state s
    \<and> same_settings s s'"
proof -
  obtain s1 where s1: "putPacket env data len channel tag sy p 0 s = putPacket_ok env data len p s1"
      "ctl s1 = ctl s" "m_cycle_to_switch_state s1 = m_cycle_to_switch_state s" "same_settings s s1"
    using putPacket_accepted [OF assms(1), of s data len channel tag sy p] assms by auto
  then have "m_state s1 = ePS_Stopped" "m_next_state s1 = ePS_WaitingForStream"
    using assms by (simp_all add: ctl_def)
  then show ?thesis
    using s1 by (simp add: putPacket_ok_def Let_def update_or_def updateState_def
        doWaitForRunningStream_def same_settings_def)
qed

lemma start_waiting:
  assumes "accepts_packets env" "m_state s = ePS_WaitingForStream" "switch_due p s"
  shows "\<exists>s'. putPacket env data len channel tag sy p 0 s = Inr (RAW1394_ISO_OK, s')
    \<and> m_state s' = ePS_DryRunning \<and> same_settings s s'"
proof -
  obtain s1 where s1: "putPacket env data len channel tag sy p 0 s = putPacket_ok env data len p s1"
      "ctl s1 = ctl s" "m_cycle_to_switch_state s1 = m_cycle_to_switch_state s" "same_settings s s1"
    using putPacket_accepted [OF assms(1), of s data len channel tag sy p] assms(2) by auto
  let ?s = "(correct_timestamp env s1)\<lparr>m_next_state := ePS_DryRunning\<rparr>"
  have st: "m_state s1 = ePS_WaitingForStream" "switch_due p (correct_timestamp env s1)"
    using s1 assms by (simp_all add: ctl_def switch_due_def)
  have "\<exists>s'. updateState env ?s = Inr (True, s') \<and> m_state s' = ePS_DryRunning \<and> same_settings s1 s'"
    using st(1) correct_timestamp_settings(1) [of env s1, unfolded geometry_def]
    by (simp add: updateState_def doDryRunning_def Let_def base_setters same_settings_def geometry_def
        setBufferTailTimestamp_def set_tail_def)
  then obtain s' where "updateState env ?s = Inr (True, s')" "m_state s' = ePS_DryRunning"
      "same_settings s1 s'" by blast
  then show ?thesis
    using s1 st by (auto simp: putPacket_ok_def Let_def update_or_def intro: same_settings_trans)
qed

lemma putPacket_data_accepted:
  assumes "accepts_packets env"
  shows "\<exists>s'. putPacket_data env data len p s = Inr (RAW1394_ISO_OK, s') \<and> ctl s' = ctl s
    \<and> m_cycle_to_switch_state s' = m_cycle_to_switch_state s \<and> same_settings s s'
    \<and> m_transparent (buf s') = m_transparent (buf s)"
proof -
  obtain b where "processPacketData env data len (m_base s) = Inr (eCRV_OK, b)"
      "geometry b = geometry (m_base s)" "m_transparent (m_data_buffer b) = m_transparent (buf s)"
    using accepts_data [OF assms, of data len s] by auto
  then show ?thesis by (simp add: putPacket_data_def same_settings_def)
qed

lemma enable_from_dry:
  assumes "m_state s = ePS_DryRunning" "m_next_state s = ePS_WaitingForStreamEnable"
    and "m_processor_type s = ePT_Receive" "can_enable env s"
  shows "\<exists>s'. updateState env s = Inr (True, s')
    \<and> ctl s' = (ePS_WaitingForStreamEnable, ePS_WaitingForStreamEnable, m_in_xrun s)
    \<and> m_cycle_to_switch_state s' = m_cycle_to_switch_state s \<and> same_settings s s'"
proof -
  let ?n = "ringbuffer_size_frames env s"
  let ?sz = "ucast (m_events_per_frame (buf s) * ?n * m_event_size (buf s)) :: u64"
  have "unat ?sz \<le> 2 ^ 30" using assms(4) by (simp add: can_enable_def)
  then obtain rb where "ffado_ringbuffer_create (heap_bytes env) ?sz = Inr rb"
    by (rule ringbuffer_created)
  then have "resizeBuffer (heap_bytes env) ?n (buf s)
      = Inr (True, reset_rate (resetFrameCounter ((buf s)\<lparr>m_event_buffer := Some rb\<rparr>))\<lparr>m_buffer_size := ?n\<rparr>)"
    using assms(4) by (simp add: resizeBuffer_def can_enable_def Let_def)
  then show ?thesis
    using assms(1-3)
    by (simp add: updateState_def doWaitForStreamEnable_def on_buffer_def base_setters ctl_def
        same_settings_def geometry_def reset_rate_def resetFrameCounter_def)
qed

lemma start_dry:
  assumes "accepts_packets env" "m_state s = ePS_DryRunning" "m_next_state s = ePS_WaitingForStreamEnable"
    and "m_processor_type s = ePT_Receive" "can_enable env s"
  shows "\<exists>s'. putPacket env data len channel tag sy p 0 s = Inr (RAW1394_ISO_OK, s')
    \<and> m_state s' = ePS_WaitingForStreamEnable \<and> m_next_state s' = ePS_WaitingForStreamEnable
    \<and> m_cycle_to_switch_state s' = m_cycle_to_switch_state s \<and> same_settings s s'"
proof -
  obtain s1 where s1: "putPacket env data len channel tag sy p 0 s = putPacket_ok env data len p s1"
      "ctl s1 = ctl s" "m_cycle_to_switch_state s1 = m_cycle_to_switch_state s" "same_settings s s1"
    using putPacket_accepted [OF assms(1), of s data len channel tag sy p] assms(2) by auto
  let ?s = "correct_timestamp env s1"
  have same: "same_settings s ?s" using s1(4) by (simp add: same_settings_def)
  have st: "m_state s1 = ePS_DryRunning" "m_next_state s1 = ePS_WaitingForStreamEnable"
    using s1(2) assms(2,3) by (simp_all add: ctl_def)
  obtain s2 where s2: "updateState env ?s = Inr (True, s2)"
      "ctl s2 = (ePS_WaitingForStreamEnable, ePS_WaitingForStreamEnable, m_in_xrun ?s)"
      "m_cycle_to_switch_state s2 = m_cycle_to_switch_state ?s" "same_settings ?s s2"
    using enable_from_dry [of ?s env] st assms(4,5) same can_enable_same [OF same, of env]
    by (auto simp: same_settings_def)
  obtain s3 where "putPacket_data env data len p s2 = Inr (RAW1394_ISO_OK, s3)" "ctl s3 = ctl s2"
      "m_cycle_to_switch_state s3 = m_cycle_to_switch_state s2" "same_settings s2 s3"
    using putPacket_data_accepted [OF assms(1), of data len p s2] by auto
  then show ?thesis
    using s1 st s2 same
    by (auto simp: putPacket_ok_def Let_def update_or_def ctl_def
        intro: same_settings_trans [OF same] same_settings_trans [OF s2(4)])
qed

lemma enter_running:
  assumes "m_state s = ePS_WaitingForStreamEnable" "can_enable env s"
  shows "\<exists>s'. updateState env (s\<lparr>m_next_state := ePS_Running\<rparr>) = Inr (True, s')
    \<and> ctl s' = (ePS_Running, ePS_Running, False) \<and> \<not> m_transparent (buf s')"
  using assms
  by (simp add: updateState_def doRunning_def setBandwidth_def Let_def base_setters can_enable_def
      dll_tupdate_def ctl_def setTransparent_def not_le [symmetric])

lemma start_enabled:
  assumes "accepts_packets env" "m_state s = ePS_WaitingForStreamEnable"
    and "m_next_state s = ePS_WaitingForStreamEnable" "switch_due p s" "can_enable env s"
  shows "\<exists>s'. putPacket env data len channel tag sy p 0 s = Inr (RAW1394_ISO_OK, s')
    \<and> m_state s' = ePS_Running \<and> \<not> m_in_xrun s' \<and> \<not> m_transparent (buf s')"
proof -
  let ?s = "s\<lparr>m_last_timestamp2 := m_last_timestamp (m_base s)\<rparr>"
  have "can_enable env ?s" "switch_due p ?s"
    using assms(4,5) by (simp_all add: can_enable_def switch_due_def ringbuffer_size_frames_def)
  then obtain s1 where s1: "updateState env (?s\<lparr>m_next_state := ePS_Running\<rparr>) = Inr (True, s1)"
      "ctl s1 = (ePS_Running, ePS_Running, False)" "\<not> m_transparent (buf s1)"
    using enter_running [of ?s env] assms(2) by auto
  obtain b where b: "processPacketHeader env data len tag sy p (m_base s1) = Inr (eCRV_OK, b)"
      "m_transparent (m_data_buffer b) = m_transparent (buf s1)"
    using accepts_header [OF assms(1), of data len tag sy p s1] by auto
  let ?s2 = "correct_timestamp env (s1\<lparr>m_base := b\<rparr>)"
  obtain s3 where s3: "putPacket_data env data len p ?s2 = Inr (RAW1394_ISO_OK, s3)" "ctl s3 = ctl ?s2"
      "m_transparent (buf s3) = m_transparent (buf ?s2)"
    using putPacket_data_accepted [OF assms(1), of data len p ?s2] by auto
  have "putPacket env data len channel tag sy p 0 s = putPacket_header env data len tag sy p 0 s1"
    using assms(2,3) s1(1) \<open>switch_due p ?s\<close> by (simp add: putPacket_def Let_def update_or_def)
  also have "\<dots> = putPacket_ok env data len p (s1\<lparr>m_base := b\<rparr>)"
    using b(1) by (simp add: putPacket_header_def)
  also have "\<dots> = Inr (RAW1394_ISO_OK, s3)"
    using s1(2) s3(1) by (simp add: putPacket_ok_def Let_def ctl_def)
  finally show ?thesis using s1(2,3) b(2) s3 by (simp add: ctl_def)
qed

lemma receive_start:
  assumes "accepts_packets env" "m_state s = ePS_Stopped" "m_processor_type s = ePT_Receive"
    and "\<forall>c. startHandlerForStream env c" "can_enable env s"
    and "0 \<le>s diffCycles (ucast (packet_cycle p2)) (ucast (TICKS_TO_CYCLES (request_time env 200 t1)))"
    and "0 \<le>s diffCycles (ucast (packet_cycle p4)) (ucast (TICKS_TO_CYCLES (request_time env 200 t2)))"
  shows "\<exists>s1 s2 s3 s4 s5 s6. scheduleStartDryRunning env t1 s = (True, s1)
    \<and> putPacket env d1 l1 ch tag sy p1 0 s1 = Inr (RAW1394_ISO_OK, s2)
    \<and> m_state s2 = ePS_WaitingForStream
    \<and> putPacket env d2 l2 ch tag sy p2 0 s2 = Inr (RAW1394_ISO_OK, s3)
    \<and> m_state s3 = ePS_DryRunning
    \<and> scheduleStartRunning env t2 s3 = (True, s4)
    \<and> putPacket env d3 l3 ch tag sy p3 0 s4 = Inr (RAW1394_ISO_OK, s5)
    \<and> m_state s5 = ePS_WaitingForStreamEnable
    \<and> putPacket env d4 l4 ch tag sy p4 0 s5 = Inr (RAW1394_ISO_OK, s6)
    \<and> m_state s6 = ePS_Running \<and> \<not> m_in_xrun s6 \<and> \<not> m_transparent (buf s6)"
proof -
  define s1 where "s1 = s\<lparr>m_cycle_to_switch_state := ucast (TICKS_TO_CYCLES (request_time env 200 t1)),
    m_next_state := ePS_WaitingForStream\<rparr>"
  have sched1: "scheduleStartDryRunning env t1 s = (True, s1)"
    using assms(2,4) by (simp add: scheduleStartDryRunning_def scheduleStateTransition_def Let_def s1_def)
  have same1: "same_settings s s1" by (simp add: same_settings_def s1_def)
  obtain s2 where s2: "putPacket env d1 l1 ch tag sy p1 0 s1 = Inr (RAW1394_ISO_OK, s2)"
      "m_state s2 = ePS_WaitingForStream" "m_cycle_to_switch_state s2 = m_cycle_to_switch_state s1"
      "same_settings s1 s2"
    using start_stopped [OF assms(1), of s1 d1 l1 ch tag sy p1] assms(2) by (auto simp: s1_def)
  have "switch_due p2 s2" using assms(6) s2(3) by (simp add: switch_due_def s1_def)
  then obtain s3 where s3: "putPacket env d2 l2 ch tag sy p2 0 s2 = Inr (RAW1394_ISO_OK, s3)"
      "m_state s3 = ePS_DryRunning" "same_settings s2 s3"
    using start_waiting [OF assms(1) s2(2), of p2 d2 l2 ch tag sy] by auto
  define s4 where "s4 = s3\<lparr>m_cycle_to_switch_state := ucast (TICKS_TO_CYCLES (request_time env 200 t2)),
    m_next_state := ePS_WaitingForStreamEnable\<rparr>"
  have sched2: "scheduleStartRunning env t2 s3 = (True, s4)"
    by (simp add: scheduleStartRunning_def scheduleStateTransition_def s4_def)
  have same4: "same_settings s s4"
    using same_settings_trans [OF same_settings_trans [OF same1 s2(4)] s3(3)]
    by (simp add: same_settings_def s4_def)
  obtain s5 where s5: "putPacket env d3 l3 ch tag sy p3 0 s4 = Inr (RAW1394_ISO_OK, s5)"
      "m_state s5 = ePS_WaitingForStreamEnable" "m_next_state s5 = ePS_WaitingForStreamEnable"
      "m_cycle_to_switch_state s5 = m_cycle_to_switch_state s4" "same_settings s4 s5"
    using start_dry [OF assms(1), of s4 d3 l3 ch tag sy p3] s3(2) assms(3,5) same4
      can_enable_same [OF same4, of env] by (auto simp: s4_def same_settings_def)
  have "switch_due p4 s5" using assms(7) s5(4) by (simp add: switch_due_def s4_def)
  moreover have "can_enable env s5"
    using can_enable_same [OF same_settings_trans [OF same4 s5(5)], of env] assms(5) by simp
  ultimately obtain s6 where "putPacket env d4 l4 ch tag sy p4 0 s5 = Inr (RAW1394_ISO_OK, s6)"
      "m_state s6 = ePS_Running" "\<not> m_in_xrun s6" "\<not> m_transparent (buf s6)"
    using start_enabled [OF assms(1) s5(2,3), of p4 d4 l4 ch tag sy] by auto
  then show ?thesis using sched1 s2(1,2) s3(1,2) sched2 s5(1,2) by blast
qed

section \<open>Properties\<close>

text \<open>
  C8. A receive stream recovers from lost packets. When packets were dropped while the stream
  runs, the stream is disabled with the packet that reports it, on every path and whatever the
  subclass makes of the packet, and the xrun is flagged. The first packet of the following half
  second, whatever it holds, brings it back to dry-running, with the buffer empty and transparent
  and the old timestamp forgotten; the flag stays up for the client to see.
\<close>
theorem receive_xrun_recovery:
  assumes "m_state s = ePS_Running" "dropped \<noteq> 0"
    and "putPacket env data len channel tag sy p dropped s = Inr (d, s1)"
    and "m_event_buffer (buf s1) \<noteq> None"
    and "unat (packet_cycle p) < 8000" "1 \<le> k" "k \<le> 4000"
    and "unat (packet_cycle p') = (unat (packet_cycle p) + k) mod 8000"
  shows "m_state s1 = ePS_WaitingForStreamDisable \<and> m_in_xrun s1
    \<and> (\<exists>s2. putPacket env' data' len' channel' tag' sy' p' dropped' s1 = Inr (RAW1394_ISO_OK, s2)
         \<and> m_state s2 = ePS_DryRunning \<and> m_in_xrun s2
         \<and> m_last_timestamp (m_base s2) = 0 \<and> cleared (buf s2))"
proof -
  have dis: "disabled_at p s1"
    using ensuresD [OF putPacket_dropped [OF assms(1,2)] assms(3)] by simp
  let ?s = "s1\<lparr>m_last_timestamp2 := m_last_timestamp (m_base s1)\<rparr>"
  have due: "switch_due p' ?s"
    using assms(5-8) dis by (intro switch_due_after) (auto simp: disabled_at_def)
  obtain s2 where "updateState env' (?s\<lparr>m_next_state := ePS_DryRunning\<rparr>) = Inr (True, s2)"
      "m_state s2 = ePS_DryRunning" "m_in_xrun s2 = m_in_xrun s1"
      "m_last_timestamp (m_base s2) = 0" "cleared (buf s2)"
    using leave_disable [of ?s env'] assms(4) dis by (auto simp: disabled_at_def ctl_def)
  then show ?thesis
    using dis due disabled_at_state [OF dis]
    by (auto simp: putPacket_def Let_def update_or_def disabled_at_def ctl_def)
qed

text \<open>
  C18. A transmit stream that runs and is told of dropped cycles, or whose subclass reports an xrun
  while it makes the packet header, is disabled at once with the xrun flagged and the switch
  scheduled for the next cycle. The packet that goes out in that cycle is the empty packet that the
  subclass makes, out of the packet handed in when cycles were dropped and out of the one with the
  abandoned header when the header reported the xrun; whenever the subclass can make it, the call
  returns it with the disposition OK.
\<close>
theorem transmit_xrun_disables:
  assumes "m_state s = ePS_Running" "p \<noteq> 0xFFFFFFFF"
    and "0 < dropped \<and> pk0 = pk \<and> b0 = m_base s
      \<or> dropped = 0 \<and> generatePacketHeader env p pk (m_base s) = Inr (eCRV_XRun, pk0, b0)"
    and "generateEmptyPacketHeader env p pk0 b0 = Inr (r1, pk1, b1)"
    and "generateEmptyPacketData env pk1 b1 = Inr (r2, pk2, b2)"
  shows "\<exists>s'. getPacket env pk p dropped skipped max_length s = Inr (RAW1394_ISO_OK, pk2, s')
    \<and> m_base s' = b2 \<and> m_state s' = ePS_WaitingForStreamDisable
    \<and> m_next_state s' = ePS_WaitingForStreamDisable \<and> m_in_xrun s'
    \<and> m_cycle_to_switch_state s' = ucast (packet_cycle p + 1)"
proof -
  have empty: "empty_made env p pk0 b0 pk2 b2" using assms(4,5) by (auto simp: empty_made_def)
  have "\<exists>s1. getPacket env pk p dropped skipped max_length s
      = Inr (RAW1394_ISO_OK, pk2, s1\<lparr>m_base := b2\<rparr>) \<and> disabled_at p s1"
  proof (cases "0 < dropped")
    case True
    obtain s1 where s1: "updateState env (request_disable p (s\<lparr>m_in_xrun := True\<rparr>)) = Inr (True, s1)"
        "disabled_at p s1" "m_base s1 = m_base s"
      using disable_running [of "s\<lparr>m_in_xrun := True\<rparr>" env p] assms(1) by auto
    then have "send_empty_packet env p pk s1 = Inr (RAW1394_ISO_OK, pk2, s1\<lparr>m_base := b2\<rparr>)"
      using send_empty_packet_disabled [of p s1 env p pk pk2 b2] empty assms(3) True by auto
    then show ?thesis
      using True assms(1,2) s1 by (auto simp: getPacket_def Let_def update_or_def)
  next
    case False
    then have gen: "generatePacketHeader env p pk (m_base s) = Inr (eCRV_XRun, pk0, b0)"
      using assms(3) by simp
    obtain s1 where s1: "updateState env (request_disable p (s\<lparr>m_base := b0\<rparr>)) = Inr (True, s1)"
        "disabled_at p s1" "m_base s1 = b0"
      using disable_running [of "s\<lparr>m_base := b0\<rparr>" env p] assms(1) by auto
    then have "send_empty_packet env p pk0 s1 = Inr (RAW1394_ISO_OK, pk2, s1\<lparr>m_base := b2\<rparr>)"
      using send_empty_packet_disabled [of p s1 env p pk0 pk2 b2] empty by simp
    then show ?thesis
      using False assms(1,2) gen s1
      by (auto simp: getPacket_def getPacket_normal_def getPacket_running_def Let_def update_or_def)
  qed
  then show ?thesis by (auto simp: disabled_at_def ctl_def)
qed

text \<open>
  C6. A stopped receive stream starts. When the subclass accepts the packets, the start of the
  handler succeeds and the settings allow the buffer to be sized and the loop bandwidth to be
  set, then four good packets take the stream from stopped to running: the first one after the
  request to dry-run moves it to waiting, the second one, not before the requested cycle, to
  dry-running, the third one after the request to run enables it, and the fourth one, not before
  that request's cycle, makes it run, with no xrun pending and the buffer no longer transparent.
\<close>
theorem receive_start_live:
  assumes "accepts_packets env" "m_state s = ePS_Stopped" "m_processor_type s = ePT_Receive"
    and "\<forall>c. startHandlerForStream env c" "can_enable env s"
    and "0 \<le>s diffCycles (ucast (packet_cycle p2)) (ucast (TICKS_TO_CYCLES (request_time env 200 t1)))"
    and "0 \<le>s diffCycles (ucast (packet_cycle p4)) (ucast (TICKS_TO_CYCLES (request_time env 200 t2)))"
  shows "\<exists>s1 s2 s3 s4 s5 s6. scheduleStartDryRunning env t1 s = (True, s1)
    \<and> putPacket env d1 l1 ch tag sy p1 0 s1 = Inr (RAW1394_ISO_OK, s2)
    \<and> m_state s2 = ePS_WaitingForStream
    \<and> putPacket env d2 l2 ch tag sy p2 0 s2 = Inr (RAW1394_ISO_OK, s3)
    \<and> m_state s3 = ePS_DryRunning
    \<and> scheduleStartRunning env t2 s3 = (True, s4)
    \<and> putPacket env d3 l3 ch tag sy p3 0 s4 = Inr (RAW1394_ISO_OK, s5)
    \<and> m_state s5 = ePS_WaitingForStreamEnable
    \<and> putPacket env d4 l4 ch tag sy p4 0 s5 = Inr (RAW1394_ISO_OK, s6)
    \<and> m_state s6 = ePS_Running \<and> \<not> m_in_xrun s6 \<and> \<not> m_transparent (buf s6)"
  using receive_start [OF assms] .

text \<open>Concrete streams: one that runs, and one that is stopped, both prepared for frames of 4 bytes.\<close>

definition stream_in :: "eProcessorType \<Rightarrow> eProcessorState \<Rightarrow> unit sp" where
  "stream_in type st =
    set_buffer sample_buffer (snd (setDllBandwidth 0 (StreamProcessor type no_ports ())))
      \<lparr>m_state := st, m_next_state := st\<rparr>"

lemma stream_in_fields [simp]:
  "m_state (stream_in type st) = st" "m_next_state (stream_in type st) = st"
  "m_processor_type (stream_in type st) = type" "buf (stream_in type st) = sample_buffer"
  "m_dll_bandwidth_hz (m_base (stream_in type st)) = 0"
  "m_extra_buffer_frames (m_base (stream_in type st)) = 0"
  by (simp_all add: stream_in_def StreamProcessor_def setDllBandwidth_def base_setters)

lemma sample_env_calls [simp]:
  "processPacketHeader sample_env d l tg y p b = Inr (eCRV_OK, b)"
  "processPacketData sample_env d l b = Inr (eCRV_OK, b)"
  "generatePacketHeader sample_env p pk b = Inr (eCRV_Packet, pk, b)"
  "generateEmptyPacketHeader sample_env p pk b = Inr (eCRV_OK, pk, b)"
  "generateEmptyPacketData sample_env pk b = Inr (eCRV_OK, pk, b)"
  "startHandlerForStream sample_env c" "getNbBuffers sample_env = 2" "getPeriodSize sample_env = 8"
  by (simp_all add: sample_env_def)

lemma unat_packet_cycle: "unat (packet_cycle p) = unat p div 4096 mod 8192"
  by (simp add: packet_cycle_def unat_GET_CYCLES)

theorem receive_xrun_recovery_witness:
  "\<exists>d s1 s2. putPacket sample_env [] 0 0 0 0 32763904 1 (stream_in ePT_Receive ePS_Running) = Inr (d, s1)
    \<and> putPacket sample_env [] 0 0 0 0 0 0 s1 = Inr (RAW1394_ISO_OK, s2) \<and> m_state s2 = ePS_DryRunning"
proof -
  have "\<exists>d s1. putPacket sample_env [] 0 0 0 0 32763904 1 (stream_in ePT_Receive ePS_Running) = Inr (d, s1)
      \<and> m_event_buffer (buf s1) \<noteq> None"
    by (simp add: putPacket_def putPacket_header_def Let_def update_or_def updateState_def doWaitForStreamDisable_def
        putPacket_ok_def putPacket_data_def correct_timestamp_def base_setters request_disable_def
        setBufferTailTimestamp_def set_tail_def sample_buffer_def)
  then obtain d s1 where s1: "putPacket sample_env [] 0 0 0 0 32763904 1 (stream_in ePT_Receive ePS_Running) = Inr (d, s1)"
      "m_event_buffer (buf s1) \<noteq> None" by blast
  have c: "unat (packet_cycle 32763904) = 7999" "unat (packet_cycle 0) = 0"
    by (simp_all add: unat_packet_cycle)
  from receive_xrun_recovery [OF _ _ s1, of 1 0 sample_env "[]" 0 0 0 0 0] c show ?thesis
    using s1(1) by auto
qed

text \<open>A subclass whose empty packets have 8 bytes and the tag 1, and a packet of 24 bytes to start with.\<close>

theorem transmit_xrun_disables_witness:
  "\<exists>s'. getPacket (sample_env\<lparr>generateEmptyPacketHeader := (\<lambda>_ pk b. Inr (eCRV_OK, pk\<lparr>pk_length := 8, pk_tag := 1\<rparr>, b))\<rparr>)
      \<lparr>pk_data = [], pk_length = 24, pk_tag = 0, pk_sy = 0\<rparr> 0 3 0 1024 (stream_in ePT_Transmit ePS_Running)
      = Inr (RAW1394_ISO_OK, \<lparr>pk_data = [], pk_length = 8, pk_tag = 1, pk_sy = 0\<rparr>, s')
    \<and> m_state s' = ePS_WaitingForStreamDisable \<and> m_in_xrun s'"
proof -
  let ?pk = "\<lparr>pk_data = [], pk_length = 24, pk_tag = 0, pk_sy = 0\<rparr> :: iso_packet"
  let ?env = "sample_env\<lparr>generateEmptyPacketHeader := (\<lambda>_ pk b. Inr (eCRV_OK, pk\<lparr>pk_length := 8, pk_tag := 1\<rparr>, b))\<rparr>"
  let ?s = "stream_in ePT_Transmit ePS_Running"
  have h: "generateEmptyPacketHeader ?env 0 ?pk (m_base ?s) = Inr (eCRV_OK, ?pk\<lparr>pk_length := 8, pk_tag := 1\<rparr>, m_base ?s)"
    "generateEmptyPacketData ?env (?pk\<lparr>pk_length := 8, pk_tag := 1\<rparr>) (m_base ?s)
      = Inr (eCRV_OK, ?pk\<lparr>pk_length := 8, pk_tag := 1\<rparr>, m_base ?s)"
    by simp_all
  from transmit_xrun_disables [OF _ _ _ h, where dropped = 3 and pk = ?pk and skipped = 0 and max_length = 1024 and s = ?s]
  show ?thesis by auto
qed

lemma sample_can_enable: "can_enable sample_env (stream_in ePT_Receive ePS_Stopped)"
  by (simp add: can_enable_def ringbuffer_size_frames_def sample_buffer_def)

lemma sample_due:
  "0 \<le>s diffCycles (ucast (packet_cycle 0)) (ucast (TICKS_TO_CYCLES (request_time sample_env 200 0)))"
  using sint_diffCycles [of 0 0]
  by (simp add: request_time_def TICKS_TO_CYCLES_def packet_cycle_def CYCLE_TIMER_GET_CYCLES_def word_sle_eq)

theorem receive_start_live_witness:
  "\<exists>s1 s2 s3 s4 s5 s6.
    scheduleStartDryRunning sample_env 0 (stream_in ePT_Receive ePS_Stopped) = (True, s1)
    \<and> putPacket sample_env [] 0 0 0 0 0 0 s1 = Inr (RAW1394_ISO_OK, s2)
    \<and> putPacket sample_env [] 0 0 0 0 0 0 s2 = Inr (RAW1394_ISO_OK, s3)
    \<and> scheduleStartRunning sample_env 0 s3 = (True, s4)
    \<and> putPacket sample_env [] 0 0 0 0 0 0 s4 = Inr (RAW1394_ISO_OK, s5)
    \<and> putPacket sample_env [] 0 0 0 0 0 0 s5 = Inr (RAW1394_ISO_OK, s6)
    \<and> m_state s6 = ePS_Running"
proof -
  have accepts: "accepts_packets sample_env"
    by (simp add: accepts_packets_def keeps_settings_def)
  from receive_start_live [OF accepts _ _ _ sample_can_enable sample_due sample_due, of "[]" 0 0 0 0 0 "[]" 0 "[]" 0 0 "[]" 0]
  show ?thesis by auto
qed

end
