(* ===== verification/StreamTransfer.thy ===== *)
theory StreamTransfer
  imports StreamRecovery
begin

text \<open>
  The client side of a stream processor: waiting for a state, the number of packets a period
  needs, the silence a transmit stream is filled with before it runs, and the silence the ports
  get while a receive stream is dry-running.
\<close>

section \<open>Waiting for a state\<close>

lemma wait_loop_nonzero: "wait_loop obs state i cnt \<noteq> 0 \<longleftrightarrow> (\<exists>k<cnt. obs (i + k) = state)"
proof (induction cnt arbitrary: i)
  case 0
  then show ?case by (simp add: wait_loop.simps)
next
  case (Suc cnt)
  show ?case
  proof (cases "obs i = state")
    case True
    then show ?thesis by (subst wait_loop.simps) (auto intro: exI [of _ 0])
  next
    case False
    then have "(\<exists>k<Suc cnt. obs (i + k) = state) \<longleftrightarrow> (\<exists>k<cnt. obs (Suc i + k) = state)"
      by (auto simp: less_Suc_eq_0_disj)
    then show ?thesis using False Suc.IH [of "Suc i"] by (subst wait_loop.simps) simp
  qed
qed

text \<open>
  C38. \<open>waitForState\<close> always returns, after at most as many polls as the timeout has milliseconds,
  and returns true exactly when one of the first \<open>timeout_ms\<close> polls sees the state. A state that is
  reached only at the test that ends the last wait is reported as a timeout.
\<close>
theorem waitForState_exact:
  "waitForState obs state timeout_ms \<longleftrightarrow> (\<exists>k<unat timeout_ms. obs k = state)"
  using wait_loop_nonzero [of obs state 0 "unat timeout_ms"] by (simp add: waitForState_def)

section \<open>Packets per period\<close>

lemma unat_u32_less: "unat (n :: u32) < 4294967296"
proof -
  have "unat n < 2 ^ LENGTH(32)" by (rule unsigned_less)
  then show ?thesis by simp
qed

lemma unat_div_64: "unat (x div y :: u64) = unat x div unat y"
  by (simp add: unat_div)

lemma ceiling_div:
  fixes t c :: nat
  assumes "0 < c"
  shows "t \<le> (t + (c - 1)) div c * c" "(t + (c - 1)) div c * c < t + c"
proof -
  have "t + (c - 1) = (t + (c - 1)) div c * c + (t + (c - 1)) mod c" by simp
  moreover have "(t + (c - 1)) mod c < c" using assms by simp
  ultimately show "t \<le> (t + (c - 1)) div c * c" "(t + (c - 1)) div c * c < t + c"
    using assms by linarith+
qed

lemma unat_nominal_ticks:
  fixes r n :: u32
  assumes "r \<noteq> 0"
  shows "unat (TICKS_PER_SECOND div ucast r * ucast n :: u64) = 24576000 div unat r * unat n"
proof -
  have "24576000 div unat r * unat n \<le> 24576000 * unat n" by (simp add: div_le_dividend)
  also have "\<dots> \<le> 24576000 * (4294967295 :: nat)"
    using unat_u32_less [of n] by (intro mult_le_mono) simp_all
  finally have small: "24576000 div unat r * unat n \<le> 105553140088320000" by simp
  have d: "unat (TICKS_PER_SECOND div ucast r :: u64) = 24576000 div unat r"
    by (subst unat_div_64) (simp only: unat_ucast_32_64, simp)
  have "unat (TICKS_PER_SECOND div ucast r :: u64) * unat (ucast n :: u64) < 2 ^ 64"
    unfolding d unat_ucast_32_64 by (rule order.strict_trans1 [OF small]) simp
  then have "unat ((TICKS_PER_SECOND div ucast r :: u64) * ucast n)
      = unat (TICKS_PER_SECOND div ucast r :: u64) * unat (ucast n :: u64)"
    by (intro unat_mult_small) simp
  then show ?thesis by (simp only: d unat_ucast_32_64)
qed

lemma getNominalPacketsNeeded_value:
  assumes "8000 \<le> getNominalRate env"
  shows "\<exists>k. getNominalPacketsNeeded env n = Inr k
    \<and> unat k = (24576000 div unat (getNominalRate env) * unat n + 3071) div 3072"
proof -
  let ?r = "getNominalRate env"
  let ?t = "TICKS_PER_SECOND div ucast ?r * ucast n :: u64"
  have r: "8000 \<le> unat ?r" using assms by (simp add: word_le_nat_alt)
  then have nz: "?r \<noteq> 0" by auto
  note t = unat_nominal_ticks [OF nz, of n]
  have "24576000 div unat ?r \<le> 24576000 div 8000" by (rule div_le_mono2) (use r in simp_all)
  then have le: "24576000 div unat ?r * unat n \<le> 3072 * unat n" by simp
  then have small: "24576000 div unat ?r * unat n \<le> 3072 * 4294967295"
    using unat_u32_less [of n] by linarith
  have a: "unat (?t + 3072) = unat ?t + 3072"
    using small by (intro trans [OF unat_plus_small]) (simp_all only: t, simp_all)
  have b: "unat (?t + 3072 - 1) = unat ?t + 3071"
    by (rule trans [OF unat_minus_small]) (simp_all only: a, simp_all)
  have c: "unat ((?t + 3072 - 1) div 3072) = (24576000 div unat ?r * unat n + 3071) div 3072"
    by (subst unat_div_64) (simp only: b t, simp)
  have "(24576000 div unat ?r * unat n + 3071) div 3072 \<le> (3072 * unat n + 3071) div 3072"
    using le by (intro div_le_mono) simp
  then have "(24576000 div unat ?r * unat n + 3071) div 3072 < 4294967296"
    using unat_u32_less [of n] by simp
  then have "unat (ucast ((?t + 3072 - 1) div 3072) :: u32) = (24576000 div unat ?r * unat n + 3071) div 3072"
    using unat_ucast_64_32 [of "(?t + 3072 - 1) div 3072"] c by simp
  then show ?thesis using nz by (auto simp: getNominalPacketsNeeded_def Let_def)
qed

text \<open>
  C39. The number of packets for a number of frames. At a rate that divides the 24576000 ticks of
  a second, from 8 kHz up, \<open>getNominalPacketsNeeded\<close> returns the least number of packets that
  cover the duration of the frames. At 44.1 kHz, whose frame is not a whole number of ticks, the
  duration is truncated first and the result is too small: a period of 4096 frames needs 744
  packets and gets 743.
\<close>
theorem packets_needed:
  assumes "8000 \<le> getNominalRate env"
  shows "\<exists>k. getNominalPacketsNeeded env n = Inr k
    \<and> (unat (getNominalRate env) dvd 24576000 \<longrightarrow>
         unat n * 24576000 \<le> unat k * 3072 * unat (getNominalRate env)
         \<and> (\<forall>j<unat k. j * 3072 * unat (getNominalRate env) < unat n * 24576000))
    \<and> (getNominalRate env = 44100 \<and> n = 4096 \<longrightarrow>
         unat k = 743 \<and> unat k * 3072 * unat (getNominalRate env) < unat n * 24576000)"
proof -
  let ?r = "unat (getNominalRate env)"
  let ?t = "24576000 div ?r * unat n"
  obtain k where k: "getNominalPacketsNeeded env n = Inr k" "unat k = (?t + 3071) div 3072"
    using getNominalPacketsNeeded_value [OF assms, of n] by blast
  have r: "0 < ?r" using assms by (auto simp: word_le_nat_alt)
  have c: "?t \<le> unat k * 3072" "unat k * 3072 < ?t + 3072"
    using ceiling_div [of 3072 ?t] by (simp_all add: k(2))
  have exact: "unat n * 24576000 \<le> unat k * 3072 * ?r
      \<and> (\<forall>j<unat k. j * 3072 * ?r < unat n * 24576000)" if "?r dvd 24576000"
  proof -
    have t: "?t * ?r = unat n * 24576000" using that by (simp add: mult.commute mult.left_commute)
    have "?t * ?r \<le> unat k * 3072 * ?r" using c(1) by (rule mult_right_mono) simp
    moreover have "j * 3072 * ?r < ?t * ?r" if "j < unat k" for j
    proof -
      have "j * 3072 < ?t" using that c(2) by simp
      then show ?thesis using r by simp
    qed
    ultimately show ?thesis by (simp add: t)
  qed
  have "unat k = 743 \<and> unat k * 3072 * ?r < unat n * 24576000"
    if "getNominalRate env = 44100 \<and> n = 4096"
    using that k(2) by simp
  then show ?thesis using k(1) exact by blast
qed

theorem packets_needed_witness:
  "8000 \<le> getNominalRate sample_env \<and> (\<exists>k. getNominalPacketsNeeded sample_env 8 = Inr k
    \<and> 8 * 24576000 \<le> unat k * 3072 * 48000)"
proof -
  have "8000 \<le> getNominalRate sample_env" by (simp add: sample_env_def)
  with packets_needed [OF this, of 8] show ?thesis by (auto simp: sample_env_def)
qed

section \<open>Prefilling a transmit stream\<close>

lemma unat_mult3:
  fixes x y z :: u32
  assumes "0 < unat z" "unat x * unat y * unat z \<le> 2 ^ 30"
  shows "unat (x * y * z) = unat x * unat y * unat z"
proof -
  have "unat x * unat y \<le> unat x * unat y * unat z" by (rule le_mult_pos [OF assms(1)])
  then have "unat x * unat y \<le> 2 ^ 30" using assms(2) by linarith
  then have xy: "unat (x * y) = unat x * unat y" by (intro unat_mult_small) simp
  show ?thesis using assms(2) by (subst unat_mult_small) (simp_all only: xy, simp)
qed

text \<open>The frames a transmit stream is filled with, and the settings under which they fit.\<close>

definition prefill_frames :: "'c sp_env \<Rightarrow> 'c sp \<Rightarrow> nat" where
  "prefill_frames env s =
    unat (getNbBuffers env) * unat (getPeriodSize env) + unat (m_extra_buffer_frames (m_base s))"

definition frame_bytes :: "'c sp \<Rightarrow> nat" where
  "frame_bytes s = unat (m_events_per_frame (buf s)) * unat (m_event_size (buf s))"

definition prefill_ok :: "'c sp_env \<Rightarrow> 'c sp \<Rightarrow> bool" where
  "prefill_ok env s \<longleftrightarrow>
    getEventsPerFrame env (child s) = m_events_per_frame (buf s)
    \<and> getEventSize env (child s) = m_event_size (buf s)
    \<and> 0 < frame_bytes s \<and> (prefill_frames env s + 1) * frame_bytes s \<le> 2 ^ 30"

lemma prefill_sizes:
  assumes "prefill_ok env s"
  shows "unat (getNbBuffers env * getPeriodSize env + m_extra_buffer_frames (m_base s)) = prefill_frames env s"
    "unat (ringbuffer_size_frames env s) = prefill_frames env s + 1"
    "prefill_frames env s < 2 ^ 30"
proof -
  let ?N = "prefill_frames env s"
  have "(?N + 1) * 1 \<le> (?N + 1) * frame_bytes s"
    by (rule mult_le_mono2) (use assms in \<open>simp add: prefill_ok_def\<close>)
  moreover have "(?N + 1) * frame_bytes s \<le> 2 ^ 30" using assms by (simp add: prefill_ok_def)
  ultimately have N: "?N + 1 \<le> 2 ^ 30" by (simp only: mult_1_right)
  then show less: "?N < 2 ^ 30" by simp
  have np: "unat (getNbBuffers env * getPeriodSize env) = unat (getNbBuffers env) * unat (getPeriodSize env)"
    using N by (intro unat_mult_small) (simp add: prefill_frames_def)
  show frames: "unat (getNbBuffers env * getPeriodSize env + m_extra_buffer_frames (m_base s)) = ?N"
    using N by (subst unat_plus_small) (simp_all add: np prefill_frames_def)
  show "unat (ringbuffer_size_frames env s) = ?N + 1"
    unfolding ringbuffer_size_frames_def using N by (subst unat_plus_small) (simp_all add: frames)
qed

lemma preload_fits:
  assumes "m_event_buffer b = Some rb" "rb_inv rb" "rb_contents rb = []" "m_framecounter b = 0"
    and "unat (n * m_event_size b * m_events_per_frame b) = length d" "length d \<le> rb_capacity rb"
  shows "\<exists>b' rb'. preloadFrames n d True b = Inr (True, b') \<and> m_event_buffer b' = Some rb'
    \<and> rb_contents rb' = d \<and> m_framecounter b' = n"
proof -
  let ?w = "ucast (n * m_event_size b * m_events_per_frame b) :: u64"
  have w: "unat ?w = length d" using assms(5) by simp
  obtain m rb' where put: "ffado_ringbuffer_write rb d ?w = Inr (m, rb')"
      "unat m = min (unat ?w) (rb_capacity rb - length (rb_contents rb))"
      "rb_contents rb' = rb_contents rb @ take (unat m) d"
    using ringbuffer_put_law [OF assms(2), of ?w d] w by auto
  have m: "unat m = length d" using put(2) w assms(3,6) by simp
  then have "\<not> m < ?w" using w by (simp add: word_less_nat_alt)
  then show ?thesis
    using assms(1,3,4) put m
    by (simp add: preloadFrames_def with_buffer_def Let_def case_prod_unfold)
qed

text \<open>
  C15. A transmit stream is prefilled completely. For a subclass whose silence block has the size
  it was given and that leaves the shared state alone, enabling the stream sizes the buffer for
  one frame more than the prefill and then writes the whole prefill: the transition succeeds, the
  frame counter says \<open>nb_buffers * period_size + extra\<close> frames, and the ring buffer holds exactly
  the silence that the subclass provided for that many frames.
\<close>
theorem transmit_prefill:
  assumes "m_state s = ePS_DryRunning" "m_next_state s = ePS_WaitingForStreamEnable"
    and "m_processor_type s = ePT_Transmit" "prefill_ok env s"
    and "\<forall>d n b. \<exists>ok d'. transmitSilenceBlock env d n 0 b = Inr (ok, d', b) \<and> length d' = length d"
  shows "\<exists>s' rb silence ok b. updateState env s = Inr (True, s')
    \<and> m_state s' = ePS_WaitingForStreamEnable
    \<and> unat (getBufferFill (buf s')) = prefill_frames env s
    \<and> m_event_buffer (buf s') = Some rb \<and> rb_contents rb = silence
    \<and> transmitSilenceBlock env (replicate (prefill_frames env s * frame_bytes s) 0)
        (getNbBuffers env * getPeriodSize env + m_extra_buffer_frames (m_base s)) 0 b = Inr (ok, silence, b)"
proof -
  let ?n = "getNbBuffers env * getPeriodSize env + m_extra_buffer_frames (m_base s)"
  let ?N = "prefill_frames env s"
  let ?R = "ringbuffer_size_frames env s"
  let ?e = "m_events_per_frame (buf s)" and ?z = "m_event_size (buf s)"
  note sz = prefill_sizes [OF assms(4)]
  have pos: "0 < unat ?e" "0 < unat ?z" and le: "(?N + 1) * (unat ?e * unat ?z) \<le> 2 ^ 30"
    using assms(4) by (simp_all add: prefill_ok_def frame_bytes_def)
  have R: "unat (?e * ?R * ?z) = unat ?e * (?N + 1) * unat ?z"
  proof -
    have "unat ?e * (?N + 1) * unat ?z = (?N + 1) * (unat ?e * unat ?z)"
      by (simp only: mult.commute mult.left_commute mult.assoc)
    then show ?thesis using le unat_mult3 [OF pos(2), of ?e ?R, unfolded sz(2)] by metis
  qed
  let ?sz = "ucast (?e * ?R * ?z) :: u64"
  have usz: "unat ?sz = (?N + 1) * frame_bytes s"
    unfolding unat_ucast_32_64 R frame_bytes_def by (simp only: mult.commute mult.left_commute mult.assoc)
  then have "unat ?sz \<le> 2 ^ 30" using le by (simp add: frame_bytes_def)
  then obtain rb k where rb: "ffado_ringbuffer_create (heap_bytes env) ?sz = Inr rb" "rb_inv rb"
      "rb_contents rb = []" "unat ?sz \<le> 2 ^ k" "rb_capacity rb = 2 ^ k - 1"
    by (rule ringbuffer_created)
  define b1 where "b1 = reset_rate (resetFrameCounter ((buf s)\<lparr>m_event_buffer := Some rb\<rparr>))\<lparr>m_buffer_size := ?R\<rparr>"
  have b1: "m_event_buffer b1 = Some rb" "m_framecounter b1 = 0" "m_event_size b1 = ?z" "m_events_per_frame b1 = ?e"
    by (simp_all add: b1_def reset_rate_def resetFrameCounter_def)
  have nz: "?R \<noteq> 0" "?e \<noteq> 0" "?z \<noteq> 0" using sz(2) pos by auto
  have resize: "resizeBuffer (heap_bytes env) ?R (buf s) = Inr (True, b1)"
    using nz rb(1) by (simp add: resizeBuffer_def b1_def Let_def)
  have Nez: "?N * unat ?z * unat ?e \<le> 2 ^ 30" "?N * (unat ?e * unat ?z) \<le> 2 ^ 30"
    using le by (simp_all add: algebra_simps)
  have zeros: "unat ?z * unat (?n * ?e) = ?N * frame_bytes s"
  proof -
    have "?N * unat ?e \<le> ?N * unat ?e * unat ?z" by (rule le_mult_pos [OF pos(2)])
    then have "?N * unat ?e \<le> 2 ^ 30"
      using Nez(2) unfolding mult.assoc [of ?N] by (rule order.trans)
    then have "unat (?n * ?e) = ?N * unat ?e"
      by (intro trans [OF unat_mult_small]) (simp_all only: sz(1), simp)
    then show ?thesis by (simp add: frame_bytes_def mult.commute mult.left_commute)
  qed
  let ?s1 = "set_buffer b1 s"
  obtain ok silence where t: "transmitSilenceBlock env (replicate (?N * frame_bytes s) 0) ?n 0 (m_base ?s1)
      = Inr (ok, silence, m_base ?s1)" "length silence = ?N * frame_bytes s"
    using assms(5) by (metis length_replicate)
  have "unat (?n * ?z * ?e) = length silence"
    using unat_mult3 [of ?e ?n ?z] pos(1) Nez(1)
    by (simp only: sz(1) t(2) frame_bytes_def) (simp add: mult.commute mult.left_commute)
  moreover have "?N * frame_bytes s \<le> rb_capacity rb"
  proof -
    have "?N * frame_bytes s + frame_bytes s \<le> 2 ^ k" using rb(4) usz by simp
    moreover have "0 < frame_bytes s" using assms(4) by (simp add: prefill_ok_def)
    ultimately show ?thesis unfolding rb(5) by linarith
  qed
  ultimately obtain b2 rb2 where b2: "preloadFrames ?n silence True b1 = Inr (True, b2)"
      "m_event_buffer b2 = Some rb2" "rb_contents rb2 = silence" "m_framecounter b2 = ?n"
    using preload_fits [of b1 rb ?n silence] b1 rb(2,3) t(2) by auto
  have fill: "transferSilence env ?n ?s1 = Inr (True, set_buffer b2 ?s1)"
    using assms(4) t(1) b2(1) zeros
    by (simp add: transferSilence_def Let_def prefill_ok_def base_setters on_buffer_def upd_base_def)
  have "updateState env s = Inr (True, (set_buffer b2 ?s1)\<lparr>m_state := ePS_WaitingForStreamEnable\<rparr>)"
    using assms(1-3) resize fill
    by (simp add: updateState_def doWaitForStreamEnable_def on_buffer_def Let_def base_setters)
  then show ?thesis
    using b2 t(1) sz(1) by (auto simp: base_setters getBufferFill_def)
qed

definition sample_transmit :: "unit sp" where
  "sample_transmit =
    set_buffer (TimestampedBuffer\<lparr>m_events_per_frame := 2, m_event_size := 4\<rparr>)
      (StreamProcessor ePT_Transmit no_ports ())\<lparr>m_state := ePS_DryRunning, m_next_state := ePS_WaitingForStreamEnable\<rparr>"

theorem transmit_prefill_witness:
  "\<exists>s' rb. updateState sample_env sample_transmit = Inr (True, s')
    \<and> unat (getBufferFill (buf s')) = 16 \<and> m_event_buffer (buf s') = Some rb
    \<and> rb_contents rb = replicate 128 0"
proof -
  have f: "m_state sample_transmit = ePS_DryRunning" "m_next_state sample_transmit = ePS_WaitingForStreamEnable"
      "m_processor_type sample_transmit = ePT_Transmit"
    by (simp_all add: sample_transmit_def StreamProcessor_def base_setters)
  have n: "prefill_frames sample_env sample_transmit = 16" "frame_bytes sample_transmit = 8"
    by (simp_all add: prefill_frames_def frame_bytes_def sample_transmit_def StreamProcessor_def
        base_setters sample_env_def)
  then have ok: "prefill_ok sample_env sample_transmit"
    by (simp add: prefill_ok_def) (simp add: sample_env_def sample_transmit_def StreamProcessor_def base_setters)
  have t: "transmitSilenceBlock sample_env d m j b = Inr (True, d, b)" for d m j b
    by (simp add: sample_env_def)
  have "\<forall>d n b. \<exists>ok d'. transmitSilenceBlock sample_env d n 0 b = Inr (ok, d', b) \<and> length d' = length d"
    by (auto simp: t)
  from transmit_prefill [OF f ok this] show ?thesis using n by (auto simp: t)
qed

section \<open>Silence for the ports\<close>

definition silenced :: "u32 \<Rightarrow> port \<Rightarrow> port" where
  "silenced n p = p\<lparr>m_buffer := map_option (\<lambda>mem. replicate (unat n) 0 @ drop (unat n) mem) (m_buffer p)\<rparr>"

definition can_silence :: "u32 \<Rightarrow> port \<Rightarrow> bool" where
  "can_silence n p \<longleftrightarrow> n \<le> m_buffersize p \<and> (\<exists>mem. m_buffer p = Some mem \<and> unat n \<le> length mem)"

lemma provideSilenceToPort_ok: "can_silence n p \<Longrightarrow> provideSilenceToPort 0 n p = Inr (silenced n p)"
  by (auto simp: can_silence_def provideSilenceToPort_def silenced_def Port_getBufferAddress_def)

lemma silence_loop_ok:
  assumes "distinct as" "\<forall>a\<in>set as. \<not> m_disabled (port_at pm a) \<longrightarrow> can_silence n (port_at pm a)"
  shows "silence_loop n 0 as pm = Inr (pm\<lparr>port_at :=
    \<lambda>a. if a \<in> set as \<and> \<not> m_disabled (port_at pm a) then silenced n (port_at pm a) else port_at pm a\<rparr>)"
  using assms
proof (induction as arbitrary: pm)
  case Nil
  then show ?case by simp
next
  case (Cons a as)
  show ?case
  proof (cases "m_disabled (port_at pm a)")
    case True
    then show ?thesis
      using Cons by (auto intro!: arg_cong [of _ _ "\<lambda>g. pm\<lparr>port_at := g\<rparr>"] simp: fun_eq_iff)
  next
    case False
    then have step: "provideSilenceToPort 0 n (port_at pm a) = Inr (silenced n (port_at pm a))"
      using Cons.prems(2) by (simp add: provideSilenceToPort_ok)
    have "silence_loop n 0 as (set_port a (silenced n (port_at pm a)) pm)
        = Inr (set_port a (silenced n (port_at pm a)) pm\<lparr>port_at :=
            \<lambda>b. if b \<in> set as \<and> \<not> m_disabled (port_at (set_port a (silenced n (port_at pm a)) pm) b)
                then silenced n (port_at (set_port a (silenced n (port_at pm a)) pm) b)
                else port_at (set_port a (silenced n (port_at pm a)) pm) b\<rparr>)"
      by (rule Cons.IH) (use Cons.prems in auto)
    then show ?thesis
      using False step Cons.prems(1)
      by (auto simp: set_port_def fun_eq_iff intro!: arg_cong [of _ _ "\<lambda>g. pm\<lparr>port_at := g\<rparr>"])
  qed
qed

text \<open>
  C40. A client that reads from a dry-running receive stream gets silence. When the buffers of the
  enabled ports are large enough, \<open>getFrames\<close> returns true, the first \<open>n\<close> quadlets of every enabled
  port are zero and the rest of them as before, the disabled ports are untouched, and nothing else
  of the stream changes.
\<close>
theorem dry_running_silence:
  assumes "m_processor_type s = ePT_Receive" "m_state s = ePS_DryRunning"
    and "pm = sp_ports (m_base s)" "distinct (m_Ports pm)"
    and "\<forall>a\<in>set (m_Ports pm). \<not> m_disabled (port_at pm a) \<longrightarrow> can_silence n (port_at pm a)"
  shows "getFrames env n s = Some (Inr (True, set_ports (pm\<lparr>port_at := \<lambda>a.
      if a \<in> set (m_Ports pm) \<and> \<not> m_disabled (port_at pm a)
      then silenced n (port_at pm a) else port_at pm a\<rparr>) s))"
  using assms silence_loop_ok [OF assms(4,5)]
  by (simp add: getFrames_def getFramesDry_def provideSilenceBlock_def)

text \<open>A stream with one enabled port and a buffer of four quadlets.\<close>

definition one_port :: portmanager where
  "one_port = no_ports\<lparr>m_Ports := [1], port_at := \<lambda>_. (Port_new ''in'' E_Audio E_Capture)
     \<lparr>m_disabled := False, m_buffersize := 4, m_buffer := Some [1, 2, 3, 4]\<rparr>\<rparr>"

theorem dry_running_silence_witness:
  "\<exists>s'. getFrames sample_env 3 ((StreamProcessor ePT_Receive one_port ())\<lparr>m_state := ePS_DryRunning\<rparr>)
      = Some (Inr (True, s')) \<and> m_buffer (port_at (sp_ports (m_base s')) 1) = Some [0, 0, 0, 4]"
proof -
  let ?s = "(StreamProcessor ePT_Receive one_port ())\<lparr>m_state := ePS_DryRunning\<rparr>"
  have f: "m_processor_type ?s = ePT_Receive" "m_state ?s = ePS_DryRunning" "one_port = sp_ports (m_base ?s)"
    by (simp_all add: StreamProcessor_def)
  have p: "distinct (m_Ports one_port)"
      "\<forall>a\<in>set (m_Ports one_port). \<not> m_disabled (port_at one_port a) \<longrightarrow> can_silence 3 (port_at one_port a)"
    by (simp_all add: one_port_def can_silence_def)
  have "m_buffer (silenced 3 (port_at one_port 1)) = Some [0, 0, 0, 4]"
  proof -
    have "unat (3 :: u32) = Suc (Suc (Suc 0))" by simp
    then show ?thesis unfolding silenced_def one_port_def by (simp del: unsigned_numeral add: numeral_3_eq_3)
  qed
  with dry_running_silence [OF f p, of sample_env] show ?thesis
    by (auto simp: base_setters) (auto simp: one_port_def)
qed

end
