(* ===== verification/CmdSerialize.thy ===== *)
theory CmdSerialize
  imports FFADO_Prelude
begin

text \<open>
  The byte buffers through which AV/C commands are written and parsed: \<open>Util::Cmd::BufferSerialize\<close>
  and \<open>Util::Cmd::BufferDeserialize\<close> of \<open>libutil/cmd_serialize.cpp\<close>.

  Both classes keep a pointer to a buffer, a current position and the length they were given; they
  share the record \<open>buffer_cursor\<close>, with the memory object behind the pointer as a list of bytes
  and the position as its 64 bit distance from the start. An access outside the memory object is
  the fault \<open>OutOfBounds\<close>; a refused access is the value \<open>False\<close> of the method.

  The second half is a small calculus for code built from these methods. \<open>sends f bs\<close> says that
  \<open>f\<close> appends \<open>bs\<close> to every buffer that has the room, \<open>gets f x bs\<close> that \<open>f\<close> parses \<open>bs\<close> to \<open>x\<close> and
  consumes exactly these bytes, and \<open>parses F f P\<close> that on every input \<open>f\<close> returns a value with \<open>P\<close>
  or ends with a fault in \<open>F\<close>. The interface \<open>bus_data\<close> states what a class derived from \<open>IBusData\<close> promises.
\<close>

section \<open>Buffers\<close>

record buffer_cursor =
  m_buffer :: "byte list"
  m_curPos :: u64
  m_length :: u64

definition new_cursor :: "byte list \<Rightarrow> u64 \<Rightarrow> buffer_cursor" where
  "new_cursor buffer len = \<lparr>m_buffer = buffer, m_curPos = 0, m_length = len\<rparr>"

definition isCurPosValid :: "buffer_cursor \<Rightarrow> bool" where
  "isCurPosValid s = (if m_length s \<le> m_curPos s then False else True)"

definition store_at :: "buffer_cursor \<Rightarrow> byte list \<Rightarrow> buffer_cursor result" where
  "store_at s bs =
     bind_result (mem_write (m_buffer s) (unat (m_curPos s)) bs) (\<lambda>m. Inr (s\<lparr>m_buffer := m\<rparr>))"

definition load_at :: "buffer_cursor \<Rightarrow> nat \<Rightarrow> byte list result" where
  "load_at d n = mem_read (m_buffer d) (unat (m_curPos d)) n"

definition move :: "u64 \<Rightarrow> buffer_cursor \<Rightarrow> buffer_cursor" where
  "move n s = s\<lparr>m_curPos := m_curPos s + n\<rparr>"

definition write_byte :: "byte \<Rightarrow> buffer_cursor \<Rightarrow> (bool \<times> buffer_cursor) result" where
  "write_byte v s =
     (if isCurPosValid s then bind_result (store_at s [v]) (\<lambda>s. Inr (True, move 1 s))
      else Inr (False, s))"

definition write_u16 :: "u16 \<Rightarrow> buffer_cursor \<Rightarrow> (bool \<times> buffer_cursor) result" where
  "write_u16 v s =
     (let hi = ucast (drop_bit 8 (v AND 0xFF00)) :: byte; lo = ucast (v AND 0xFF) :: byte in
      if isCurPosValid s then
        bind_result (store_at s [hi]) (\<lambda>s.
          (let s = move 1 s in
           if isCurPosValid s then bind_result (store_at s [lo]) (\<lambda>s. Inr (True, move 1 s))
           else Inr (False, s)))
      else Inr (False, s))"

text \<open>A quadlet is stored in the byte order of the host, which is little endian.\<close>

definition quadlet_bytes :: "u32 \<Rightarrow> byte list" where
  "quadlet_bytes v = [ucast v, ucast (drop_bit 8 v), ucast (drop_bit 16 v), ucast (drop_bit 24 v)]"

definition bytes_quadlet :: "byte list \<Rightarrow> u32" where
  "bytes_quadlet bs = ucast (bs ! 0) OR push_bit 8 (ucast (bs ! 1))
     OR push_bit 16 (ucast (bs ! 2)) OR push_bit 24 (ucast (bs ! 3))"

definition write_quadlet :: "u32 \<Rightarrow> buffer_cursor \<Rightarrow> (bool \<times> buffer_cursor) result" where
  "write_quadlet v s =
     (if isCurPosValid s then
        bind_result (store_at s (quadlet_bytes v)) (\<lambda>s. Inr (True, move 4 s))
      else Inr (False, s))"

definition write_block :: "byte list \<Rightarrow> buffer_cursor \<Rightarrow> (bool \<times> buffer_cursor) result" where
  "write_block v s =
     (let len = word_of_nat (length v) in
      if isCurPosValid s then
        (let s = move len s in
         if isCurPosValid s then
           (let s = move (- len) s in
            bind_result (store_at s v) (\<lambda>s. Inr (True, move len s)))
         else Inr (False, s))
      else Inr (False, s))"

text \<open>
  The reading methods take the address of the variable to fill: here its old value, which is what
  the variable keeps when the method refuses.
\<close>

definition read_byte :: "byte \<Rightarrow> buffer_cursor \<Rightarrow> ((bool \<times> byte) \<times> buffer_cursor) result" where
  "read_byte old d =
     (if isCurPosValid d then bind_result (load_at d 1) (\<lambda>bs. Inr ((True, bs ! 0), move 1 d))
      else Inr ((False, old), d))"

definition read_u16 :: "u16 \<Rightarrow> buffer_cursor \<Rightarrow> ((bool \<times> u16) \<times> buffer_cursor) result" where
  "read_u16 old d =
     (if isCurPosValid d then
        bind_result (load_at d 1) (\<lambda>hi.
          (let d = move 1 d in
           if isCurPosValid d then
             bind_result (load_at d 1) (\<lambda>lo.
               Inr ((True, push_bit 8 (ucast (hi ! 0)) OR ucast (lo ! 0)), move 1 d))
           else Inr ((False, old), d)))
      else Inr ((False, old), d))"

definition read_quadlet :: "u32 \<Rightarrow> buffer_cursor \<Rightarrow> ((bool \<times> u32) \<times> buffer_cursor) result" where
  "read_quadlet old d =
     (if isCurPosValid d then
        bind_result (load_at d 4) (\<lambda>bs. Inr ((True, bytes_quadlet bs), move 4 d))
      else Inr ((False, old), d))"

text \<open>
  \<open>read( char**, size_t )\<close> hands out a pointer into the buffer: the position it points to, or
  \<open>None\<close> while the caller's pointer has not been assigned.
\<close>

definition read_pointer ::
    "u64 option \<Rightarrow> u64 \<Rightarrow> buffer_cursor \<Rightarrow> ((bool \<times> u64 option) \<times> buffer_cursor) result" where
  "read_pointer old len d =
     (if isCurPosValid d then
        (let p = Some (m_curPos d); d = move (len - 1) d in
         if \<not> isCurPosValid d then Inr ((False, p), d) else Inr ((True, p), move 1 d))
      else Inr ((False, old), d))"

definition peek_byte :: "byte \<Rightarrow> buffer_cursor \<Rightarrow> ((bool \<times> byte) \<times> buffer_cursor) result" where
  "peek_byte old d =
     (if isCurPosValid d then bind_result (load_at d 1) (\<lambda>bs. Inr ((True, bs ! 0), d))
      else Inr ((False, old), d))"

definition peek_u16 ::
    "u16 \<Rightarrow> u64 \<Rightarrow> buffer_cursor \<Rightarrow> ((bool \<times> u16) \<times> buffer_cursor) result" where
  "peek_u16 old offset d =
     (let d = move offset d in
      if isCurPosValid d then
        bind_result (load_at d 1) (\<lambda>hi.
          (let d = move 1 d in
           if isCurPosValid d then
             bind_result (load_at d 1) (\<lambda>lo.
               Inr ((True, push_bit 8 (ucast (hi ! 0)) OR ucast (lo ! 0)),
                    move (- offset) (move (- 1) d)))
           else Inr ((False, old), move (- offset) (move (- 1) d))))
      else Inr ((False, old), move (- offset) d))"

definition skip_bytes :: "u64 \<Rightarrow> buffer_cursor \<Rightarrow> bool \<times> buffer_cursor" where
  "skip_bytes len d = (True, move len d)"

text \<open>\<open>getNrOfProducesBytes\<close> and \<open>getNrOfConsumedBytes\<close> return the distance as an \<open>int\<close>.\<close>

definition nrOfBytes :: "buffer_cursor \<Rightarrow> u32" where
  "nrOfBytes s = ucast (m_curPos s)"

section \<open>Sequences of calls\<close>

text \<open>
  The ways in which the commands put these calls together: \<open>after\<close> runs one call after the other
  and drops the first result, \<open>also_ok\<close> is \<open>status &= ...\<close>, and \<open>writes\<close> and \<open>reads\<close> are runs of
  single byte calls whose results are collected with \<open>&=\<close>. On the reading side the value that was
  parsed is passed on with the result of the call.
\<close>

type_synonym writer = "buffer_cursor \<Rightarrow> (bool \<times> buffer_cursor) result"
type_synonym 'a reader = "buffer_cursor \<Rightarrow> ((bool \<times> 'a) \<times> buffer_cursor) result"

definition done_with :: "bool \<Rightarrow> writer" where
  "done_with b s = Inr (b, s)"

definition after :: "writer \<Rightarrow> writer \<Rightarrow> writer" where
  "after f g s = bind_result (f s) (\<lambda>(b, s). g s)"

definition also_ok :: "writer \<Rightarrow> writer \<Rightarrow> writer" where
  "also_ok f g s =
     bind_result (f s) (\<lambda>(b, s). bind_result (g s) (\<lambda>(c, s). Inr (b \<and> c, s)))"

fun writes :: "byte list \<Rightarrow> writer" where
  "writes [] = done_with True"
| "writes (v # vs) = also_ok (write_byte v) (writes vs)"

definition give :: "bool \<Rightarrow> 'a \<Rightarrow> 'a reader" where
  "give b x d = Inr ((b, x), d)"

definition get :: "'a reader \<Rightarrow> (bool \<Rightarrow> 'a \<Rightarrow> 'b reader) \<Rightarrow> 'b reader" where
  "get f g d = bind_result (f d) (\<lambda>((b, x), d). g b x d)"

fun reads :: "byte list \<Rightarrow> byte list reader" where
  "reads [] = give True []"
| "reads (v # vs) = get (read_byte v) (\<lambda>b x. get (reads vs) (\<lambda>c xs. give (b \<and> c) (x # xs)))"

section \<open>Well-formed buffers\<close>

text \<open>
  The length is not larger than the memory object, and no object has half the address space.
\<close>

definition cursor_ok :: "buffer_cursor \<Rightarrow> bool" where
  "cursor_ok s \<longleftrightarrow> unat (m_length s) \<le> length (m_buffer s) \<and> length (m_buffer s) < 2 ^ 63"

definition fits :: "buffer_cursor \<Rightarrow> nat \<Rightarrow> bool" where
  "fits s n \<longleftrightarrow> cursor_ok s \<and> unat (m_curPos s) + n \<le> unat (m_length s)"

definition put :: "buffer_cursor \<Rightarrow> byte list \<Rightarrow> buffer_cursor" where
  "put s bs = s\<lparr>m_buffer := take (unat (m_curPos s)) (m_buffer s) @ bs
                   @ drop (unat (m_curPos s) + length bs) (m_buffer s),
                m_curPos := m_curPos s + word_of_nat (length bs)\<rparr>"

definition ahead :: "buffer_cursor \<Rightarrow> byte list" where
  "ahead d = take (unat (m_length d) - unat (m_curPos d)) (drop (unat (m_curPos d)) (m_buffer d))"

definition advance :: "nat \<Rightarrow> buffer_cursor \<Rightarrow> buffer_cursor" where
  "advance n d = d\<lparr>m_curPos := m_curPos d + word_of_nat n\<rparr>"

lemma isCurPosValid_iff: "isCurPosValid s \<longleftrightarrow> unat (m_curPos s) < unat (m_length s)"
  by (auto simp: isCurPosValid_def word_le_nat_alt)

lemma cursor_ok_bound:
  assumes "cursor_ok s"
  shows "unat (m_length s) < 9223372036854775808" "unat (m_length s) \<le> length (m_buffer s)"
  using assms by (simp_all add: cursor_ok_def)

lemma unat_pos_plus:
  assumes "unat (p :: u64) < 9223372036854775808" "n < 9223372036854775808"
  shows "unat (p + word_of_nat n) = unat p + n"
  using assms unat_plus_small [of p "word_of_nat n"] by simp

lemma unat_pos_Suc:
  assumes "unat (p :: u64) < 9223372036854775808"
  shows "unat (p + 1) = Suc (unat p)"
  using unat_pos_plus [of p 1] assms by simp

lemma move_simps [simp]:
  "m_buffer (move n s) = m_buffer s" "m_length (move n s) = m_length s"
  "m_curPos (move n s) = m_curPos s + n"
  by (simp_all add: move_def)

lemma put_simps [simp]:
  "m_length (put s bs) = m_length s" "m_curPos (put s bs) = m_curPos s + word_of_nat (length bs)"
  by (simp_all add: put_def)

lemma advance_simps [simp]:
  "m_buffer (advance n d) = m_buffer d" "m_length (advance n d) = m_length d"
  "m_curPos (advance n d) = m_curPos d + word_of_nat n" "cursor_ok (advance n d) = cursor_ok d"
  by (simp_all add: advance_def cursor_ok_def)

lemma advance_0 [simp]: "advance 0 d = d"
  by (simp add: advance_def)

lemma advance_advance [simp]: "advance n (advance m d) = advance (m + n) d"
  by (simp add: advance_def ac_simps)

lemma cursor_ok_move [simp]: "cursor_ok (move n s) = cursor_ok s"
  by (simp add: cursor_ok_def)

lemma put_Nil: "fits s 0 \<Longrightarrow> put s [] = s"
  by (simp add: put_def)

lemma fits_pos:
  assumes "fits s n"
  shows "unat (m_curPos s + word_of_nat n) = unat (m_curPos s) + n"
    and "unat (m_curPos s) + n \<le> length (m_buffer s)"
  using assms cursor_ok_bound [of s] unat_pos_plus [of "m_curPos s" n] by (auto simp: fits_def)

lemma fits_mono: "fits s n \<Longrightarrow> m \<le> n \<Longrightarrow> fits s m"
  by (simp add: fits_def)

lemma length_put_buffer: "fits s (length bs) \<Longrightarrow> length (m_buffer (put s bs)) = length (m_buffer s)"
  using fits_pos [of s "length bs"] by (simp add: put_def)

lemma fits_put:
  assumes "fits s (length bs + n)"
  shows "fits (put s bs) n"
proof -
  have f: "fits s (length bs)" using assms by (rule fits_mono) simp
  show ?thesis
    using assms length_put_buffer [OF f] fits_pos(1) [OF f] by (simp add: fits_def cursor_ok_def)
qed

lemma put_put:
  assumes "fits s (length as + length bs)"
  shows "put (put s as) bs = put s (as @ bs)"
proof -
  have f: "fits s (length as)" using assms by (rule fits_mono) simp
  show ?thesis
    using fits_pos [OF f] fits_pos(2) [OF assms]
    by (simp add: put_def add.commute add.left_commute)
qed

section \<open>What the single calls do\<close>

lemma write_byte_fits:
  assumes "fits s 1"
  shows "write_byte v s = Inr (True, put s [v])"
proof -
  have "isCurPosValid s" using assms by (simp add: isCurPosValid_iff fits_def)
  moreover have "unat (m_curPos s) + length [v] \<le> length (m_buffer s)"
    using fits_pos(2) [OF assms] by simp
  ultimately show ?thesis
    by (simp add: write_byte_def store_at_def mem_write_Inr put_def move_def)
qed

lemma write_byte_full:
  assumes "\<not> unat (m_curPos s) < unat (m_length s)"
  shows "write_byte v s = Inr (False, s)"
  using assms by (simp add: write_byte_def isCurPosValid_iff)

lemma write_u16_bytes:
  "write_u16 v s = bind_result (write_byte (ucast (drop_bit 8 v)) s)
     (\<lambda>(b, s). if b then write_byte (ucast v) s else Inr (False, s))"
proof -
  have masks: "(0xFF00 :: u16) = push_bit 8 (mask 8)" "(0xFF :: u16) = mask 8"
    by (simp_all add: mask_eq_exp_minus_1 push_bit_eq_mult)
  have hl: "ucast (drop_bit 8 (v AND 0xFF00)) = (ucast (drop_bit 8 v) :: byte)"
    "ucast (v AND 0xFF) = (ucast v :: byte)"
    unfolding masks by (rule bit_word_eqI; auto simp: bit_simps)+
  show ?thesis
    unfolding write_u16_def Let_def hl write_byte_def
    by (cases "store_at s [ucast (drop_bit 8 v)]") auto
qed

lemma write_u16_fits:
  assumes "fits s 2"
  shows "write_u16 v s = Inr (True, put s [ucast (drop_bit 8 v), ucast v])"
proof -
  have f1: "fits s 1" using assms by (rule fits_mono) simp
  have f: "fits (put s [a]) 1" for a using fits_put [of s "[a]" 1] assms by (simp add: numeral_2_eq_2)
  have "write_u16 v s = Inr (True, put (put s [ucast (drop_bit 8 v)]) [ucast v])"
    by (simp only: write_u16_bytes write_byte_fits [OF f1] write_byte_fits [OF f] bind_result.simps prod.case if_True)
  also have "\<dots> = Inr (True, put s [ucast (drop_bit 8 v), ucast v])"
    using put_put [of s "[ucast (drop_bit 8 v)]" "[ucast v]"] assms by (simp add: numeral_2_eq_2)
  finally show ?thesis .
qed

lemma load_at_byte:
  assumes "cursor_ok d" "unat (m_curPos d) < unat (m_length d)"
  shows "load_at d 1 = Inr [m_buffer d ! unat (m_curPos d)]"
  using assms cursor_ok_bound [OF assms(1)]
  by (simp add: load_at_def mem_read_def take_Suc_conv_app_nth hd_drop_conv_nth take_Suc)

lemma ahead_Cons:
  assumes "cursor_ok d" "ahead d = v # vs"
  shows "unat (m_curPos d) < unat (m_length d)" "m_buffer d ! unat (m_curPos d) = v"
    "ahead (advance 1 d) = vs"
proof -
  show lt: "unat (m_curPos d) < unat (m_length d)"
    using assms(2) by (cases "unat (m_curPos d) < unat (m_length d)") (auto simp: ahead_def)
  have b: "unat (m_curPos d) < length (m_buffer d)" using lt cursor_ok_bound [OF assms(1)] by linarith
  have "ahead d = m_buffer d ! unat (m_curPos d) #
      take (unat (m_length d) - Suc (unat (m_curPos d))) (drop (Suc (unat (m_curPos d))) (m_buffer d))"
    using lt b by (simp add: ahead_def Cons_nth_drop_Suc [symmetric] take_Cons')
  moreover have "unat (m_curPos d + 1) = Suc (unat (m_curPos d))"
    using unat_pos_Suc [of "m_curPos d"] lt cursor_ok_bound(1) [OF assms(1)] by simp
  ultimately show "m_buffer d ! unat (m_curPos d) = v" "ahead (advance 1 d) = vs"
    using assms(2) by (simp_all add: ahead_def)
qed

lemma ahead_advance:
  assumes "cursor_ok d" "ahead d = bs @ rest"
  shows "ahead (advance (length bs) d) = rest"
  using assms
proof (induction bs arbitrary: d)
  case (Cons b bs)
  have "ahead (advance 1 d) = bs @ rest" using Cons.prems by (intro ahead_Cons) simp_all
  then show ?case using Cons.IH [of "advance 1 d"] Cons.prems by simp
qed simp

lemma move_advance: "move (word_of_nat n) d = advance n d"
  by (simp add: move_def advance_def)

lemma move_1_advance: "move 1 d = advance 1 d"
  using move_advance [of 1] by simp

lemma read_byte_ahead:
  assumes "cursor_ok d" "ahead d = v # vs"
  shows "read_byte old d = Inr ((True, v), advance 1 d)"
  using ahead_Cons [OF assms] assms(1)
  by (simp add: read_byte_def isCurPosValid_iff load_at_byte [unfolded One_nat_def] move_1_advance)

lemma peek_byte_ahead:
  assumes "cursor_ok d" "ahead d = v # vs"
  shows "peek_byte old d = Inr ((True, v), d)"
  using ahead_Cons [OF assms] assms(1)
  by (simp add: peek_byte_def isCurPosValid_iff load_at_byte [unfolded One_nat_def])

section \<open>Sending and parsing\<close>

definition sends :: "writer \<Rightarrow> byte list \<Rightarrow> bool" where
  "sends f bs \<longleftrightarrow> (\<forall>s. fits s (length bs) \<longrightarrow> f s = Inr (True, put s bs))"

definition gets :: "'a reader \<Rightarrow> 'a \<Rightarrow> byte list \<Rightarrow> bool" where
  "gets f x bs \<longleftrightarrow> (\<forall>d rest. cursor_ok d \<longrightarrow> ahead d = bs @ rest \<longrightarrow>
     f d = Inr ((True, x), advance (length bs) d))"

text \<open>
  What a parser does on every well-formed buffer: it returns a value that satisfies \<open>P\<close> and has not
  touched the bytes, or it ends with one of the faults in \<open>F\<close>.
\<close>

definition parses :: "fault set \<Rightarrow> 'a reader \<Rightarrow> ('a \<Rightarrow> bool) \<Rightarrow> bool" where
  "parses F f P \<longleftrightarrow> (\<forall>d. cursor_ok d \<longrightarrow> (case f d of Inl e \<Rightarrow> e \<in> F
     | Inr ((b, x), d') \<Rightarrow> cursor_ok d' \<and> m_buffer d' = m_buffer d \<and> P x))"

named_theorems sending \<open>rules for the bytes a sequence of calls appends\<close>
named_theorems getting \<open>rules for the value a sequence of calls parses\<close>
named_theorems safe_parsing \<open>rules for parsers that return on every input\<close>

lemma sends_done [sending]: "sends (done_with True) []"
  by (simp add: sends_def done_with_def put_Nil)

lemma sends_byte [sending]: "sends (write_byte v) [v]"
  using write_byte_fits by (auto simp: sends_def)

lemma sends_u16 [sending]: "sends (write_u16 v) [ucast (drop_bit 8 v), ucast v]"
  using write_u16_fits by (auto simp: sends_def numeral_2_eq_2)

lemma sends_after [sending]:
  assumes "sends f as" "sends g bs"
  shows "sends (after f g) (as @ bs)"
proof -
  have "after f g s = Inr (True, put s (as @ bs))" if "fits s (length (as @ bs))" for s
  proof -
    have f: "fits s (length as + length bs)" "fits s (length as)"
      using that by (auto intro: fits_mono)
    have "f s = Inr (True, put s as)" using assms(1) f(2) by (simp add: sends_def)
    moreover have "g (put s as) = Inr (True, put (put s as) bs)"
      using assms(2) fits_put [OF f(1)] by (simp add: sends_def)
    ultimately show ?thesis using put_put [OF f(1)] by (simp add: after_def)
  qed
  then show ?thesis by (simp add: sends_def)
qed

lemma sends_also_ok [sending]:
  assumes "sends f as" "sends g bs"
  shows "sends (also_ok f g) (as @ bs)"
proof -
  have "also_ok f g s = Inr (True, put s (as @ bs))" if "fits s (length (as @ bs))" for s
  proof -
    have f: "fits s (length as + length bs)" "fits s (length as)"
      using that by (auto intro: fits_mono)
    have "f s = Inr (True, put s as)" using assms(1) f(2) by (simp add: sends_def)
    moreover have "g (put s as) = Inr (True, put (put s as) bs)"
      using assms(2) fits_put [OF f(1)] by (simp add: sends_def)
    ultimately show ?thesis using put_put [OF f(1)] by (simp add: also_ok_def)
  qed
  then show ?thesis by (simp add: sends_def)
qed

lemma sends_writes [sending]: "sends (writes bs) bs"
proof (induction bs)
  case (Cons b bs)
  then show ?case using sends_also_ok [OF sends_byte, of _ bs b] by simp
qed (simp add: sends_done)

lemma sends_then_true: "sends f bs \<Longrightarrow> sends (after f (done_with True)) bs"
  using sends_after [OF _ sends_done, of f bs] by simp

lemma sends_writes_after: "sends g bs \<Longrightarrow> sends (after (writes as) g) (as @ bs)"
  by (rule sends_after [OF sends_writes])

lemma sends_cong: "sends f as \<Longrightarrow> as = bs \<Longrightarrow> sends f bs"
  by simp

lemma gets_give [getting]: "b \<Longrightarrow> gets (give b x) x []"
  by (simp add: gets_def give_def)

lemma gets_byte [getting]: "gets (read_byte old) v [v]"
  using read_byte_ahead by (auto simp: gets_def)

lemma gets_get [getting]:
  assumes "gets f x as" "gets (g True x) y bs"
  shows "gets (get f g) y (as @ bs)"
proof -
  have "get f g d = Inr ((True, y), advance (length (as @ bs)) d)"
    if d: "cursor_ok d" "ahead d = (as @ bs) @ rest" for d rest
  proof -
    have "f d = Inr ((True, x), advance (length as) d)"
      using assms(1) d by (simp add: gets_def)
    moreover have "ahead (advance (length as) d) = bs @ rest"
      using ahead_advance [of d as "bs @ rest"] d by simp
    then have "g True x (advance (length as) d) = Inr ((True, y), advance (length as + length bs) d)"
      using assms(2) d(1) by (simp add: gets_def)
    ultimately show ?thesis by (simp add: get_def)
  qed
  then show ?thesis by (simp add: gets_def)
qed

lemma gets_peek:
  assumes "gets (g True v) y (v # bs)"
  shows "gets (get (peek_byte old) g) y (v # bs)"
  using assms peek_byte_ahead by (fastforce simp: gets_def get_def)

lemma gets_reads [getting]: "length olds = length bs \<Longrightarrow> gets (reads olds) bs bs"
proof (induction olds bs rule: list_induct2)
  case (Cons old olds b bs)
  have "gets (get (read_byte old) (\<lambda>c x. get (reads olds) (\<lambda>c' xs. give (c \<and> c') (x # xs))))
      (b # bs) ([b] @ bs @ [])"
    by (rule gets_get [OF gets_byte gets_get [OF Cons.IH gets_give]]) simp
  then show ?case by simp
qed (simp add: gets_give)

text \<open>
  Unrolled forms, in which the bytes of a run are read one by one: with the rules for one byte and
  for the end they take a parser apart along the bytes it is given.
\<close>

lemma get_give [simp]: "get (give b x) g = g b x"
  by (simp add: get_def give_def fun_eq_iff)

lemma get_assoc: "get (get f g) h = get f (\<lambda>b x. get (g b x) h)"
  by (auto simp: get_def fun_eq_iff bind_result_assoc case_prod_unfold)

lemma get_reads_simps:
  "get (reads []) g = g True []"
  "get (reads (v # vs)) g = get (read_byte v) (\<lambda>b x. get (reads vs) (\<lambda>c xs. g (b \<and> c) (x # xs)))"
  by (simp_all add: get_assoc)

lemma gets_get_byte: "gets (g True v) y bs \<Longrightarrow> gets (get (read_byte old) g) y (v # bs)"
  using gets_get [OF gets_byte] by simp

lemma gets_end: "b \<Longrightarrow> x = y \<Longrightarrow> gets (give b x) y []"
  by (simp add: gets_give)

lemma gets_get_end: "gets f x as \<Longrightarrow> gets (g True x) y [] \<Longrightarrow> gets (get f g) y as"
  using gets_get [of f x as g y "[]"] by simp

lemma gets_if: "(c \<Longrightarrow> gets f x bs) \<Longrightarrow> (\<not> c \<Longrightarrow> gets g x bs) \<Longrightarrow> gets (if c then f else g) x bs"
  by simp

lemma gets_cong: "gets f x as \<Longrightarrow> as = bs \<Longrightarrow> gets f x bs"
  by simp

lemma parses_give [safe_parsing]: "P x \<Longrightarrow> parses F (give b x) P"
  by (simp add: parses_def give_def)

lemma parses_byte [safe_parsing]: "(\<And>x. P x) \<Longrightarrow> parses F (read_byte old) P"
  by (simp add: parses_def read_byte_def isCurPosValid_iff load_at_byte [unfolded One_nat_def])

lemma parses_u16 [safe_parsing]: "(\<And>x. P x) \<Longrightarrow> parses F (read_u16 old) P"
proof -
  assume P: "\<And>x. P x"
  have "case read_u16 old d of Inl e \<Rightarrow> e \<in> F
      | Inr ((b, x), d') \<Rightarrow> cursor_ok d' \<and> m_buffer d' = m_buffer d \<and> P x" if d: "cursor_ok d" for d
    using P d load_at_byte [OF d] load_at_byte [of "move 1 d"]
    by (auto simp: read_u16_def isCurPosValid_iff Let_def)
  then show ?thesis by (simp add: parses_def)
qed

lemma parses_peek [safe_parsing]: "(\<And>x. P x) \<Longrightarrow> parses F (peek_byte old) P"
  by (simp add: parses_def peek_byte_def isCurPosValid_iff load_at_byte [unfolded One_nat_def])

lemma parsesD: "parses F f P \<Longrightarrow> cursor_ok d \<Longrightarrow> case f d of Inl e \<Rightarrow> e \<in> F
    | Inr ((b, x), d') \<Rightarrow> cursor_ok d' \<and> m_buffer d' = m_buffer d \<and> P x"
  by (simp add: parses_def)

lemma parsesI:
  assumes "\<And>d. cursor_ok d \<Longrightarrow> case f d of Inl e \<Rightarrow> e \<in> F
    | Inr ((b, x), d') \<Rightarrow> cursor_ok d' \<and> m_buffer d' = m_buffer d \<and> P x"
  shows "parses F f P"
  using assms by (simp add: parses_def)

lemma parses_get:
  assumes "parses F f Q" "\<And>b x. Q x \<Longrightarrow> parses F (g b x) P"
  shows "parses F (get f g) P"
proof (rule parsesI)
  fix d assume d: "cursor_ok d"
  show "case get f g d of Inl e \<Rightarrow> e \<in> F
      | Inr ((b, x), d') \<Rightarrow> cursor_ok d' \<and> m_buffer d' = m_buffer d \<and> P x"
  proof (cases "f d")
    case (Inl e)
    then show ?thesis using parsesD [OF assms(1) d] by (simp add: get_def)
  next
    case (Inr r)
    then obtain b x d' where r: "f d = Inr ((b, x), d')" by (metis prod.collapse)
    then have q: "cursor_ok d'" "m_buffer d' = m_buffer d" "Q x"
      using parsesD [OF assms(1) d] by simp_all
    then show ?thesis using r parsesD [OF assms(2) [OF q(3), of b] q(1), unfolded q(2)] by (simp add: get_def)
  qed
qed

lemma parses_mono:
  assumes "parses G f Q" "G \<subseteq> F" "\<And>x. Q x \<Longrightarrow> P x"
  shows "parses F f P"
proof (rule parsesI)
  fix d assume "cursor_ok d"
  from parsesD [OF assms(1) this] show "case f d of Inl e \<Rightarrow> e \<in> F
      | Inr ((b, x), d') \<Rightarrow> cursor_ok d' \<and> m_buffer d' = m_buffer d \<and> P x"
    using assms(2,3) by (auto split: sum.splits prod.splits)
qed

lemma parses_reads: "parses F (reads olds) (\<lambda>xs. length xs = length olds)"
proof (induction olds)
  case (Cons v vs)
  show ?case
    by (auto intro!: parses_get [OF parses_byte [where P = "\<lambda>x. True"]] parses_get [OF Cons.IH]
        parses_give)
qed (simp add: parses_give)

declare reads.simps [simp del] writes.simps [simp del]

text \<open>
  The two shapes in which the classes parse: a run of bytes or one byte, then the rest. What is
  known of a run is its length.
\<close>

lemma parses_get_reads [safe_parsing]:
  "(\<And>b xs. length xs = length olds \<Longrightarrow> parses F (g b xs) P) \<Longrightarrow> parses F (get (reads olds) g) P"
  by (rule parses_get [OF parses_reads])

lemma parses_get_byte [safe_parsing]:
  "(\<And>b x. parses F (g b x) P) \<Longrightarrow> parses F (get (read_byte old) g) P"
  by (rule parses_get [OF parses_byte]) simp_all

lemma parses_get_peek [safe_parsing]:
  "(\<And>b x. parses F (g b x) P) \<Longrightarrow> parses F (get (peek_byte old) g) P"
  by (rule parses_get [OF parses_peek]) simp_all

lemma parses_if [safe_parsing]:
  "(c \<Longrightarrow> parses F f P) \<Longrightarrow> (\<not> c \<Longrightarrow> parses F g P) \<Longrightarrow> parses F (if c then f else g) P"
  by simp

section \<open>Vectors of objects\<close>

text \<open>
  The loops over a vector of objects: every object is serialized in order, and a parsing loop of
  \<open>n\<close> rounds parses a new object, stops with \<open>false\<close> when that fails and appends it otherwise.
  The parser gets the number of the round, since a new object may have members without a value.
\<close>

fun serialize_each :: "('a \<Rightarrow> writer) \<Rightarrow> 'a list \<Rightarrow> writer" where
  "serialize_each f [] = done_with True"
| "serialize_each f (x # xs) = also_ok (f x) (serialize_each f xs)"

fun deserialize_each :: "(nat \<Rightarrow> 'a reader) \<Rightarrow> nat \<Rightarrow> nat \<Rightarrow> 'a list \<Rightarrow> 'a list reader" where
  "deserialize_each f i 0 acc = give True acc"
| "deserialize_each f i (Suc n) acc =
     get (f i) (\<lambda>b x. if \<not> b then give False acc
                      else deserialize_each f (Suc i) n (acc @ [x]))"

lemma sends_each [sending]:
  "(\<And>x. x \<in> set xs \<Longrightarrow> sends (f x) (bytes x)) \<Longrightarrow> sends (serialize_each f xs) (concat (map bytes xs))"
  by (induction xs) (auto intro!: sends_done sends_also_ok)

lemma gets_each:
  "(\<And>x i. x \<in> set xs \<Longrightarrow> gets (f i) x (bytes x)) \<Longrightarrow>
   gets (deserialize_each f i (length xs) acc) (acc @ xs) (concat (map bytes xs))"
proof (induction xs arbitrary: i acc)
  case (Cons x xs)
  have "gets (deserialize_each f (Suc i) (length xs) (acc @ [x])) ((acc @ [x]) @ xs)
      (concat (map bytes xs))"
    using Cons.prems by (intro Cons.IH) auto
  then have "gets (get (f i) (\<lambda>b x. if \<not> b then give False acc
        else deserialize_each f (Suc i) (length xs) (acc @ [x]))) ((acc @ [x]) @ xs)
      (bytes x @ concat (map bytes xs))"
    using Cons.prems [of x i] by (intro gets_get) auto
  then show ?case by simp
qed (simp add: gets_give)

lemma parses_each:
  "(\<And>i. parses F (f i) P) \<Longrightarrow> (\<And>x. x \<in> set acc \<Longrightarrow> P x) \<Longrightarrow>
   parses F (deserialize_each f i n acc) (\<lambda>xs. \<forall>x\<in>set xs. P x)"
proof (induction n arbitrary: i acc)
  case (Suc n)
  have "parses F (if \<not> b then give False acc else deserialize_each f (Suc i) n (acc @ [x]))
      (\<lambda>xs. \<forall>x\<in>set xs. P x)" if "P x" for b x
    using Suc.prems that by (auto intro!: parses_give Suc.IH)
  then show ?case unfolding deserialize_each.simps by (rule parses_get [OF Suc.prems(1)])
qed (simp add: parses_give)

text \<open>A loop whose rounds never fail parses as many objects as it was asked for.\<close>

definition always_true :: "'a reader \<Rightarrow> bool" where
  "always_true f \<longleftrightarrow> (\<forall>d. case f d of Inl e \<Rightarrow> True | Inr ((b, x), d') \<Rightarrow> b)"

lemma parses_get_true:
  assumes "parses F f Q" "always_true f" "\<And>x. Q x \<Longrightarrow> parses F (g True x) P"
  shows "parses F (get f g) P"
proof -
  have "get f g d = get f (\<lambda>_. g True) d" for d
  proof (cases "f d")
    case (Inr r)
    then obtain b x d' where r: "f d = Inr ((b, x), d')" by (metis prod.collapse)
    then have b using spec [OF assms(2) [unfolded always_true_def], of d] by simp
    then show ?thesis using r by (simp add: get_def)
  qed (simp add: get_def)
  then have eq: "get f g = get f (\<lambda>_. g True)" by (rule ext)
  have "parses F (get f (\<lambda>_. g True)) P" by (rule parses_get [OF assms(1)]) (rule assms(3))
  then show ?thesis by (simp only: eq [symmetric])
qed

lemma parses_each_count:
  assumes "\<And>i. parses F (f i) P" "\<And>i. always_true (f i)"
  shows "(\<And>x. x \<in> set acc \<Longrightarrow> P x) \<Longrightarrow>
   parses F (deserialize_each f i n acc) (\<lambda>xs. length xs = length acc + n \<and> (\<forall>x\<in>set xs. P x))"
proof (induction n arbitrary: i acc)
  case (Suc n)
  have "parses F (if \<not> True then give False acc else deserialize_each f (Suc i) n (acc @ [x]))
      (\<lambda>xs. length xs = length acc + Suc n \<and> (\<forall>x\<in>set xs. P x))" if "P x" for x
    using Suc.IH [of "acc @ [x]" "Suc i"] Suc.prems that by auto
  then show ?case unfolding deserialize_each.simps by (rule parses_get_true [OF assms])
qed (simp add: parses_give)

lemma always_true_get: "(\<And>b x. always_true (g b x)) \<Longrightarrow> always_true (get f g)"
  unfolding always_true_def
proof
  fix d assume "\<And>b x. \<forall>d. case g b x d of Inl e \<Rightarrow> True | Inr ((b, x), d') \<Rightarrow> b"
  then show "case get f g d of Inl e \<Rightarrow> True | Inr ((b, x), d') \<Rightarrow> b"
    by (cases "f d") (auto simp: get_def split: prod.split)
qed

lemma always_true_give: "always_true (give True x)"
  by (simp add: always_true_def give_def)

section \<open>Memory safety\<close>

text \<open>Any sequence of calls of the four \<open>write\<close> methods on one buffer.\<close>

datatype write_call = WriteByte byte | WriteU16 u16 | WriteQuadlet u32 | WriteBlock "byte list"

primrec run_call :: "write_call \<Rightarrow> writer" where
  "run_call (WriteByte v) = write_byte v"
| "run_call (WriteU16 v) = write_u16 v"
| "run_call (WriteQuadlet v) = write_quadlet v"
| "run_call (WriteBlock v) = write_block v"

fun run_calls :: "write_call list \<Rightarrow> buffer_cursor \<Rightarrow> (bool list \<times> buffer_cursor) result" where
  "run_calls [] s = Inr ([], s)"
| "run_calls (c # cs) s =
     bind_result (run_call c s) (\<lambda>(b, s).
       bind_result (run_calls cs s) (\<lambda>(bs, s). Inr (b # bs, s)))"

text \<open>
  \<open>inside s s'\<close>: the buffer is still well-formed, and no byte at or after its length has changed.
\<close>

definition inside :: "buffer_cursor \<Rightarrow> buffer_cursor \<Rightarrow> bool" where
  "inside s s' \<longleftrightarrow> cursor_ok s' \<and> m_length s' = m_length s \<and>
     length (m_buffer s') = length (m_buffer s) \<and>
     drop (unat (m_length s)) (m_buffer s') = drop (unat (m_length s)) (m_buffer s)"

lemma inside_refl: "cursor_ok s \<Longrightarrow> inside s s"
  by (simp add: inside_def)

lemma inside_trans: "inside s t \<Longrightarrow> inside t u \<Longrightarrow> inside s u"
  by (simp add: inside_def)

lemma inside_move: "inside s (move n t) = inside s t"
  by (simp add: inside_def)

lemma store_at_inside:
  assumes "cursor_ok s" "unat (m_curPos s) + length bs \<le> unat (m_length s)"
  shows "\<exists>t. store_at s bs = Inr t \<and> inside s t \<and> m_curPos t = m_curPos s"
proof -
  have b: "unat (m_curPos s) + length bs \<le> length (m_buffer s)"
    using assms cursor_ok_bound(2) [OF assms(1)] by linarith
  show ?thesis
    using assms b by (auto simp: store_at_def mem_write_Inr inside_def cursor_ok_def)
qed

lemma write_byte_inside:
  assumes "cursor_ok s"
  shows "\<exists>b t. write_byte v s = Inr (b, t) \<and> inside s t"
proof (cases "isCurPosValid s")
  case True
  then obtain t where "store_at s [v] = Inr t" "inside s t"
    using store_at_inside [OF assms, of "[v]"] by (auto simp: isCurPosValid_iff)
  then show ?thesis using True by (auto simp: write_byte_def inside_move)
qed (use assms in \<open>auto simp: write_byte_def inside_refl\<close>)

lemma write_u16_inside:
  assumes "cursor_ok s"
  shows "\<exists>b t. write_u16 v s = Inr (b, t) \<and> inside s t"
proof (cases "isCurPosValid s")
  case True
  let ?hi = "ucast (drop_bit 8 (v AND 0xFF00)) :: byte" and ?lo = "ucast (v AND 0xFF) :: byte"
  obtain t where t: "store_at s [?hi] = Inr t" "inside s t"
    using store_at_inside [OF assms, of "[?hi]"] True by (auto simp: isCurPosValid_iff)
  then have ok: "cursor_ok (move 1 t)" by (simp add: inside_def)
  show ?thesis
  proof (cases "isCurPosValid (move 1 t)")
    case v: True
    then obtain u where "store_at (move 1 t) [?lo] = Inr u" "inside (move 1 t) u"
      using store_at_inside [OF ok, of "[?lo]"] by (auto simp: isCurPosValid_iff)
    moreover from this have "inside s u"
      using inside_trans [of s "move 1 t" u] t(2) by (simp add: inside_move)
    ultimately show ?thesis using True t v by (auto simp: write_u16_def inside_move)
  qed (use True t in \<open>auto simp: write_u16_def inside_move\<close>)
qed (use assms in \<open>auto simp: write_u16_def inside_refl\<close>)

lemma write_block_inside:
  assumes "cursor_ok s" "length v < 2 ^ 63"
  shows "\<exists>b t. write_block v s = Inr (b, t) \<and> inside s t"
proof (cases "isCurPosValid s")
  case True
  let ?len = "word_of_nat (length v) :: u64"
  have undo: "move (- ?len) (move ?len s) = s" by (simp add: move_def)
  show ?thesis
  proof (cases "isCurPosValid (move ?len s)")
    case v: True
    have "unat (m_curPos s + ?len) = unat (m_curPos s) + length v"
      using assms True cursor_ok_bound(1) [OF assms(1)]
      by (intro unat_pos_plus) (auto simp: isCurPosValid_iff)
    then obtain t where "store_at s v = Inr t" "inside s t"
      using store_at_inside [OF assms(1), of v] v by (auto simp: isCurPosValid_iff)
    then show ?thesis using True v by (auto simp: write_block_def undo inside_move)
  qed (use assms True in \<open>auto simp: write_block_def inside_refl inside_move\<close>)
qed (use assms in \<open>auto simp: write_block_def inside_refl\<close>)

primrec small_call :: "write_call \<Rightarrow> bool" where
  "small_call (WriteByte v) = True"
| "small_call (WriteU16 v) = True"
| "small_call (WriteQuadlet v) = False"
| "small_call (WriteBlock v) = (length v < 2 ^ 63)"

lemma run_call_inside:
  assumes "cursor_ok s" "small_call c"
  shows "\<exists>b t. run_call c s = Inr (b, t) \<and> inside s t"
  using assms by (cases c) (simp_all add: write_byte_inside write_u16_inside write_block_inside)

lemma write_quadlet_fault_iff:
  "write_quadlet v s = Inl OutOfBounds \<longleftrightarrow>
   unat (m_curPos s) < unat (m_length s) \<and> length (m_buffer s) < unat (m_curPos s) + 4"
  by (auto simp: write_quadlet_def isCurPosValid_iff store_at_def mem_write_def quadlet_bytes_def)

text \<open>
  C19. Whatever sequence of byte, 16 bit and block writes is made on a buffer, no write leaves the
  buffer: the calls return, and no byte at or behind the length that was given changes. The
  quadlet write checks the first of its four bytes only: it runs over the end of the memory
  exactly when fewer than four but at least one byte is left.
\<close>

theorem serializer_memory_safe:
  assumes "cursor_ok s" "\<forall>c\<in>set calls. small_call c"
  shows "(\<exists>bs t. run_calls calls s = Inr (bs, t) \<and> length bs = length calls \<and> inside s t) \<and>
    (m_length s = word_of_nat (length (m_buffer s)) \<longrightarrow>
       (run_call (WriteQuadlet v) s = Inl OutOfBounds \<longleftrightarrow>
        0 < length (m_buffer s) - unat (m_curPos s) \<and> length (m_buffer s) - unat (m_curPos s) < 4))"
proof
  show "\<exists>bs t. run_calls calls s = Inr (bs, t) \<and> length bs = length calls \<and> inside s t"
    using assms
  proof (induction calls arbitrary: s)
    case (Cons c calls)
    obtain b t where c: "run_call c s = Inr (b, t)" "inside s t"
      using run_call_inside [of s c] Cons.prems by auto
    then obtain bs u where "run_calls calls t = Inr (bs, u)" "length bs = length calls" "inside t u"
      using Cons.IH [of t] Cons.prems by (auto simp: inside_def)
    then show ?case using c inside_trans [of s t u] by simp
  qed (simp add: inside_refl)
  have "length (m_buffer s) < 2 ^ 63" using assms(1) by (simp add: cursor_ok_def)
  then show "m_length s = word_of_nat (length (m_buffer s)) \<longrightarrow>
       (run_call (WriteQuadlet v) s = Inl OutOfBounds \<longleftrightarrow>
        0 < length (m_buffer s) - unat (m_curPos s) \<and> length (m_buffer s) - unat (m_curPos s) < 4)"
    by (auto simp: write_quadlet_fault_iff)
qed

theorem serializer_memory_safe_witness:
  "(\<exists>bs t. run_calls [WriteByte 1, WriteU16 2, WriteBlock [3]] (new_cursor [0, 0, 0] 3) = Inr (bs, t) \<and>
     length bs = 3 \<and> inside (new_cursor [0, 0, 0] 3) t) \<and>
   run_call (WriteQuadlet 7) (new_cursor [0, 0, 0] 3) = Inl OutOfBounds"
  using serializer_memory_safe [of "new_cursor [0, 0, 0] 3" "[WriteByte 1, WriteU16 2, WriteBlock [3]]" 7]
  by (simp add: new_cursor_def cursor_ok_def numeral_3_eq_3 del: run_calls.simps)

section \<open>Interface of the data classes\<close>

text \<open>
  What a class with \<open>serialize\<close> and \<open>deserialize\<close> promises: a proper object sends its bytes, possibly
  followed by padding; a receiving object that can take them parses exactly these bytes, and is
  then the received object. From this follows the round trip through a buffer.
\<close>

locale bus_data =
  fixes serialize :: "'a \<Rightarrow> writer"
    and deserialize :: "'a \<Rightarrow> 'a reader"
    and bytes :: "'a \<Rightarrow> byte list"
    and pad :: "'a \<Rightarrow> byte list"
    and proper :: "'a \<Rightarrow> bool"
    and takes :: "'a \<Rightarrow> 'a \<Rightarrow> bool"
    and received :: "'a \<Rightarrow> 'a \<Rightarrow> 'a"
  assumes serialize_sends: "proper x \<Longrightarrow> sends (serialize x) (bytes x @ pad x)"
    and deserialize_parses: "proper x \<Longrightarrow> takes y x \<Longrightarrow> cursor_ok d \<Longrightarrow>
      ahead d = bytes x @ pad x @ rest \<Longrightarrow>
      deserialize y d = Inr ((True, received y x), advance (length (bytes x)) d)"
begin

lemma sent_bytes:
  assumes "proper x" "length (bytes x @ pad x) \<le> unat len" "unat len \<le> length buf" "length buf < 2 ^ 63"
  shows "serialize x (new_cursor buf len) = Inr (True, put (new_cursor buf len) (bytes x @ pad x))"
  using serialize_sends [OF assms(1)] assms(2-)
  by (simp add: sends_def fits_def cursor_ok_def new_cursor_def)

lemma buffer_round_trip:
  assumes "proper x" "takes y x" "length (bytes x @ pad x) \<le> unat len" "unat len \<le> length buf"
    "length buf < 2 ^ 63" "length (bytes x @ pad x) \<le> unat n" "unat n \<le> length buf"
  shows "\<exists>s d. serialize x (new_cursor buf len) = Inr (True, s) \<and>
    deserialize y (new_cursor (m_buffer s) n) = Inr ((True, received y x), d) \<and>
    m_curPos s = word_of_nat (length (bytes x @ pad x)) \<and> m_curPos d = word_of_nat (length (bytes x))"
proof -
  let ?s = "put (new_cursor buf len) (bytes x @ pad x)"
  have b: "m_buffer ?s = bytes x @ pad x @ drop (length (bytes x @ pad x)) buf"
    by (simp add: put_def new_cursor_def)
  have "cursor_ok (new_cursor (m_buffer ?s) n)"
    using assms b by (simp add: cursor_ok_def new_cursor_def)
  moreover have "ahead (new_cursor (m_buffer ?s) n) = bytes x @ pad x @
      take (unat n - length (bytes x @ pad x)) (drop (length (bytes x @ pad x)) buf)"
    using assms b by (simp add: ahead_def new_cursor_def)
  ultimately have "deserialize y (new_cursor (m_buffer ?s) n)
      = Inr ((True, received y x), advance (length (bytes x)) (new_cursor (m_buffer ?s) n))"
    by (rule deserialize_parses [OF assms(1,2)])
  then show ?thesis
    using sent_bytes [OF assms(1,3-5)] by (simp add: new_cursor_def)
qed

end

lemma bus_dataI:
  assumes "\<And>x. proper x \<Longrightarrow> sends (serialize x) (bytes x)"
    and "\<And>x y. proper x \<Longrightarrow> takes y x \<Longrightarrow> gets (deserialize y) (received y x) (bytes x)"
  shows "bus_data serialize deserialize bytes (\<lambda>x. []) proper takes received"
  using assms by unfold_locales (simp_all add: gets_def)

end
