(* ===== verification/AVC_Generic.thy ===== *)
theory AVC_Generic
  imports CmdSerialize
begin

text \<open>
  The base class of the AV/C commands (\<open>libavc/general/avc_generic.cpp\<close>) and the general commands
  built directly on it: connect, unit info, subunit info, extended subunit info, plug info, the
  plug signal formats and the vendor dependent command.

  A command is a record; a derived class extends the record of \<open>AVCCommand\<close> by its members, in the
  order of the class. The enumerations of the classes are stored in bytes and compared with bytes,
  so their values are abbreviations for bytes. A local variable that is read into without having
  been initialised keeps its indeterminate value when the read is refused; these values come from
  the argument \<open>ind\<close>.
\<close>

section \<open>Values\<close>

abbreviation (input) "eST_Audio \<equiv> (0x01 :: byte)"
abbreviation (input) "eST_Music \<equiv> (0x0C :: byte)"
abbreviation (input) "eST_Reserved \<equiv> (0x1D :: byte)"
abbreviation (input) "eST_Unit \<equiv> (0x1F :: byte)"

abbreviation (input) "eR_Unknown \<equiv> (0xff :: byte)"
abbreviation (input) "eR_NotImplemented \<equiv> (0x08 :: byte)"
abbreviation (input) "eR_Accepted \<equiv> (0x09 :: byte)"
abbreviation (input) "eR_Rejected \<equiv> (0x0A :: byte)"
abbreviation (input) "eR_Implemented \<equiv> (0x0C :: byte)"

abbreviation (input) "eCT_Control \<equiv> (0x00 :: byte)"
abbreviation (input) "eCT_Status \<equiv> (0x01 :: byte)"
abbreviation (input) "eCT_SpecificInquiry \<equiv> (0x02 :: byte)"
abbreviation (input) "eCT_Unknown \<equiv> (0xff :: byte)"

type_synonym indeterminate = "nat \<Rightarrow> byte"

section \<open>Names for messages\<close>

definition subunitTypeStrings :: "string list" where
  "subunitTypeStrings =
     [''Monitor'', ''Audio'', ''Printer'', ''Disc recorder'', ''Tape recorder/VCR'', ''Tuner'', ''CA'',
      ''Video camera'', ''unknown'', ''Panel'', ''Bulletin board'', ''Camera storage'', ''Music'']"

definition string_at :: "string list \<Rightarrow> byte \<Rightarrow> string result" where
  "string_at t i = (if unat i < length t then Inr (t ! unat i) else Inl OutOfBounds)"

definition subunitTypeToString :: "byte \<Rightarrow> string result" where
  "subunitTypeToString subunitType =
     (if subunitType = eST_Unit then Inr ''Unit''
      else if length subunitTypeStrings < unat subunitType then Inr ''unknown''
      else string_at subunitTypeStrings subunitType)"

text \<open>The strings after \<open>"changed"\<close> are one entry: there is no comma between them.\<close>

definition responseToStrings :: "string list" where
  "responseToStrings =
     [''control'', ''status'', ''specific inquiry'', ''notify'', ''general inquiry'',
      ''reserved for future specification'', ''reserved for future specification'',
      ''reserved for future specification'', ''not implemented'', ''accepted'', ''rejected'',
      ''in transition'', ''implemented/stable'',
      ''changed'' @ ''reserved for future specification'', ''interim'']"

definition responseToString :: "byte \<Rightarrow> string result" where
  "responseToString eResponse =
     (if length responseToStrings < unat eResponse then Inr ''unknown''
      else string_at responseToStrings eResponse)"

section \<open>The base class\<close>

record avc_command =
  m_nodeId :: u16
  m_fcpFrame :: "byte list"
  m_ctype :: byte
  m_subunit :: byte
  m_opcode :: byte
  m_eResponse :: byte
  m_commandType :: byte

definition AVCCommand :: "byte \<Rightarrow> byte list \<Rightarrow> byte \<Rightarrow> avc_command" where
  "AVCCommand opcode frame0 ctype0 =
     \<lparr>m_nodeId = 0, m_fcpFrame = frame0, m_ctype = eCT_Unknown, m_subunit = 0xff, m_opcode = opcode,
      m_eResponse = eR_Unknown, m_commandType = ctype0\<rparr>"

definition getSubunitType :: "'a avc_command_scheme \<Rightarrow> byte" where
  "getSubunitType c = drop_bit 3 (m_subunit c)"

definition getSubunitId :: "'a avc_command_scheme \<Rightarrow> byte" where
  "getSubunitId c = m_subunit c AND 7"

definition setCommandType :: "byte \<Rightarrow> 'a avc_command_scheme \<Rightarrow> 'a avc_command_scheme" where
  "setCommandType commandType c = c\<lparr>m_ctype := commandType, m_commandType := commandType\<rparr>"

definition getCommandType :: "'a avc_command_scheme \<Rightarrow> byte" where
  "getCommandType c = m_commandType c"

definition getResponse :: "'a avc_command_scheme \<Rightarrow> byte" where
  "getResponse c = m_eResponse c"

definition setNodeId :: "u16 \<Rightarrow> 'a avc_command_scheme \<Rightarrow> 'a avc_command_scheme" where
  "setNodeId nodeId c = c\<lparr>m_nodeId := nodeId\<rparr>"

definition setSubunitType :: "byte \<Rightarrow> 'a avc_command_scheme \<Rightarrow> 'a avc_command_scheme" where
  "setSubunitType subT c = c\<lparr>m_subunit := push_bit 3 subT OR (m_subunit c AND 7)\<rparr>"

definition setSubunitId :: "byte \<Rightarrow> 'a avc_command_scheme \<Rightarrow> 'a avc_command_scheme" where
  "setSubunitId subunitId c = c\<lparr>m_subunit := (subunitId AND 7) OR (m_subunit c AND 0xf8)\<rparr>"

text \<open>The text for the first byte is looked up before anything is written.\<close>

definition AVCCommand_serialize :: "'a avc_command_scheme \<Rightarrow> writer" where
  "AVCCommand_serialize c s =
     bind_result (responseToString (m_ctype c)) (\<lambda>_.
       after (writes [m_ctype c, m_subunit c, m_opcode c]) (done_with True) s)"

definition AVCCommand_deserialize :: "'a avc_command_scheme \<Rightarrow> 'a avc_command_scheme reader" where
  "AVCCommand_deserialize c =
     get (reads [m_ctype c, m_subunit c, m_opcode c]) (\<lambda>_ vs.
       give True (c\<lparr>m_ctype := vs ! 0, m_subunit := vs ! 1, m_opcode := vs ! 2\<rparr>))"

section \<open>Connect\<close>

definition ConnectCmd :: "byte list \<Rightarrow> byte \<Rightarrow> avc_command" where
  "ConnectCmd = AVCCommand 0x24"

definition ConnectCmd_serialize :: "avc_command \<Rightarrow> writer" where
  "ConnectCmd_serialize c = also_ok (done_with True) (AVCCommand_serialize c)"

definition ConnectCmd_deserialize :: "avc_command \<Rightarrow> avc_command reader" where
  "ConnectCmd_deserialize c = AVCCommand_deserialize c"

section \<open>Unit info\<close>

record unit_info = avc_command +
  m_reserved :: byte
  m_unit_type :: byte
  m_unit :: byte
  m_company_id :: u32

definition UnitInfoCmd :: "byte list \<Rightarrow> byte \<Rightarrow> unit_info" where
  "UnitInfoCmd f ct = avc_command.extend (AVCCommand 0x30 f ct)
     (unit_info.fields 0xff 0xff 0xff 0xffffffff)"

definition UnitInfoCmd_serialize :: "unit_info \<Rightarrow> writer" where
  "UnitInfoCmd_serialize c =
     after (AVCCommand_serialize c)
       (after (writes
           [m_reserved c,
            push_bit 3 (m_unit_type c) OR (m_unit c AND 7),
            ucast (drop_bit 16 (m_company_id c) AND 0xff),
            ucast (drop_bit 8 (m_company_id c) AND 0xff),
            ucast (drop_bit 0 (m_company_id c) AND 0xff)])
         (done_with True))"

definition UnitInfoCmd_deserialize :: "indeterminate \<Rightarrow> unit_info \<Rightarrow> unit_info reader" where
  "UnitInfoCmd_deserialize ind c =
     get (AVCCommand_deserialize c) (\<lambda>_ c.
     get (read_byte (m_reserved c)) (\<lambda>_ r.
     get (read_byte (ind 0)) (\<lambda>_ operand.
       (let c = c\<lparr>m_reserved := r, m_unit_type := drop_bit 3 operand, m_unit := operand AND 7\<rparr> in
     get (read_byte operand) (\<lambda>_ operand.
       (let company = 0 OR push_bit 16 (ucast operand) in
     get (read_byte operand) (\<lambda>_ operand.
       (let company = company OR push_bit 8 (ucast operand) in
     get (read_byte operand) (\<lambda>_ operand.
       give True (c\<lparr>m_company_id := company OR ucast operand\<rparr>)))))))))) "

section \<open>Subunit info\<close>

datatype table_entry = TableEntry (m_subunit_type: byte) (m_max_subunit_id: byte)

abbreviation (input) "eMaxSubunitsPerPage \<equiv> (4 :: nat)"

record subunit_info = avc_command +
  m_page :: byte
  m_extension_code :: byte
  m_table :: "table_entry list"
  m_nrOfValidEntries :: u16

definition SubUnitInfoCmd_clear :: "subunit_info \<Rightarrow> subunit_info" where
  "SubUnitInfoCmd_clear c = c\<lparr>m_page := 0xff, m_extension_code := 7,
     m_table := replicate eMaxSubunitsPerPage (TableEntry 0xff 0xff), m_nrOfValidEntries := 0\<rparr>"

definition SubUnitInfoCmd :: "byte list \<Rightarrow> byte \<Rightarrow> indeterminate \<Rightarrow> subunit_info" where
  "SubUnitInfoCmd f ct ind = SubUnitInfoCmd_clear (avc_command.extend (AVCCommand 0x31 f ct)
     (subunit_info.fields (ind 0) (ind 1) (replicate 4 (TableEntry (ind 2) (ind 3))) (ucast (ind 4))))"

definition SubUnitInfoCmd_serialize :: "subunit_info \<Rightarrow> writer" where
  "SubUnitInfoCmd_serialize c =
     after (AVCCommand_serialize c)
       (after (write_byte (push_bit 4 (m_page c AND 7) OR (m_extension_code c AND 7)))
         (after (writes (map (\<lambda>e. push_bit 3 (m_subunit_type e) OR (m_max_subunit_id e AND 7))
              (m_table c)))
           (done_with True)))"

text \<open>
  The loop over the table: the operand of the previous round is what a refused read leaves.
\<close>

fun read_table :: "nat \<Rightarrow> byte \<Rightarrow> table_entry list \<Rightarrow> u16 \<Rightarrow> (table_entry list \<times> u16) reader" where
  "read_table 0 operand t n = give True (t, n)"
| "read_table (Suc k) operand t n =
     get (read_byte operand) (\<lambda>_ operand.
       read_table k operand (t @ [TableEntry (drop_bit 3 operand) (operand AND 7)])
         (if operand \<noteq> 0xff then n + 1 else n))"

definition SubUnitInfoCmd_deserialize :: "indeterminate \<Rightarrow> subunit_info \<Rightarrow> subunit_info reader" where
  "SubUnitInfoCmd_deserialize ind c =
     get (AVCCommand_deserialize c) (\<lambda>_ c.
     get (read_byte (ind 0)) (\<lambda>_ operand.
       (let c = c\<lparr>m_page := drop_bit 4 operand AND 7, m_extension_code := operand AND 7\<rparr> in
     get (read_table eMaxSubunitsPerPage operand [] 0) (\<lambda>_ tn.
       give True (c\<lparr>m_table := fst tn, m_nrOfValidEntries := snd tn\<rparr>)))))"

section \<open>Plug info\<close>

abbreviation (input) "eSF_SerialBusIsochronousAndExternalPlug \<equiv> (0x00 :: byte)"
abbreviation (input) "eSF_SerialBusAsynchonousPlug \<equiv> (0x01 :: byte)"

record plug_info = avc_command +
  m_serialBusIsochronousInputPlugs :: byte
  m_serialBusIsochronousOutputPlugs :: byte
  m_externalInputPlugs :: byte
  m_externalOutputPlugs :: byte
  m_serialBusAsynchronousInputPlugs :: byte
  m_serialBusAsynchronousOuputPlugs :: byte
  m_destinationPlugs :: byte
  m_sourcePlugs :: byte
  m_subFunction :: byte

definition PlugInfoCmd :: "byte list \<Rightarrow> byte \<Rightarrow> byte \<Rightarrow> plug_info" where
  "PlugInfoCmd f ct eSubFunction = avc_command.extend (AVCCommand 0x02 f ct)
     (plug_info.fields 0xff 0xff 0xff 0xff 0xff 0xff 0xff 0xff eSubFunction)"

definition PlugInfoCmd_clear :: "plug_info \<Rightarrow> plug_info" where
  "PlugInfoCmd_clear c = c\<lparr>
     m_serialBusIsochronousInputPlugs := 0xff, m_serialBusIsochronousOutputPlugs := 0xff,
     m_externalInputPlugs := 0xff, m_externalOutputPlugs := 0xff,
     m_serialBusAsynchronousInputPlugs := 0xff, m_serialBusAsynchronousOuputPlugs := 0xff,
     m_destinationPlugs := 0xff, m_sourcePlugs := 0xff\<rparr>"

definition PlugInfoCmd_setSubFunction :: "byte \<Rightarrow> plug_info \<Rightarrow> plug_info" where
  "PlugInfoCmd_setSubFunction subFunction c = c\<lparr>m_subFunction := subFunction\<rparr>"

definition PlugInfoCmd_serialize :: "plug_info \<Rightarrow> writer" where
  "PlugInfoCmd_serialize c =
     (let reserved = 0xff in
      after (AVCCommand_serialize c)
        (after (write_byte (m_subFunction c))
          (if getSubunitType c = eST_Unit then
             if m_subFunction c = eSF_SerialBusIsochronousAndExternalPlug then
               after (writes [m_serialBusIsochronousInputPlugs c, m_serialBusIsochronousOutputPlugs c,
                   m_externalInputPlugs c, m_externalOutputPlugs c]) (done_with True)
             else if m_subFunction c = eSF_SerialBusAsynchonousPlug then
               after (writes [m_serialBusAsynchronousInputPlugs c, m_serialBusAsynchronousOuputPlugs c,
                   reserved, reserved]) (done_with True)
             else done_with False
           else
             after (writes [m_destinationPlugs c, m_sourcePlugs c, reserved, reserved])
               (done_with True))))"

definition PlugInfoCmd_deserialize :: "indeterminate \<Rightarrow> plug_info \<Rightarrow> plug_info reader" where
  "PlugInfoCmd_deserialize ind c =
     get (AVCCommand_deserialize c) (\<lambda>_ c.
     get (read_byte (m_subFunction c)) (\<lambda>_ f.
       (let c = c\<lparr>m_subFunction := f\<rparr> in
        if getSubunitType c = eST_Unit then
          if m_subFunction c = eSF_SerialBusIsochronousAndExternalPlug then
            get (reads [m_serialBusIsochronousInputPlugs c, m_serialBusIsochronousOutputPlugs c,
                m_externalInputPlugs c, m_externalOutputPlugs c]) (\<lambda>_ vs.
              give True (c\<lparr>m_serialBusIsochronousInputPlugs := vs ! 0,
                m_serialBusIsochronousOutputPlugs := vs ! 1,
                m_externalInputPlugs := vs ! 2, m_externalOutputPlugs := vs ! 3\<rparr>))
          else if m_subFunction c = eSF_SerialBusAsynchonousPlug then
            get (reads [m_serialBusAsynchronousInputPlugs c, m_serialBusAsynchronousOuputPlugs c,
                ind 0, ind 0]) (\<lambda>_ vs.
              give True (c\<lparr>m_serialBusAsynchronousInputPlugs := vs ! 0,
                m_serialBusAsynchronousOuputPlugs := vs ! 1\<rparr>))
          else give False c
        else
          get (reads [m_destinationPlugs c, m_sourcePlugs c, ind 0, ind 0]) (\<lambda>_ vs.
            give True (c\<lparr>m_destinationPlugs := vs ! 0, m_sourcePlugs := vs ! 1\<rparr>)))))"

section \<open>Plug signal formats\<close>

text \<open>The two classes have the same members.\<close>

record plug_signal_format = avc_command +
  m_plug :: byte
  m_eoh :: byte
  m_form :: byte
  m_fmt :: byte
  m_fdf :: "byte list"

definition OutputPlugSignalFormatCmd :: "byte list \<Rightarrow> byte \<Rightarrow> plug_signal_format" where
  "OutputPlugSignalFormatCmd f ct = avc_command.extend (AVCCommand 0x18 f ct)
     (plug_signal_format.fields 0 1 0 0 [0xff, 0xff, 0xff])"

definition OutputPlugSignalFormatCmd_serialize :: "plug_signal_format \<Rightarrow> writer" where
  "OutputPlugSignalFormatCmd_serialize c =
     also_ok (AVCCommand_serialize c)
       (also_ok (write_byte (m_plug c))
         (also_ok (write_byte
             (push_bit 7 (m_eoh c AND 1) OR push_bit 6 (m_form c AND 1) OR (m_fmt c AND 0x3f)))
           (writes (m_fdf c))))"

definition OutputPlugSignalFormatCmd_deserialize ::
    "indeterminate \<Rightarrow> plug_signal_format \<Rightarrow> plug_signal_format reader" where
  "OutputPlugSignalFormatCmd_deserialize ind c =
     get (AVCCommand_deserialize c) (\<lambda>r0 c.
     get (read_byte (m_plug c)) (\<lambda>r1 p.
     get (read_byte (ind 0)) (\<lambda>r2 tmp.
     get (reads (m_fdf c)) (\<lambda>r3 fdf.
       give (r0 \<and> r1 \<and> r2 \<and> r3)
         (c\<lparr>m_plug := p, m_eoh := drop_bit 7 (tmp AND 0x80), m_form := drop_bit 6 (tmp AND 0x40),
           m_fmt := tmp AND 0x3f, m_fdf := fdf\<rparr>)))))"

definition InputPlugSignalFormatCmd :: "byte list \<Rightarrow> byte \<Rightarrow> plug_signal_format" where
  "InputPlugSignalFormatCmd f ct = avc_command.extend (AVCCommand 0x19 f ct)
     (plug_signal_format.fields 0 1 0 0 [0xff, 0xff, 0xff])"

definition InputPlugSignalFormatCmd_serialize :: "plug_signal_format \<Rightarrow> writer" where
  "InputPlugSignalFormatCmd_serialize c =
     also_ok (AVCCommand_serialize c)
       (also_ok (write_byte (m_plug c))
         (also_ok (write_byte
             (push_bit 7 (m_eoh c AND 1) OR push_bit 6 (m_form c AND 1) OR (m_fmt c AND 0x3f)))
           (writes (m_fdf c))))"

definition InputPlugSignalFormatCmd_deserialize ::
    "indeterminate \<Rightarrow> plug_signal_format \<Rightarrow> plug_signal_format reader" where
  "InputPlugSignalFormatCmd_deserialize ind c =
     get (AVCCommand_deserialize c) (\<lambda>r0 c.
     get (read_byte (m_plug c)) (\<lambda>r1 p.
     get (read_byte (ind 0)) (\<lambda>r2 tmp.
     get (reads (m_fdf c)) (\<lambda>r3 fdf.
       give (r0 \<and> r1 \<and> r2 \<and> r3)
         (c\<lparr>m_plug := p, m_eoh := drop_bit 7 (tmp AND 0x80), m_form := drop_bit 6 (tmp AND 0x40),
           m_fmt := tmp AND 0x3f, m_fdf := fdf\<rparr>)))))"

section \<open>Vendor dependent\<close>

record vendor_dependent = avc_command +
  m_companyId :: u32

definition VendorDependentCmd :: "byte list \<Rightarrow> byte \<Rightarrow> u32 \<Rightarrow> vendor_dependent" where
  "VendorDependentCmd f ct id0 = avc_command.extend (AVCCommand 0x00 f ct)
     (vendor_dependent.fields id0)"

definition VendorDependentCmd_serialize :: "vendor_dependent \<Rightarrow> writer" where
  "VendorDependentCmd_serialize c =
     also_ok (AVCCommand_serialize c)
       (writes [ucast (drop_bit 16 (m_companyId c) AND 0xff),
                ucast (drop_bit 8 (m_companyId c) AND 0xff),
                ucast (m_companyId c AND 0xff)])"

definition VendorDependentCmd_deserialize ::
    "indeterminate \<Rightarrow> vendor_dependent \<Rightarrow> vendor_dependent reader" where
  "VendorDependentCmd_deserialize ind c =
     get (AVCCommand_deserialize c) (\<lambda>r0 c.
     get (reads [ind 2, ind 1, ind 0]) (\<lambda>r1 tmp.
       give (r0 \<and> r1)
         (c\<lparr>m_companyId := push_bit 16 (ucast (tmp ! 0)) OR push_bit 8 (ucast (tmp ! 1))
              OR ucast (tmp ! 2)\<rparr>)))"

section \<open>Extended subunit info\<close>

datatype page_data = ExtendedSubunitInfoPageData
  (m_functionBlockType: byte) (m_functionBlockId: byte) (m_functionBlockSpecialPupose: byte)
  (m_noOfInputPlugs: byte) (m_noOfOutputPlugs: byte)

definition PageData_new :: page_data where
  "PageData_new = ExtendedSubunitInfoPageData 0xff 0xff 0xff 0xff 0xff"

definition PageData_serialize :: "page_data \<Rightarrow> writer" where
  "PageData_serialize p =
     after (writes [m_functionBlockType p, m_functionBlockId p, m_functionBlockSpecialPupose p,
         m_noOfInputPlugs p, m_noOfOutputPlugs p]) (done_with True)"

definition PageData_deserialize :: "page_data \<Rightarrow> page_data reader" where
  "PageData_deserialize p =
     get (reads [m_functionBlockType p, m_functionBlockId p, m_functionBlockSpecialPupose p,
         m_noOfInputPlugs p, m_noOfOutputPlugs p]) (\<lambda>_ vs.
       give True (ExtendedSubunitInfoPageData (vs ! 0) (vs ! 1) (vs ! 2) (vs ! 3) (vs ! 4)))"

record extended_subunit_info = avc_command +
  m_page :: byte
  m_fbType :: byte
  m_infoPageDatas :: "page_data list"

definition ExtendedSubunitInfoCmd :: "byte list \<Rightarrow> byte \<Rightarrow> extended_subunit_info" where
  "ExtendedSubunitInfoCmd f ct = avc_command.extend (AVCCommand 0x31 f ct)
     (extended_subunit_info.fields 0xff 0xff [])"

definition ExtendedSubunitInfoCmd_serialize :: "extended_subunit_info \<Rightarrow> writer" where
  "ExtendedSubunitInfoCmd_serialize c =
     (let fill = 5 * 5 - length (m_infoPageDatas c) * 5 in
      (\<lambda>s. bind_result
        (also_ok (AVCCommand_serialize c)
          (also_ok (write_byte (m_page c))
            (also_ok (write_byte (m_fbType c))
              (serialize_each PageData_serialize (m_infoPageDatas c)))) s) (\<lambda>(status, s).
        after (writes (replicate fill 0xff)) (done_with status) s)))"

fun read_pages ::
    "indeterminate \<Rightarrow> nat \<Rightarrow> nat \<Rightarrow> bool \<Rightarrow> page_data list \<Rightarrow> page_data list reader" where
  "read_pages ind i 0 status acc = give status acc"
| "read_pages ind i (Suc n) status acc =
     get (peek_byte (ind i)) (\<lambda>_ nxt.
       if nxt \<noteq> 0xff then
         get (PageData_deserialize PageData_new) (\<lambda>b p.
           if \<not> b then give False acc else read_pages ind (Suc i) n status (acc @ [p]))
       else give status acc)"

definition ExtendedSubunitInfoCmd_deserialize ::
    "indeterminate \<Rightarrow> extended_subunit_info \<Rightarrow> extended_subunit_info reader" where
  "ExtendedSubunitInfoCmd_deserialize ind c =
     get (AVCCommand_deserialize c) (\<lambda>r0 c.
     get (read_byte (m_page c)) (\<lambda>r1 page.
     get (read_byte (m_fbType c)) (\<lambda>r2 fb.
     get (read_pages ind 0 5 (r0 \<and> r1 \<and> r2) (m_infoPageDatas c)) (\<lambda>status ps.
       give status (c\<lparr>m_page := page, m_fbType := fb, m_infoPageDatas := ps\<rparr>)))))"

section \<open>Packed fields\<close>

lemma byte_masks:
  "(7 :: byte) = mask 3" "(1 :: byte) = mask 1" "(0x3f :: byte) = mask 6" "(0xf :: byte) = mask 4"
  "(0x80 :: byte) = push_bit 7 (mask 1)" "(0x40 :: byte) = push_bit 6 (mask 1)"
  "(0x10 :: byte) = push_bit 4 (mask 1)" "(0xf8 :: byte) = push_bit 3 (mask 5)"
  by (simp_all add: mask_eq_exp_minus_1 push_bit_eq_mult)

lemma quadlet_masks: "(0xff :: u32) = mask 8"
  by (simp add: mask_eq_exp_minus_1)

lemma byte_fields:
  fixes a b :: byte
  shows "a < 32 \<Longrightarrow> drop_bit 3 (push_bit 3 a OR (b AND 7)) = a"
    and "b < 8 \<Longrightarrow> (push_bit 3 a OR (b AND 7)) AND 7 = b"
    and "a < 8 \<Longrightarrow> drop_bit 4 (push_bit 4 (a AND 7) OR (b AND 7)) AND 7 = a"
    and "b < 8 \<Longrightarrow> (push_bit 4 (a AND 7) OR (b AND 7)) AND 7 = b"
proof -
  have t: "x < 32 \<Longrightarrow> take_bit 5 x = x" "x < 8 \<Longrightarrow> take_bit 3 x = x" for x :: byte
    by (rule take_bit_small, simp add: word_less_nat_alt)+
  have "drop_bit 3 (push_bit 3 (take_bit 5 a) OR (b AND 7)) = take_bit 5 a"
    unfolding byte_masks by (rule bit_word_eqI) (auto simp: bit_simps)
  then show "a < 32 \<Longrightarrow> drop_bit 3 (push_bit 3 a OR (b AND 7)) = a" by (simp only: t)
  have "(push_bit 3 a OR (b AND 7)) AND 7 = take_bit 3 b"
    unfolding byte_masks by (rule bit_word_eqI) (auto simp: bit_simps)
  then show "b < 8 \<Longrightarrow> (push_bit 3 a OR (b AND 7)) AND 7 = b" by (simp only: t)
  have "drop_bit 4 (push_bit 4 (a AND 7) OR (b AND 7)) AND 7 = take_bit 3 a"
    unfolding byte_masks by (rule bit_word_eqI) (auto simp: bit_simps)
  then show "a < 8 \<Longrightarrow> drop_bit 4 (push_bit 4 (a AND 7) OR (b AND 7)) AND 7 = a" by (simp only: t)
  have "(push_bit 4 (a AND 7) OR (b AND 7)) AND 7 = take_bit 3 b"
    unfolding byte_masks by (rule bit_word_eqI) (auto simp: bit_simps)
  then show "b < 8 \<Longrightarrow> (push_bit 4 (a AND 7) OR (b AND 7)) AND 7 = b" by (simp only: t)
qed

lemma signal_format_fields:
  fixes e f g :: byte
  defines "w \<equiv> push_bit 7 (e AND 1) OR push_bit 6 (f AND 1) OR (g AND 0x3f)"
  shows "e < 2 \<Longrightarrow> drop_bit 7 (w AND 0x80) = e"
    and "f < 2 \<Longrightarrow> drop_bit 6 (w AND 0x40) = f"
    and "g < 64 \<Longrightarrow> w AND 0x3f = g"
proof -
  have t: "x < 2 \<Longrightarrow> take_bit 1 x = x" "x < 64 \<Longrightarrow> take_bit 6 x = x" for x :: byte
    by (rule take_bit_small, simp add: word_less_nat_alt)+
  have "drop_bit 7 (w AND 0x80) = take_bit 1 e"
    unfolding w_def byte_masks by (rule bit_word_eqI) (auto simp: bit_simps bit_0)
  then show "e < 2 \<Longrightarrow> drop_bit 7 (w AND 0x80) = e" by (simp only: t)
  have "drop_bit 6 (w AND 0x40) = take_bit 1 f"
    unfolding w_def byte_masks by (rule bit_word_eqI) (auto simp: bit_simps bit_0)
  then show "f < 2 \<Longrightarrow> drop_bit 6 (w AND 0x40) = f" by (simp only: t)
  have "w AND 0x3f = take_bit 6 g"
    unfolding w_def byte_masks by (rule bit_word_eqI) (auto simp: bit_simps bit_0)
  then show "g < 64 \<Longrightarrow> w AND 0x3f = g" by (simp only: t)
qed

lemma company_id_fields:
  fixes c :: u32
  assumes "c < 0x1000000"
  shows "push_bit 16 (ucast (ucast (drop_bit 16 c AND 0xff) :: byte))
    OR push_bit 8 (ucast (ucast (drop_bit 8 c AND 0xff) :: byte))
    OR ucast (ucast (c AND 0xff) :: byte) = c"
proof -
  have "take_bit 24 c = c" using assms by (intro take_bit_small) (simp add: word_less_nat_alt)
  moreover have "push_bit 16 (ucast (ucast (drop_bit 16 c AND 0xff) :: byte))
    OR push_bit 8 (ucast (ucast (drop_bit 8 c AND 0xff) :: byte))
    OR ucast (ucast (c AND 0xff) :: byte) = take_bit 24 c"
    unfolding quadlet_masks
  proof (rule bit_word_eqI)
    fix n :: nat
    consider "n < 8" | "8 \<le> n" "n < 16" | "16 \<le> n" by linarith
    then show "bit (push_bit 16 (ucast (ucast (drop_bit 16 c AND mask 8) :: byte))
        OR push_bit 8 (ucast (ucast (drop_bit 8 c AND mask 8) :: byte))
        OR ucast (ucast (c AND mask 8) :: byte) :: u32) n \<longleftrightarrow> bit (take_bit 24 c) n"
      by cases (auto simp: bit_simps)
  qed
  ultimately show ?thesis by simp
qed

section \<open>What the base class sends and parses\<close>

lemma responseToString_Inr: "v \<noteq> 0x0f \<Longrightarrow> \<exists>t. responseToString v = Inr t"
proof -
  assume "v \<noteq> 0x0f"
  then have "unat v \<noteq> 15" using word_unat_eq_iff [of v 15] by simp
  moreover have "length responseToStrings = 15" by (simp add: responseToStrings_def)
  ultimately show ?thesis by (auto simp: responseToString_def string_at_def)
qed

definition base_bytes :: "'a avc_command_scheme \<Rightarrow> byte list" where
  "base_bytes c = [m_ctype c, m_subunit c, m_opcode c]"

definition base_proper :: "'a avc_command_scheme \<Rightarrow> bool" where
  "base_proper c \<longleftrightarrow> m_ctype c \<noteq> 0x0f"

definition base_received ::
    "'a avc_command_scheme \<Rightarrow> 'b avc_command_scheme \<Rightarrow> 'a avc_command_scheme" where
  "base_received y x = y\<lparr>m_ctype := m_ctype x, m_subunit := m_subunit x, m_opcode := m_opcode x\<rparr>"

lemma sends_base [sending]: "base_proper c \<Longrightarrow> sends (AVCCommand_serialize c) (base_bytes c)"
proof -
  assume "base_proper c"
  then obtain t where "responseToString (m_ctype c) = Inr t"
    using responseToString_Inr unfolding base_proper_def by blast
  then have "AVCCommand_serialize c = after (writes (base_bytes c)) (done_with True)"
    by (simp add: AVCCommand_serialize_def base_bytes_def fun_eq_iff)
  then show ?thesis using sends_after [OF sends_writes sends_done] by fastforce
qed

lemma gets_base: "gets (AVCCommand_deserialize y) (base_received y x) (base_bytes x)"
  unfolding AVCCommand_deserialize_def base_received_def base_bytes_def get_reads_simps
  by (intro gets_get_byte gets_end) simp_all

lemma gets_get_base:
  "gets (g True (base_received y x)) z bs \<Longrightarrow>
   gets (get (AVCCommand_deserialize y) g) z (base_bytes x @ bs)"
  by (rule gets_get [OF gets_base])

lemma parses_base: "parses F (AVCCommand_deserialize c) (\<lambda>c'. \<exists>a b d. c' = c\<lparr>m_ctype := a, m_subunit := b, m_opcode := d\<rparr>)"
  unfolding AVCCommand_deserialize_def by (intro safe_parsing) auto

lemma base_received_simps [simp]:
  "m_subunit (base_received y x) = m_subunit x" "m_ctype (base_received y x) = m_ctype x"
  "m_opcode (base_received y x) = m_opcode x" "m_commandType (base_received y x) = m_commandType y"
  "m_nodeId (base_received y x) = m_nodeId y" "m_eResponse (base_received y x) = m_eResponse y"
  "avc_command.more (base_received y x) = avc_command.more y"
  "getSubunitType (base_received y x) = getSubunitType x"
  by (simp_all add: base_received_def getSubunitType_def)

lemmas codec_rules = gets_get_base gets_get_byte gets_end

section \<open>The commands as data classes\<close>

interpretation connect: bus_data ConnectCmd_serialize ConnectCmd_deserialize base_bytes
  "\<lambda>x. []" base_proper
  "\<lambda>y x. True" base_received
proof (rule bus_dataI)
  show "sends (ConnectCmd_serialize x) (base_bytes x)" if "base_proper x" for x
    using sends_also_ok [OF sends_done sends_base [OF that]] by (simp add: ConnectCmd_serialize_def)
qed (simp add: ConnectCmd_deserialize_def gets_base)

definition unit_info_bytes :: "unit_info \<Rightarrow> byte list" where
  "unit_info_bytes c = base_bytes c @
     [m_reserved c, push_bit 3 (m_unit_type c) OR (m_unit c AND 7),
      ucast (drop_bit 16 (m_company_id c) AND 0xff), ucast (drop_bit 8 (m_company_id c) AND 0xff),
      ucast (m_company_id c AND 0xff)]"

definition unit_info_proper :: "unit_info \<Rightarrow> bool" where
  "unit_info_proper c \<longleftrightarrow> base_proper c \<and> m_unit_type c < 32 \<and> m_unit c < 8 \<and>
     m_company_id c < 0x1000000"

definition unit_info_received :: "unit_info \<Rightarrow> unit_info \<Rightarrow> unit_info" where
  "unit_info_received y x = (base_received y x)\<lparr>m_reserved := m_reserved x,
     m_unit_type := m_unit_type x, m_unit := m_unit x, m_company_id := m_company_id x\<rparr>"

interpretation unit_info: bus_data UnitInfoCmd_serialize "UnitInfoCmd_deserialize ind"
  unit_info_bytes "\<lambda>x. []" unit_info_proper "\<lambda>y x. True" unit_info_received for ind
proof (rule bus_dataI)
  fix x y assume x: "unit_info_proper x"
  then have b: "base_proper x" by (simp add: unit_info_proper_def)
  show "sends (UnitInfoCmd_serialize x) (unit_info_bytes x)"
    unfolding UnitInfoCmd_serialize_def
    by (rule sends_cong, (rule sends_after sends_base [OF b] sends_writes sends_done)+)
      (simp add: unit_info_bytes_def)
  show "gets (UnitInfoCmd_deserialize ind y) (unit_info_received y x) (unit_info_bytes x)"
    unfolding UnitInfoCmd_deserialize_def unit_info_bytes_def Let_def
    using x company_id_fields [of "m_company_id x"]
    by (intro codec_rules)
      (simp_all add: unit_info_received_def unit_info_proper_def byte_fields or.assoc del: drop_bit_or)
qed

definition pack_entry :: "table_entry \<Rightarrow> byte" where
  "pack_entry e = push_bit 3 (m_subunit_type e) OR (m_max_subunit_id e AND 7)"

definition entry_typed :: "table_entry \<Rightarrow> bool" where
  "entry_typed e \<longleftrightarrow> m_subunit_type e < 32 \<and> m_max_subunit_id e < 8"

definition valid_entries :: "table_entry list \<Rightarrow> u16" where
  "valid_entries es = word_of_nat (length (filter (\<lambda>e. pack_entry e \<noteq> 0xff) es))"

lemma valid_entries_Cons:
  "n + valid_entries (e # es) = (if pack_entry e \<noteq> 0xff then n + 1 else n) + valid_entries es"
  by (simp add: valid_entries_def ac_simps)

lemma gets_table:
  "\<forall>e\<in>set es. entry_typed e \<Longrightarrow>
   gets (read_table (length es) operand t n) (t @ es, n + valid_entries es) (map pack_entry es)"
proof (induction es arbitrary: operand t n)
  case (Cons e es)
  have e: "TableEntry (drop_bit 3 (pack_entry e)) (pack_entry e AND 7) = e"
    using Cons.prems by (simp add: entry_typed_def pack_entry_def byte_fields del: drop_bit_or)
  let ?n = "if pack_entry e \<noteq> 0xff then n + 1 else n"
  have "gets (read_table (length es) (pack_entry e) (t @ [e]) ?n)
      ((t @ [e]) @ es, ?n + valid_entries es) (map pack_entry es)"
    using Cons.prems by (intro Cons.IH) simp
  then have "gets (read_table (length es) (pack_entry e)
        (t @ [TableEntry (drop_bit 3 (pack_entry e)) (pack_entry e AND 7)]) ?n)
      (t @ e # es, n + valid_entries (e # es)) (map pack_entry es)"
    unfolding e valid_entries_Cons by simp
  then show ?case
    unfolding list.size(4) list.map(2) add_Suc_right add_0_right read_table.simps by (rule gets_get_byte)
qed (simp add: gets_give valid_entries_def)

definition subunit_info_bytes :: "subunit_info \<Rightarrow> byte list" where
  "subunit_info_bytes c = base_bytes c @
     (push_bit 4 (subunit_info.m_page c AND 7) OR (m_extension_code c AND 7)) # map pack_entry (m_table c)"

definition subunit_info_typed :: "subunit_info \<Rightarrow> bool" where
  "subunit_info_typed c \<longleftrightarrow> subunit_info.m_page c < 8 \<and> m_extension_code c < 8 \<and>
     length (m_table c) = 4 \<and> (\<forall>e\<in>set (m_table c). entry_typed e) \<and>
     m_nrOfValidEntries c = valid_entries (m_table c)"

definition subunit_info_proper :: "subunit_info \<Rightarrow> bool" where
  "subunit_info_proper c \<longleftrightarrow> base_proper c \<and> subunit_info_typed c"

definition subunit_info_received :: "subunit_info \<Rightarrow> subunit_info \<Rightarrow> subunit_info" where
  "subunit_info_received y x = (base_received y x)\<lparr>subunit_info.m_page := subunit_info.m_page x,
     m_extension_code := m_extension_code x, m_table := m_table x,
     m_nrOfValidEntries := m_nrOfValidEntries x\<rparr>"

interpretation subunit_info: bus_data SubUnitInfoCmd_serialize "SubUnitInfoCmd_deserialize ind"
  subunit_info_bytes "\<lambda>x. []" subunit_info_proper "\<lambda>y x. True" subunit_info_received for ind
proof (rule bus_dataI)
  fix x y assume x: "subunit_info_proper x"
  then have b: "base_proper x" and t: "subunit_info_typed x"
    by (simp_all add: subunit_info_proper_def)
  show "sends (SubUnitInfoCmd_serialize x) (subunit_info_bytes x)"
    unfolding SubUnitInfoCmd_serialize_def
    by (rule sends_cong, (rule sends_after sends_base [OF b] sends_byte sends_writes sends_done)+)
      (simp add: subunit_info_bytes_def pack_entry_def comp_def)
  have tab: "gets (read_table 4 operand [] 0) (m_table x, m_nrOfValidEntries x) (map pack_entry (m_table x))"
    for operand
    using gets_table [of "m_table x" operand "[]" 0] t by (simp add: subunit_info_typed_def)
  show "gets (SubUnitInfoCmd_deserialize ind y) (subunit_info_received y x) (subunit_info_bytes x)"
    unfolding SubUnitInfoCmd_deserialize_def subunit_info_bytes_def Let_def
  proof (intro codec_rules, rule gets_cong [OF gets_get [OF tab gets_end]])
  qed (use t in \<open>simp_all add: subunit_info_received_def subunit_info_typed_def byte_fields
      del: drop_bit_or push_bit_and\<close>)
qed

definition plug_info_bytes :: "plug_info \<Rightarrow> byte list" where
  "plug_info_bytes c = base_bytes c @ m_subFunction c #
     (if getSubunitType c = eST_Unit then
        if m_subFunction c = eSF_SerialBusIsochronousAndExternalPlug then
          [m_serialBusIsochronousInputPlugs c, m_serialBusIsochronousOutputPlugs c,
           m_externalInputPlugs c, m_externalOutputPlugs c]
        else [m_serialBusAsynchronousInputPlugs c, m_serialBusAsynchronousOuputPlugs c, 0xff, 0xff]
      else [m_destinationPlugs c, m_sourcePlugs c, 0xff, 0xff])"

definition plug_info_proper :: "plug_info \<Rightarrow> bool" where
  "plug_info_proper c \<longleftrightarrow> base_proper c \<and> (getSubunitType c = eST_Unit \<longrightarrow>
     m_subFunction c = eSF_SerialBusIsochronousAndExternalPlug \<or>
     m_subFunction c = eSF_SerialBusAsynchonousPlug)"

definition plug_info_received :: "plug_info \<Rightarrow> plug_info \<Rightarrow> plug_info" where
  "plug_info_received y x =
     (let y = (base_received y x)\<lparr>m_subFunction := m_subFunction x\<rparr> in
      if getSubunitType x = eST_Unit then
        if m_subFunction x = eSF_SerialBusIsochronousAndExternalPlug then
          y\<lparr>m_serialBusIsochronousInputPlugs := m_serialBusIsochronousInputPlugs x,
            m_serialBusIsochronousOutputPlugs := m_serialBusIsochronousOutputPlugs x,
            m_externalInputPlugs := m_externalInputPlugs x,
            m_externalOutputPlugs := m_externalOutputPlugs x\<rparr>
        else y\<lparr>m_serialBusAsynchronousInputPlugs := m_serialBusAsynchronousInputPlugs x,
            m_serialBusAsynchronousOuputPlugs := m_serialBusAsynchronousOuputPlugs x\<rparr>
      else y\<lparr>m_destinationPlugs := m_destinationPlugs x, m_sourcePlugs := m_sourcePlugs x\<rparr>)"

lemma getSubunitType_plug_info [simp]:
  "getSubunitType (c\<lparr>m_subFunction := f\<rparr>) = getSubunitType c"
  by (simp add: getSubunitType_def)

interpretation plug_info: bus_data PlugInfoCmd_serialize "PlugInfoCmd_deserialize ind"
  plug_info_bytes "\<lambda>x. []" plug_info_proper "\<lambda>y x. True" plug_info_received for ind
proof (rule bus_dataI)
  fix x y assume x: "plug_info_proper x"
  then have b: "base_proper x" by (simp add: plug_info_proper_def)
  have w: "sends (after (writes vs) (done_with True)) vs" for vs
    using sends_after [OF sends_writes sends_done] by simp
  have "sends (if getSubunitType x = eST_Unit then
             if m_subFunction x = eSF_SerialBusIsochronousAndExternalPlug then
               after (writes [m_serialBusIsochronousInputPlugs x, m_serialBusIsochronousOutputPlugs x,
                   m_externalInputPlugs x, m_externalOutputPlugs x]) (done_with True)
             else if m_subFunction x = eSF_SerialBusAsynchonousPlug then
               after (writes [m_serialBusAsynchronousInputPlugs x, m_serialBusAsynchronousOuputPlugs x,
                   0xff, 0xff]) (done_with True)
             else done_with False
           else after (writes [m_destinationPlugs x, m_sourcePlugs x, 0xff, 0xff]) (done_with True))
      (drop 1 (drop (length (base_bytes x)) (plug_info_bytes x)))"
    using x w by (auto simp: plug_info_bytes_def plug_info_proper_def)
  from sends_after [OF sends_base [OF b] sends_after [OF sends_byte [of "m_subFunction x"] this]]
  show "sends (PlugInfoCmd_serialize x) (plug_info_bytes x)"
    by (simp add: PlugInfoCmd_serialize_def plug_info_bytes_def Let_def)
  show "gets (PlugInfoCmd_deserialize ind y) (plug_info_received y x) (plug_info_bytes x)"
    unfolding PlugInfoCmd_deserialize_def plug_info_bytes_def Let_def get_reads_simps
  proof (intro gets_get_base gets_get_byte gets_if)
  qed (use x in \<open>auto simp: plug_info_received_def plug_info_proper_def Let_def
        intro!: gets_get_byte gets_end\<close>)
qed

definition plug_signal_format_bytes :: "plug_signal_format \<Rightarrow> byte list" where
  "plug_signal_format_bytes c = base_bytes c @ m_plug c #
     (push_bit 7 (m_eoh c AND 1) OR push_bit 6 (m_form c AND 1) OR (m_fmt c AND 0x3f)) # m_fdf c"

definition plug_signal_format_typed :: "plug_signal_format \<Rightarrow> bool" where
  "plug_signal_format_typed c \<longleftrightarrow> m_eoh c < 2 \<and> m_form c < 2 \<and> m_fmt c < 64 \<and> length (m_fdf c) = 3"

definition plug_signal_format_proper :: "plug_signal_format \<Rightarrow> bool" where
  "plug_signal_format_proper c \<longleftrightarrow> base_proper c \<and> plug_signal_format_typed c"

definition plug_signal_format_received ::
    "plug_signal_format \<Rightarrow> plug_signal_format \<Rightarrow> plug_signal_format" where
  "plug_signal_format_received y x = (base_received y x)\<lparr>m_plug := m_plug x, m_eoh := m_eoh x,
     m_form := m_form x, m_fmt := m_fmt x, m_fdf := m_fdf x\<rparr>"

abbreviation "fdf_array y x \<equiv> length (m_fdf y) = 3"

lemma input_output_same:
  "InputPlugSignalFormatCmd_serialize = OutputPlugSignalFormatCmd_serialize"
  "InputPlugSignalFormatCmd_deserialize = OutputPlugSignalFormatCmd_deserialize"
  by (simp_all add: fun_eq_iff InputPlugSignalFormatCmd_serialize_def
      OutputPlugSignalFormatCmd_serialize_def InputPlugSignalFormatCmd_deserialize_def
      OutputPlugSignalFormatCmd_deserialize_def)

lemma base_received_more:
  "m_fdf (base_received y x) = m_fdf y"
  by (simp add: base_received_def)

interpretation output_format: bus_data OutputPlugSignalFormatCmd_serialize
  "OutputPlugSignalFormatCmd_deserialize ind" plug_signal_format_bytes "\<lambda>x. []"
  plug_signal_format_proper fdf_array plug_signal_format_received for ind
proof (rule bus_dataI)
  fix x y :: plug_signal_format
  assume x: "plug_signal_format_proper x"
  then have b: "base_proper x" and t: "plug_signal_format_typed x"
    by (simp_all add: plug_signal_format_proper_def)
  show "sends (OutputPlugSignalFormatCmd_serialize x) (plug_signal_format_bytes x)"
    unfolding OutputPlugSignalFormatCmd_serialize_def
    by (rule sends_cong, (rule sends_also_ok sends_base [OF b] sends_byte sends_writes)+)
      (simp add: plug_signal_format_bytes_def)
  assume y: "fdf_array y x"
  have f: "gets (reads (m_fdf (base_received y x))) (m_fdf x) (m_fdf x)"
    using t y by (intro gets_reads) (simp add: base_received_more plug_signal_format_typed_def)
  show "gets (OutputPlugSignalFormatCmd_deserialize ind y) (plug_signal_format_received y x)
      (plug_signal_format_bytes x)"
    unfolding OutputPlugSignalFormatCmd_deserialize_def plug_signal_format_bytes_def
  proof (intro codec_rules, rule gets_cong [OF gets_get [OF f gets_end]])
  qed (use t in \<open>simp_all add: plug_signal_format_received_def plug_signal_format_typed_def
      signal_format_fields del: drop_bit_or push_bit_and drop_bit_and\<close>)
qed

interpretation input_format: bus_data InputPlugSignalFormatCmd_serialize
  "InputPlugSignalFormatCmd_deserialize ind" plug_signal_format_bytes "\<lambda>x. []"
  plug_signal_format_proper fdf_array plug_signal_format_received for ind
  unfolding input_output_same by (rule output_format.bus_data_axioms)

definition vendor_dependent_bytes :: "vendor_dependent \<Rightarrow> byte list" where
  "vendor_dependent_bytes c = base_bytes c @ [ucast (drop_bit 16 (m_companyId c) AND 0xff),
     ucast (drop_bit 8 (m_companyId c) AND 0xff), ucast (m_companyId c AND 0xff)]"

definition vendor_dependent_proper :: "vendor_dependent \<Rightarrow> bool" where
  "vendor_dependent_proper c \<longleftrightarrow> base_proper c \<and> m_companyId c < 0x1000000"

definition vendor_dependent_received ::
    "vendor_dependent \<Rightarrow> vendor_dependent \<Rightarrow> vendor_dependent" where
  "vendor_dependent_received y x = (base_received y x)\<lparr>m_companyId := m_companyId x\<rparr>"

interpretation vendor_dependent: bus_data VendorDependentCmd_serialize
  "VendorDependentCmd_deserialize ind" vendor_dependent_bytes "\<lambda>x. []"
  vendor_dependent_proper "\<lambda>y x. True" vendor_dependent_received for ind
proof (rule bus_dataI)
  fix x y assume x: "vendor_dependent_proper x"
  then have b: "base_proper x" and t: "m_companyId x < 0x1000000"
    by (simp_all add: vendor_dependent_proper_def)
  show "sends (VendorDependentCmd_serialize x) (vendor_dependent_bytes x)"
    unfolding VendorDependentCmd_serialize_def
    by (rule sends_cong, (rule sends_also_ok sends_base [OF b] sends_writes)+)
      (simp add: vendor_dependent_bytes_def)
  show "gets (VendorDependentCmd_deserialize ind y) (vendor_dependent_received y x)
      (vendor_dependent_bytes x)"
    unfolding VendorDependentCmd_deserialize_def vendor_dependent_bytes_def get_reads_simps
    using company_id_fields [OF t]
    by (intro codec_rules) (simp_all add: vendor_dependent_received_def or.assoc)
qed

section \<open>Pages of the extended subunit info\<close>

definition page_bytes :: "page_data \<Rightarrow> byte list" where
  "page_bytes p = [m_functionBlockType p, m_functionBlockId p, m_functionBlockSpecialPupose p,
     m_noOfInputPlugs p, m_noOfOutputPlugs p]"

interpretation page_data: bus_data PageData_serialize PageData_deserialize page_bytes "\<lambda>x. []"
  "\<lambda>x. True" "\<lambda>y x. True" "\<lambda>y x. x"
proof (rule bus_dataI)
  fix x y
  show "sends (PageData_serialize x) (page_bytes x)"
    using sends_after [OF sends_writes sends_done] by (simp add: PageData_serialize_def page_bytes_def)
  show "gets (PageData_deserialize y) x (page_bytes x)"
    unfolding PageData_deserialize_def page_bytes_def get_reads_simps
    by (intro gets_get_byte gets_end) simp_all
qed

lemma length_page_bytes [simp]: "length (page_bytes p) = 5"
  by (simp add: page_bytes_def)

definition page_typed :: "page_data \<Rightarrow> bool" where
  "page_typed p \<longleftrightarrow> m_functionBlockType p \<noteq> 0xff"

text \<open>
  Up to five pages are parsed; fewer are ended by a byte \<open>0xff\<close>, which stays unread.
\<close>

lemma gets_pages:
  assumes "\<forall>p\<in>set ps. page_typed p" "length ps \<le> n" "cursor_ok d"
    "ahead d = concat (map page_bytes ps) @ rest" "length ps < n \<longrightarrow> rest \<noteq> [] \<and> hd rest = 0xff"
  shows "read_pages ind i n True acc d
    = Inr ((True, acc @ ps), advance (length (concat (map page_bytes ps))) d)"
  using assms
proof (induction n arbitrary: i acc ps d)
  case (Suc n)
  show ?case
  proof (cases ps)
    case Nil
    then obtain rs where "ahead d = 0xff # rs" using Suc.prems by (cases rest) auto
    then show ?thesis
      using Nil peek_byte_ahead [OF Suc.prems(3)] by (simp add: get_def give_def)
  next
    case (Cons p qs)
    have ah: "ahead d = page_bytes p @ concat (map page_bytes qs) @ rest"
      using Suc.prems(4) Cons by simp
    have pk: "peek_byte (ind i) d = Inr ((True, m_functionBlockType p), d)"
      using peek_byte_ahead [OF Suc.prems(3)] ah by (simp add: page_bytes_def)
    have rd: "PageData_deserialize PageData_new d = Inr ((True, p), advance 5 d)"
      using page_data.deserialize_parses [where x = p and y = PageData_new] Suc.prems(3) ah by simp
    have "read_pages ind (Suc i) n True (acc @ [p]) (advance 5 d)
        = Inr ((True, (acc @ [p]) @ qs), advance (length (concat (map page_bytes qs))) (advance 5 d))"
      using Suc.prems Cons ahead_advance [OF Suc.prems(3) ah] by (intro Suc.IH) auto
    then show ?thesis
      using Cons pk rd Suc.prems(1) by (simp add: get_def page_typed_def)
  qed
qed (simp add: give_def)

definition extended_subunit_info_bytes :: "extended_subunit_info \<Rightarrow> byte list" where
  "extended_subunit_info_bytes c = base_bytes c @ m_page c # m_fbType c #
     concat (map page_bytes (m_infoPageDatas c))"

definition extended_subunit_info_pad :: "extended_subunit_info \<Rightarrow> byte list" where
  "extended_subunit_info_pad c = replicate (25 - 5 * length (m_infoPageDatas c)) 0xff"

definition extended_subunit_info_proper :: "extended_subunit_info \<Rightarrow> bool" where
  "extended_subunit_info_proper c \<longleftrightarrow> base_proper c \<and> length (m_infoPageDatas c) \<le> 5 \<and>
     (\<forall>p\<in>set (m_infoPageDatas c). page_typed p)"

text \<open>The received pages are appended: the vector is never cleared.\<close>

definition extended_subunit_info_received ::
    "extended_subunit_info \<Rightarrow> extended_subunit_info \<Rightarrow> extended_subunit_info" where
  "extended_subunit_info_received y x = (base_received y x)\<lparr>m_page := m_page x, m_fbType := m_fbType x,
     m_infoPageDatas := m_infoPageDatas y @ m_infoPageDatas x\<rparr>"

lemma sends_extended_subunit_info:
  assumes "base_proper c"
  shows "sends (ExtendedSubunitInfoCmd_serialize c)
    (extended_subunit_info_bytes c @ extended_subunit_info_pad c)"
proof -
  let ?f = "also_ok (AVCCommand_serialize c) (also_ok (write_byte (m_page c))
      (also_ok (write_byte (m_fbType c)) (serialize_each PageData_serialize (m_infoPageDatas c))))"
  have "sends (serialize_each PageData_serialize (m_infoPageDatas c))
      (concat (map page_bytes (m_infoPageDatas c)))"
    using page_data.serialize_sends by (intro sends_each) simp
  from sends_also_ok [OF sends_base [OF assms] sends_also_ok [OF sends_byte sends_also_ok [OF sends_byte this]]]
  have f: "sends ?f (extended_subunit_info_bytes c)"
    by (simp add: extended_subunit_info_bytes_def)
  have g: "sends (after (writes (extended_subunit_info_pad c)) (done_with True)) (extended_subunit_info_pad c)"
    using sends_after [OF sends_writes sends_done] by simp
  have "sends (after ?f (after (writes (extended_subunit_info_pad c)) (done_with True)))
      (extended_subunit_info_bytes c @ extended_subunit_info_pad c)"
    by (rule sends_after [OF f g])
  moreover have "ExtendedSubunitInfoCmd_serialize c s
      = after ?f (after (writes (extended_subunit_info_pad c)) (done_with True)) s"
    if "fits s (length (extended_subunit_info_bytes c @ extended_subunit_info_pad c))" for s
  proof -
    have "?f s = Inr (True, put s (extended_subunit_info_bytes c))"
      using f that fits_mono by (auto simp: sends_def)
    then show ?thesis
      by (simp add: ExtendedSubunitInfoCmd_serialize_def Let_def after_def
          extended_subunit_info_pad_def mult.commute)
  qed
  ultimately show ?thesis by (simp add: sends_def)
qed

text \<open>
  Unlike with the other commands, what is parsed depends on the byte that follows: the padding
  ends the pages, and the parser leaves it unread.
\<close>

lemma extended_subunit_info_parsed:
  assumes x: "extended_subunit_info_proper x" and d: "cursor_ok d"
    and ah: "ahead d = extended_subunit_info_bytes x @ extended_subunit_info_pad x @ rest"
  shows "ExtendedSubunitInfoCmd_deserialize ind y d
    = Inr ((True, extended_subunit_info_received y x), advance (length (extended_subunit_info_bytes x)) d)"
proof -
  let ?c = "base_received y x" and ?ps = "concat (map page_bytes (m_infoPageDatas x))"
  let ?d = "advance 3 d"
  have c: "AVCCommand_deserialize y d = Inr ((True, ?c), ?d)"
    using gets_base [of y x] d ah unfolding gets_def extended_subunit_info_bytes_def
    by (simp add: base_bytes_def numeral_3_eq_3)
  have a3: "ahead ?d = m_page x # m_fbType x # ?ps @ extended_subunit_info_pad x @ rest"
    using ahead_advance [OF d, of "base_bytes x"] ah
    by (simp add: extended_subunit_info_bytes_def base_bytes_def numeral_3_eq_3)
  have r1: "read_byte v ?d = Inr ((True, m_page x), advance 4 d)" for v
    using read_byte_ahead [OF _ a3] d by simp
  have a4: "ahead (advance 4 d) = m_fbType x # ?ps @ extended_subunit_info_pad x @ rest"
    using ahead_Cons(3) [OF _ a3] d by simp
  have r2: "read_byte v (advance 4 d) = Inr ((True, m_fbType x), advance 5 d)" for v
    using read_byte_ahead [OF _ a4] d by simp
  have a5: "ahead (advance 5 d) = ?ps @ extended_subunit_info_pad x @ rest"
    using ahead_Cons(3) [OF _ a4] d by simp
  have "read_pages ind 0 5 True acc (advance 5 d)
      = Inr ((True, acc @ m_infoPageDatas x), advance (length ?ps) (advance 5 d))" for acc
    using x a5 d by (intro gets_pages) (auto simp: extended_subunit_info_proper_def
        extended_subunit_info_pad_def numeral_eq_Suc)
  then show ?thesis
    using c r1 r2
    by (simp add: ExtendedSubunitInfoCmd_deserialize_def get_def give_def base_received_def
        extended_subunit_info_received_def extended_subunit_info_bytes_def base_bytes_def
        del: One_nat_def)
qed

interpretation extended_subunit_info: bus_data ExtendedSubunitInfoCmd_serialize
  "ExtendedSubunitInfoCmd_deserialize ind" extended_subunit_info_bytes extended_subunit_info_pad
  extended_subunit_info_proper "\<lambda>y x. True" extended_subunit_info_received for ind
  by unfold_locales
    (simp_all add: extended_subunit_info_parsed sends_extended_subunit_info extended_subunit_info_proper_def)

end
