(* ===== verification/AVC_Addresses.thy ===== *)
theory AVC_Addresses
  imports AVC_Generic
begin

text \<open>
  Addresses inside AV/C commands: the signal addresses with the signal source command
  (\<open>libavc/ccm/avc_signal_source.cpp\<close>) and the plug addresses of the extended commands
  (\<open>libavc/general/avc_extended_cmd_generic.cpp\<close>).

  A pointer to an abstract address class is a value of a datatype with one constructor per derived
  class; a call of a virtual method dispatches on the constructor.
\<close>

section \<open>Signal addresses\<close>

datatype signal_address =
    SignalUnitAddress (m_plugId: byte)
  | SignalSubunitAddress (m_subunitType: byte) (m_subunitId: byte) (m_plugId: byte)

abbreviation (input) "ePI_Invalid \<equiv> (0xfe :: byte)"
abbreviation (input) "AVC1394_SUBUNIT_ID_RESERVED \<equiv> (0x06 :: byte)"

definition SignalUnitAddress_new :: signal_address where
  "SignalUnitAddress_new = SignalUnitAddress ePI_Invalid"

definition SignalUnitAddress_serialize :: "byte \<Rightarrow> writer" where
  "SignalUnitAddress_serialize plugId =
     (let reserved = 0xff in after (writes [reserved, plugId]) (done_with True))"

definition SignalUnitAddress_deserialize :: "indeterminate \<Rightarrow> byte \<Rightarrow> signal_address reader" where
  "SignalUnitAddress_deserialize ind plugId =
     get (reads [ind 0, plugId]) (\<lambda>_ vs. give True (SignalUnitAddress (vs ! 1)))"

definition SignalSubunitAddress_new :: signal_address where
  "SignalSubunitAddress_new =
     SignalSubunitAddress eST_Reserved AVC1394_SUBUNIT_ID_RESERVED ePI_Invalid"

definition SignalSubunitAddress_serialize :: "byte \<Rightarrow> byte \<Rightarrow> byte \<Rightarrow> writer" where
  "SignalSubunitAddress_serialize subunitType subunitId plugId =
     after (writes [push_bit 3 subunitType OR (subunitId AND 7), plugId]) (done_with True)"

definition SignalSubunitAddress_deserialize ::
    "indeterminate \<Rightarrow> byte \<Rightarrow> signal_address reader" where
  "SignalSubunitAddress_deserialize ind plugId =
     get (read_byte (ind 0)) (\<lambda>_ operand.
     get (read_byte plugId) (\<lambda>_ p.
       give True (SignalSubunitAddress (drop_bit 3 operand) (operand AND 7) p)))"

primrec SignalAddress_serialize :: "signal_address \<Rightarrow> writer" where
  "SignalAddress_serialize (SignalUnitAddress p) = SignalUnitAddress_serialize p"
| "SignalAddress_serialize (SignalSubunitAddress t i p) = SignalSubunitAddress_serialize t i p"

primrec SignalAddress_deserialize :: "indeterminate \<Rightarrow> signal_address \<Rightarrow> signal_address reader" where
  "SignalAddress_deserialize ind (SignalUnitAddress p) = SignalUnitAddress_deserialize ind p"
| "SignalAddress_deserialize ind (SignalSubunitAddress t i p) = SignalSubunitAddress_deserialize ind p"

section \<open>The signal source command\<close>

record signal_source = avc_command +
  m_resultStatus :: byte
  m_outputStatus :: byte
  m_conv :: byte
  m_signalStatus :: byte
  m_signalSource :: "signal_address option"
  m_signalDestination :: "signal_address option"

definition SignalSourceCmd :: "byte list \<Rightarrow> byte \<Rightarrow> signal_source" where
  "SignalSourceCmd f ct = avc_command.extend (AVCCommand 0x1A f ct)
     (signal_source.fields 0xff 0xff 0xff 0xff None None)"

definition setSignalSource :: "signal_address \<Rightarrow> signal_source \<Rightarrow> signal_source" where
  "setSignalSource a c = c\<lparr>m_signalSource := Some a\<rparr>"

definition setSignalDestination :: "signal_address \<Rightarrow> signal_source \<Rightarrow> signal_source" where
  "setSignalDestination a c = c\<lparr>m_signalDestination := Some a\<rparr>"

definition serialize_or_reserved :: "signal_address option \<Rightarrow> writer" where
  "serialize_or_reserved a =
     (case a of Some a \<Rightarrow> SignalAddress_serialize a | None \<Rightarrow> writes [0xff, 0xff])"

definition SignalSourceCmd_serialize :: "signal_source \<Rightarrow> writer" where
  "SignalSourceCmd_serialize c =
     after (AVCCommand_serialize c)
       (let addresses =
          (if getSubunitType c \<in> {eST_Unit, eST_Audio, eST_Music} then
             after (serialize_or_reserved (m_signalSource c))
               (after (serialize_or_reserved (m_signalDestination c)) (done_with True))
           else done_with False)
        in if getCommandType c = eCT_Status then
             after (write_byte (push_bit 5 (m_outputStatus c) OR push_bit 4 (m_conv c AND 1)
                 OR (m_signalStatus c AND 0xf))) addresses
           else if getCommandType c \<in> {eCT_Control, eCT_SpecificInquiry} then
             after (write_byte (m_resultStatus c AND 0xf)) addresses
           else done_with False)"

definition new_signal_address :: "byte \<Rightarrow> signal_address" where
  "new_signal_address operand =
     (if operand = 0xff then SignalUnitAddress_new else SignalSubunitAddress_new)"

definition SignalSource_addresses :: "indeterminate \<Rightarrow> signal_source \<Rightarrow> signal_source reader" where
  "SignalSource_addresses ind c =
     (if getSubunitType c \<in> {eST_Unit, eST_Audio, eST_Music} then
        get (peek_byte (ind 1)) (\<lambda>_ operand.
        get (SignalAddress_deserialize ind (new_signal_address operand)) (\<lambda>_ source.
        get (peek_byte operand) (\<lambda>_ operand.
        get (SignalAddress_deserialize ind (new_signal_address operand)) (\<lambda>_ destination.
          give True (c\<lparr>m_signalSource := Some source, m_signalDestination := Some destination\<rparr>)))))
      else give False c)"

definition SignalSourceCmd_deserialize ::
    "indeterminate \<Rightarrow> signal_source \<Rightarrow> signal_source reader" where
  "SignalSourceCmd_deserialize ind c =
     get (AVCCommand_deserialize (c\<lparr>m_signalSource := None, m_signalDestination := None\<rparr>)) (\<lambda>_ c.
       if getCommandType c = eCT_Status then
         get (read_byte (ind 0)) (\<lambda>_ operand.
           SignalSource_addresses ind (c\<lparr>m_outputStatus := drop_bit 5 operand,
             m_conv := drop_bit 4 (operand AND 0x10), m_signalStatus := operand AND 0xf\<rparr>))
       else if getCommandType c \<in> {eCT_Control, eCT_SpecificInquiry} then
         get (read_byte (ind 0)) (\<lambda>_ operand.
           SignalSource_addresses ind (c\<lparr>m_resultStatus := operand AND 0xf\<rparr>))
       else give False c)"

section \<open>Plug addresses\<close>

datatype plug_address_data =
    UnitPlugAddress (m_plugType: byte) (m_plugId: byte) (m_reserved: byte)
  | SubunitPlugAddress (m_plugId: byte) (m_reserved0: byte) (m_reserved1: byte)
  | FunctionBlockPlugAddress (m_functionBlockType: byte) (m_functionBlockId: byte) (m_plugId: byte)
  | UndefinedPlugAddress (m_reserved0: byte) (m_reserved1: byte) (m_reserved2: byte)
  | UnitPlugSpecificDataPlugAddress (m_plugType: byte) (m_plugId: byte)
      (m_reserved0: byte) (m_reserved1: byte) (m_reserved2: byte)
  | SubunitPlugSpecificDataPlugAddress (m_subunitType: byte) (m_subunitId: byte) (m_plugId: byte)
      (m_reserved0: byte) (m_reserved1: byte)
  | FunctionBlockPlugSpecificDataPlugAddress (m_subunitType: byte) (m_subunitId: byte)
      (m_functionBlockType: byte) (m_functionBlockId: byte) (m_plugId: byte)
  | UndefinedPlugSpecificDataPlugAddress (m_reserved0: byte) (m_reserved1: byte) (m_reserved2: byte)
      (m_reserved3: byte) (m_reserved4: byte)

definition UnitPlugAddress_new :: "byte \<Rightarrow> byte \<Rightarrow> plug_address_data" where
  "UnitPlugAddress_new plugType plugId = UnitPlugAddress plugType plugId 0xff"

definition UnitPlugAddress_serialize :: "byte \<Rightarrow> byte \<Rightarrow> byte \<Rightarrow> writer" where
  "UnitPlugAddress_serialize plugType plugId reserved =
     after (writes [plugType, plugId, reserved]) (done_with True)"

definition UnitPlugAddress_deserialize :: "byte \<Rightarrow> byte \<Rightarrow> byte \<Rightarrow> plug_address_data reader" where
  "UnitPlugAddress_deserialize plugType plugId reserved =
     get (reads [plugType, plugId, reserved]) (\<lambda>_ v.
       give True (UnitPlugAddress (v ! 0) (v ! 1) (v ! 2)))"

definition SubunitPlugAddress_new :: "byte \<Rightarrow> plug_address_data" where
  "SubunitPlugAddress_new plugId = SubunitPlugAddress plugId 0xff 0xff"

definition SubunitPlugAddress_serialize :: "byte \<Rightarrow> byte \<Rightarrow> byte \<Rightarrow> writer" where
  "SubunitPlugAddress_serialize plugId reserved0 reserved1 =
     after (writes [plugId, reserved0, reserved1]) (done_with True)"

definition SubunitPlugAddress_deserialize :: "byte \<Rightarrow> byte \<Rightarrow> byte \<Rightarrow> plug_address_data reader" where
  "SubunitPlugAddress_deserialize plugId reserved0 reserved1 =
     get (reads [plugId, reserved0, reserved1]) (\<lambda>_ v.
       give True (SubunitPlugAddress (v ! 0) (v ! 1) (v ! 2)))"

definition FunctionBlockPlugAddress_new :: "byte \<Rightarrow> byte \<Rightarrow> byte \<Rightarrow> plug_address_data" where
  "FunctionBlockPlugAddress_new functionBlockType functionBlockId plugId =
     FunctionBlockPlugAddress functionBlockType functionBlockId plugId"

definition FunctionBlockPlugAddress_serialize :: "byte \<Rightarrow> byte \<Rightarrow> byte \<Rightarrow> writer" where
  "FunctionBlockPlugAddress_serialize functionBlockType functionBlockId plugId =
     after (writes [functionBlockType, functionBlockId, plugId]) (done_with True)"

definition FunctionBlockPlugAddress_deserialize ::
    "byte \<Rightarrow> byte \<Rightarrow> byte \<Rightarrow> plug_address_data reader" where
  "FunctionBlockPlugAddress_deserialize functionBlockType functionBlockId plugId =
     get (reads [functionBlockType, functionBlockId, plugId]) (\<lambda>_ v.
       give True (FunctionBlockPlugAddress (v ! 0) (v ! 1) (v ! 2)))"

definition UndefinedPlugAddress_new :: plug_address_data where
  "UndefinedPlugAddress_new = UndefinedPlugAddress 0xff 0xff 0xff"

definition UndefinedPlugAddress_serialize :: "byte \<Rightarrow> byte \<Rightarrow> byte \<Rightarrow> writer" where
  "UndefinedPlugAddress_serialize reserved0 reserved1 reserved2 =
     after (writes [reserved0, reserved1, reserved2]) (done_with True)"

definition UndefinedPlugAddress_deserialize :: "byte \<Rightarrow> byte \<Rightarrow> byte \<Rightarrow> plug_address_data reader" where
  "UndefinedPlugAddress_deserialize reserved0 reserved1 reserved2 =
     get (reads [reserved0, reserved1, reserved2]) (\<lambda>_ v.
       give True (UndefinedPlugAddress (v ! 0) (v ! 1) (v ! 2)))"

definition UnitPlugSpecificData_new :: "byte \<Rightarrow> byte \<Rightarrow> plug_address_data" where
  "UnitPlugSpecificData_new plugType plugId =
     UnitPlugSpecificDataPlugAddress plugType plugId 0xff 0xff 0xff"

definition UnitPlugSpecificData_serialize ::
    "byte \<Rightarrow> byte \<Rightarrow> byte \<Rightarrow> byte \<Rightarrow> byte \<Rightarrow> writer" where
  "UnitPlugSpecificData_serialize plugType plugId reserved0 reserved1 reserved2 =
     after (writes [plugType, plugId, reserved0, reserved1, reserved2]) (done_with True)"

definition UnitPlugSpecificData_deserialize ::
    "byte \<Rightarrow> byte \<Rightarrow> byte \<Rightarrow> byte \<Rightarrow> byte \<Rightarrow> plug_address_data reader" where
  "UnitPlugSpecificData_deserialize plugType plugId reserved0 reserved1 reserved2 =
     get (reads [plugType, plugId, reserved0, reserved1, reserved2]) (\<lambda>_ v.
       give True (UnitPlugSpecificDataPlugAddress (v ! 0) (v ! 1) (v ! 2) (v ! 3) (v ! 4)))"

definition SubunitPlugSpecificData_new :: "byte \<Rightarrow> byte \<Rightarrow> byte \<Rightarrow> plug_address_data" where
  "SubunitPlugSpecificData_new subunitType subunitId plugId =
     SubunitPlugSpecificDataPlugAddress subunitType subunitId plugId 0xff 0xff"

definition SubunitPlugSpecificData_serialize ::
    "byte \<Rightarrow> byte \<Rightarrow> byte \<Rightarrow> byte \<Rightarrow> byte \<Rightarrow> writer" where
  "SubunitPlugSpecificData_serialize subunitType subunitId plugId reserved0 reserved1 =
     after (writes [subunitType, subunitId, plugId, reserved0, reserved1]) (done_with True)"

definition SubunitPlugSpecificData_deserialize ::
    "byte \<Rightarrow> byte \<Rightarrow> byte \<Rightarrow> byte \<Rightarrow> byte \<Rightarrow> plug_address_data reader" where
  "SubunitPlugSpecificData_deserialize subunitType subunitId plugId reserved0 reserved1 =
     get (reads [subunitType, subunitId, plugId, reserved0, reserved1]) (\<lambda>_ v.
       give True (SubunitPlugSpecificDataPlugAddress (v ! 0) (v ! 1) (v ! 2) (v ! 3) (v ! 4)))"

definition FunctionBlockPlugSpecificData_new ::
    "byte \<Rightarrow> byte \<Rightarrow> byte \<Rightarrow> byte \<Rightarrow> byte \<Rightarrow> plug_address_data" where
  "FunctionBlockPlugSpecificData_new subunitType subunitId functionBlockType functionBlockId plugId =
     FunctionBlockPlugSpecificDataPlugAddress subunitType subunitId functionBlockType functionBlockId plugId"

definition FunctionBlockPlugSpecificData_serialize ::
    "byte \<Rightarrow> byte \<Rightarrow> byte \<Rightarrow> byte \<Rightarrow> byte \<Rightarrow> writer" where
  "FunctionBlockPlugSpecificData_serialize subunitType subunitId functionBlockType functionBlockId plugId =
     after (writes [subunitType, subunitId, functionBlockType, functionBlockId, plugId]) (done_with True)"

definition FunctionBlockPlugSpecificData_deserialize ::
    "byte \<Rightarrow> byte \<Rightarrow> byte \<Rightarrow> byte \<Rightarrow> byte \<Rightarrow> plug_address_data reader" where
  "FunctionBlockPlugSpecificData_deserialize subunitType subunitId functionBlockType functionBlockId plugId =
     get (reads [subunitType, subunitId, functionBlockType, functionBlockId, plugId]) (\<lambda>_ v.
       give True (FunctionBlockPlugSpecificDataPlugAddress (v ! 0) (v ! 1) (v ! 2) (v ! 3) (v ! 4)))"

definition UndefinedPlugSpecificData_new :: plug_address_data where
  "UndefinedPlugSpecificData_new = UndefinedPlugSpecificDataPlugAddress 0xff 0xff 0xff 0xff 0xff"

definition UndefinedPlugSpecificData_serialize ::
    "byte \<Rightarrow> byte \<Rightarrow> byte \<Rightarrow> byte \<Rightarrow> byte \<Rightarrow> writer" where
  "UndefinedPlugSpecificData_serialize reserved0 reserved1 reserved2 reserved3 reserved4 =
     after (writes [reserved0, reserved1, reserved2, reserved3, reserved4]) (done_with True)"

definition UndefinedPlugSpecificData_deserialize ::
    "byte \<Rightarrow> byte \<Rightarrow> byte \<Rightarrow> byte \<Rightarrow> byte \<Rightarrow> plug_address_data reader" where
  "UndefinedPlugSpecificData_deserialize reserved0 reserved1 reserved2 reserved3 reserved4 =
     get (reads [reserved0, reserved1, reserved2, reserved3, reserved4]) (\<lambda>_ v.
       give True (UndefinedPlugSpecificDataPlugAddress (v ! 0) (v ! 1) (v ! 2) (v ! 3) (v ! 4)))"

primrec PlugAddressData_serialize :: "plug_address_data \<Rightarrow> writer" where
  "PlugAddressData_serialize (UnitPlugAddress a b c) = UnitPlugAddress_serialize a b c"
| "PlugAddressData_serialize (SubunitPlugAddress a b c) = SubunitPlugAddress_serialize a b c"
| "PlugAddressData_serialize (FunctionBlockPlugAddress a b c) = FunctionBlockPlugAddress_serialize a b c"
| "PlugAddressData_serialize (UndefinedPlugAddress a b c) = UndefinedPlugAddress_serialize a b c"
| "PlugAddressData_serialize (UnitPlugSpecificDataPlugAddress a b c d e) =
     UnitPlugSpecificData_serialize a b c d e"
| "PlugAddressData_serialize (SubunitPlugSpecificDataPlugAddress a b c d e) =
     SubunitPlugSpecificData_serialize a b c d e"
| "PlugAddressData_serialize (FunctionBlockPlugSpecificDataPlugAddress a b c d e) =
     FunctionBlockPlugSpecificData_serialize a b c d e"
| "PlugAddressData_serialize (UndefinedPlugSpecificDataPlugAddress a b c d e) =
     UndefinedPlugSpecificData_serialize a b c d e"

primrec PlugAddressData_deserialize :: "plug_address_data \<Rightarrow> plug_address_data reader" where
  "PlugAddressData_deserialize (UnitPlugAddress a b c) = UnitPlugAddress_deserialize a b c"
| "PlugAddressData_deserialize (SubunitPlugAddress a b c) = SubunitPlugAddress_deserialize a b c"
| "PlugAddressData_deserialize (FunctionBlockPlugAddress a b c) = FunctionBlockPlugAddress_deserialize a b c"
| "PlugAddressData_deserialize (UndefinedPlugAddress a b c) = UndefinedPlugAddress_deserialize a b c"
| "PlugAddressData_deserialize (UnitPlugSpecificDataPlugAddress a b c d e) =
     UnitPlugSpecificData_deserialize a b c d e"
| "PlugAddressData_deserialize (SubunitPlugSpecificDataPlugAddress a b c d e) =
     SubunitPlugSpecificData_deserialize a b c d e"
| "PlugAddressData_deserialize (FunctionBlockPlugSpecificDataPlugAddress a b c d e) =
     FunctionBlockPlugSpecificData_deserialize a b c d e"
| "PlugAddressData_deserialize (UndefinedPlugSpecificDataPlugAddress a b c d e) =
     UndefinedPlugSpecificData_deserialize a b c d e"

text \<open>
  \<open>PlugAddress\<close> and \<open>PlugAddressSpecificData\<close> have the same members. The first parses into the
  address object it has, the second replaces it by a new one of the class the address mode names.
\<close>

datatype plug_address = PlugAddress
  (m_plugDirection: byte) (m_addressMode: byte) (m_plugAddressData: plug_address_data)

abbreviation (input) "ePD_Output \<equiv> (0x01 :: byte)"
abbreviation (input) "ePAM_Unit \<equiv> (0x00 :: byte)"
abbreviation (input) "ePAM_Subunit \<equiv> (0x01 :: byte)"
abbreviation (input) "ePAM_FunctionBlock \<equiv> (0x02 :: byte)"
abbreviation (input) "ePT_PCR \<equiv> (0x00 :: byte)"

definition PlugAddress_undefined :: plug_address where
  "PlugAddress_undefined = PlugAddress 0xff 0xff UndefinedPlugAddress_new"

definition PlugAddress_serialize :: "plug_address \<Rightarrow> writer" where
  "PlugAddress_serialize p =
     after (writes [m_plugDirection p, m_addressMode p])
       (PlugAddressData_serialize (m_plugAddressData p))"

definition PlugAddress_deserialize :: "plug_address \<Rightarrow> plug_address reader" where
  "PlugAddress_deserialize p =
     get (reads [m_plugDirection p, m_addressMode p]) (\<lambda>_ v.
     get (PlugAddressData_deserialize (m_plugAddressData p)) (\<lambda>b a.
       give b (PlugAddress (v ! 0) (v ! 1) a)))"

definition PlugAddressSpecificData_serialize :: "plug_address \<Rightarrow> writer" where
  "PlugAddressSpecificData_serialize p =
     after (writes [m_plugDirection p, m_addressMode p])
       (PlugAddressData_serialize (m_plugAddressData p))"

definition new_specific_data :: "byte \<Rightarrow> plug_address_data" where
  "new_specific_data mode =
     (if mode = ePAM_Unit then UnitPlugSpecificData_new ePT_PCR 0xff
      else if mode = ePAM_Subunit then SubunitPlugSpecificData_new eST_Reserved 0xff 0xff
      else if mode = ePAM_FunctionBlock then
        FunctionBlockPlugSpecificData_new eST_Reserved 0xff 0xff 0xff 0xff
      else UndefinedPlugSpecificData_new)"

definition PlugAddressSpecificData_deserialize :: "plug_address \<Rightarrow> plug_address reader" where
  "PlugAddressSpecificData_deserialize p =
     get (reads [m_plugDirection p, m_addressMode p]) (\<lambda>_ v.
     get (PlugAddressData_deserialize (new_specific_data (v ! 1))) (\<lambda>b a.
       give b (PlugAddress (v ! 0) (v ! 1) a)))"

definition plugAddressDirectionStrings :: "string list" where
  "plugAddressDirectionStrings = [''Input'', ''Output'', ''Undefined'']"

definition plugAddressPlugDirectionToString :: "byte \<Rightarrow> string result" where
  "plugAddressPlugDirectionToString direction =
     (let direction = (if ePD_Output < direction then 0xff else direction)
      in string_at plugAddressDirectionStrings direction)"

definition plugAddressAddressModeStrings :: "string list" where
  "plugAddressAddressModeStrings = [''Unit'', ''Subunit'', ''FunctionBlock'', ''Undefined'']"

definition plugAddressAddressModeToString :: "byte \<Rightarrow> string result" where
  "plugAddressAddressModeToString mode =
     (let mode = (if ePAM_FunctionBlock < mode then ePAM_FunctionBlock else mode)
      in string_at plugAddressAddressModeStrings mode)"

section \<open>Signal addresses as data classes\<close>

primrec signal_address_bytes :: "signal_address \<Rightarrow> byte list" where
  "signal_address_bytes (SignalUnitAddress p) = [0xff, p]"
| "signal_address_bytes (SignalSubunitAddress t i p) = [push_bit 3 t OR (i AND 7), p]"

primrec signal_address_proper :: "signal_address \<Rightarrow> bool" where
  "signal_address_proper (SignalUnitAddress p) \<longleftrightarrow> True"
| "signal_address_proper (SignalSubunitAddress t i p) \<longleftrightarrow>
     t < 32 \<and> i < 8 \<and> push_bit 3 t OR (i AND 7) \<noteq> 0xff"

interpretation signal_address: bus_data SignalAddress_serialize "SignalAddress_deserialize ind"
  signal_address_bytes "\<lambda>x. []" signal_address_proper
  "\<lambda>y x. is_SignalUnitAddress y = is_SignalUnitAddress x" "\<lambda>y x. x" for ind
proof (rule bus_dataI)
  fix x y
  show "sends (SignalAddress_serialize x) (signal_address_bytes x)"
    by (cases x) (simp_all add: SignalUnitAddress_serialize_def SignalSubunitAddress_serialize_def
        sends_then_true sends_writes)
  assume x: "signal_address_proper x" "is_SignalUnitAddress y = is_SignalUnitAddress x"
  have u: "gets (SignalUnitAddress_deserialize ind q) (SignalUnitAddress p) [0xff, p]" for p q
    unfolding SignalUnitAddress_deserialize_def get_reads_simps
    by (intro gets_get_byte gets_end) simp_all
  have s: "gets (SignalSubunitAddress_deserialize ind q) (SignalSubunitAddress t i p)
      [push_bit 3 t OR (i AND 7), p]" if "t < 32" "i < 8" for p q t i
    unfolding SignalSubunitAddress_deserialize_def
    using that by (intro gets_get_byte gets_end) (simp_all add: byte_fields del: drop_bit_or)
  show "gets (SignalAddress_deserialize ind y) x (signal_address_bytes x)"
    using x u s by (cases x; cases y) auto
qed

text \<open>A missing address is sent as two bytes \<open>0xff\<close>, which are parsed as a unit address.\<close>

definition sent_address :: "signal_address option \<Rightarrow> signal_address" where
  "sent_address a = (case a of Some a \<Rightarrow> a | None \<Rightarrow> SignalUnitAddress 0xff)"

lemma sends_serialize_or_reserved [sending]:
  assumes "signal_address_proper (sent_address a)"
  shows "sends (serialize_or_reserved a) (signal_address_bytes (sent_address a))"
  using assms signal_address.serialize_sends sends_writes [of "[0xff, 0xff]"]
  by (cases a) (simp_all add: serialize_or_reserved_def sent_address_def)

lemma gets_get_signal_address:
  assumes "signal_address_proper a" "\<And>b. gets (g b True a) z bs"
  shows "gets (get (peek_byte v) (\<lambda>_ operand.
      get (SignalAddress_deserialize ind (new_signal_address operand)) (g operand))) z
    (signal_address_bytes a @ bs)"
proof -
  obtain b p where b: "signal_address_bytes a = [b, p]" "(b = 0xff) = is_SignalUnitAddress a"
    using assms(1) by (cases a) auto
  have "gets (SignalAddress_deserialize ind (new_signal_address b)) a (signal_address_bytes a)"
    using signal_address.deserialize_parses [OF assms(1), of "new_signal_address b"] b
    by (simp add: gets_def new_signal_address_def SignalUnitAddress_new_def SignalSubunitAddress_new_def)
  from gets_get [where g = "g b", OF this assms(2)]
  have "gets (get (SignalAddress_deserialize ind (new_signal_address b)) (g b)) z (b # p # bs)"
    using b(1) by simp
  then have "gets (get (peek_byte v) (\<lambda>_ operand.
      get (SignalAddress_deserialize ind (new_signal_address operand)) (g operand))) z (b # p # bs)"
    by (rule gets_peek)
  then show ?thesis using b(1) by simp
qed

definition signal_source_status :: "signal_source \<Rightarrow> byte" where
  "signal_source_status c =
     (if getCommandType c = eCT_Status then
        push_bit 5 (m_outputStatus c) OR push_bit 4 (m_conv c AND 1) OR (m_signalStatus c AND 0xf)
      else m_resultStatus c AND 0xf)"

definition signal_source_bytes :: "signal_source \<Rightarrow> byte list" where
  "signal_source_bytes c = base_bytes c @ signal_source_status c #
     signal_address_bytes (sent_address (m_signalSource c))
     @ signal_address_bytes (sent_address (m_signalDestination c))"

definition signal_source_proper :: "signal_source \<Rightarrow> bool" where
  "signal_source_proper c \<longleftrightarrow> base_proper c \<and>
     getCommandType c \<in> {eCT_Status, eCT_Control, eCT_SpecificInquiry} \<and>
     getSubunitType c \<in> {eST_Unit, eST_Audio, eST_Music} \<and>
     (if getCommandType c = eCT_Status then m_outputStatus c < 8 \<and> m_conv c < 2 \<and> m_signalStatus c < 16
      else m_resultStatus c < 16) \<and>
     signal_address_proper (sent_address (m_signalSource c)) \<and>
     signal_address_proper (sent_address (m_signalDestination c))"

definition signal_source_received :: "signal_source \<Rightarrow> signal_source \<Rightarrow> signal_source" where
  "signal_source_received y x =
     (if getCommandType x = eCT_Status then
        (base_received y x)\<lparr>m_outputStatus := m_outputStatus x, m_conv := m_conv x,
          m_signalStatus := m_signalStatus x\<rparr>
      else (base_received y x)\<lparr>m_resultStatus := m_resultStatus x\<rparr>)
     \<lparr>m_signalSource := Some (sent_address (m_signalSource x)),
      m_signalDestination := Some (sent_address (m_signalDestination x))\<rparr>"

lemma status_fields:
  fixes a b c :: byte
  defines "w \<equiv> push_bit 5 a OR push_bit 4 (b AND 1) OR (c AND 0xf)"
  shows "a < 8 \<Longrightarrow> drop_bit 5 w = a" and "b < 2 \<Longrightarrow> drop_bit 4 (w AND 0x10) = b"
    and "c < 16 \<Longrightarrow> w AND 0xf = c" and "c < 16 \<Longrightarrow> (c AND 0xf) AND 0xf = c"
proof -
  have t: "x < 8 \<Longrightarrow> take_bit 3 x = x" "x < 2 \<Longrightarrow> take_bit 1 x = x" "x < 16 \<Longrightarrow> take_bit 4 x = x"
    for x :: byte
    by (rule take_bit_small, simp add: word_less_nat_alt)+
  have "drop_bit 5 w = take_bit 3 a"
    unfolding w_def byte_masks by (rule bit_word_eqI) (auto simp: bit_simps)
  then show "a < 8 \<Longrightarrow> drop_bit 5 w = a" by (simp only: t)
  have "drop_bit 4 (w AND 0x10) = take_bit 1 b"
    unfolding w_def byte_masks by (rule bit_word_eqI) (auto simp: bit_simps bit_0)
  then show "b < 2 \<Longrightarrow> drop_bit 4 (w AND 0x10) = b" by (simp only: t)
  have "w AND 0xf = take_bit 4 c"
    unfolding w_def byte_masks by (rule bit_word_eqI) (auto simp: bit_simps bit_0)
  then show "c < 16 \<Longrightarrow> w AND 0xf = c" by (simp only: t)
  have "(c AND 0xf) AND 0xf = take_bit 4 c"
    unfolding byte_masks by (rule bit_word_eqI) (auto simp: bit_simps)
  then show "c < 16 \<Longrightarrow> (c AND 0xf) AND 0xf = c" by (simp only: t)
qed

lemma signal_source_updates [simp]:
  "getSubunitType (c\<lparr>m_signalSource := a\<rparr>) = getSubunitType c"
  "getSubunitType (c\<lparr>m_outputStatus := o1\<rparr>) = getSubunitType c"
  "getSubunitType (c\<lparr>m_conv := o1\<rparr>) = getSubunitType c"
  "getSubunitType (c\<lparr>m_signalStatus := o1\<rparr>) = getSubunitType c"
  "getSubunitType (c\<lparr>m_resultStatus := o1\<rparr>) = getSubunitType c"
  "getCommandType (base_received c x) = getCommandType c"
  "getCommandType (c\<lparr>m_signalSource := a, m_signalDestination := b\<rparr>) = getCommandType c"
  by (simp_all add: getSubunitType_def getCommandType_def)

lemma gets_signal_addresses:
  assumes "getSubunitType c \<in> {eST_Unit, eST_Audio, eST_Music}"
    "signal_address_proper a" "signal_address_proper b"
  shows "gets (SignalSource_addresses ind c) (c\<lparr>m_signalSource := Some a, m_signalDestination := Some b\<rparr>)
    (signal_address_bytes a @ signal_address_bytes b)"
proof -
  have "gets (get (peek_byte operand) (\<lambda>_ operand.
        get (SignalAddress_deserialize ind (new_signal_address operand)) (\<lambda>_ destination.
          give True (c\<lparr>m_signalSource := Some a, m_signalDestination := Some destination\<rparr>))))
      (c\<lparr>m_signalSource := Some a, m_signalDestination := Some b\<rparr>) (signal_address_bytes b @ [])" for operand
    by (rule gets_get_signal_address [OF assms(3)]) (simp add: gets_end)
  then have "gets (get (peek_byte operand) (\<lambda>_ operand.
        get (SignalAddress_deserialize ind (new_signal_address operand)) (\<lambda>_ destination.
          give True (c\<lparr>m_signalSource := Some a, m_signalDestination := Some destination\<rparr>))))
      (c\<lparr>m_signalSource := Some a, m_signalDestination := Some b\<rparr>) (signal_address_bytes b)" for operand
    by simp
  then show ?thesis
    using assms(1) unfolding SignalSource_addresses_def
    by (auto intro!: gets_get_signal_address [OF assms(2)])
qed

interpretation signal_source: bus_data SignalSourceCmd_serialize "SignalSourceCmd_deserialize ind"
  signal_source_bytes "\<lambda>x. []" signal_source_proper
  "\<lambda>y x. getCommandType y = getCommandType x" signal_source_received for ind
proof (rule bus_dataI)
  fix x y :: signal_source
  assume x: "signal_source_proper x"
  then have b: "base_proper x" by (simp add: signal_source_proper_def)
  have a: "sends (after (serialize_or_reserved (m_signalSource x))
        (after (serialize_or_reserved (m_signalDestination x)) (done_with True)))
      (signal_address_bytes (sent_address (m_signalSource x))
        @ signal_address_bytes (sent_address (m_signalDestination x)) @ [])"
    using x by (intro sending) (simp_all add: signal_source_proper_def)
  from sends_after [OF sends_base [OF b] sends_after [OF sends_byte [of "signal_source_status x"] a]]
  show "sends (SignalSourceCmd_serialize x) (signal_source_bytes x)"
    using x by (auto simp: SignalSourceCmd_serialize_def signal_source_bytes_def Let_def
        signal_source_proper_def signal_source_status_def)
  assume y: "getCommandType y = getCommandType x"
  have st: "getSubunitType x \<in> {eST_Unit, eST_Audio, eST_Music}"
      "signal_address_proper (sent_address (m_signalSource x))"
      "signal_address_proper (sent_address (m_signalDestination x))"
    using x by (simp_all add: signal_source_proper_def)
  have addr: "gets (SignalSource_addresses ind c)
      (c\<lparr>m_signalSource := Some (sent_address (m_signalSource x)),
         m_signalDestination := Some (sent_address (m_signalDestination x))\<rparr>)
      (signal_address_bytes (sent_address (m_signalSource x))
       @ signal_address_bytes (sent_address (m_signalDestination x)))"
    if "getSubunitType c = getSubunitType x" for c
    using st that by (intro gets_signal_addresses) simp_all
  let ?c = "base_received (y\<lparr>m_signalSource := None, m_signalDestination := None\<rparr>) x"
  have status: "gets (SignalSource_addresses ind (?c\<lparr>m_outputStatus := drop_bit 5 (signal_source_status x),
        m_conv := drop_bit 4 (signal_source_status x AND 0x10),
        m_signalStatus := signal_source_status x AND 0xf\<rparr>)) (signal_source_received y x)
      (signal_address_bytes (sent_address (m_signalSource x))
       @ signal_address_bytes (sent_address (m_signalDestination x)))"
    if "getCommandType x = eCT_Status"
  proof -
    have "drop_bit 5 (signal_source_status x) = m_outputStatus x"
      "drop_bit 4 (signal_source_status x AND 0x10) = m_conv x"
      "signal_source_status x AND 0xf = m_signalStatus x"
      using that x
      by (simp_all add: signal_source_status_def signal_source_proper_def status_fields
          del: drop_bit_or drop_bit_and push_bit_and)
    then show ?thesis
      using addr [of "?c\<lparr>m_outputStatus := m_outputStatus x, m_conv := m_conv x,
          m_signalStatus := m_signalStatus x\<rparr>"] that
      by (simp add: signal_source_received_def base_received_def getSubunitType_def)
  qed
  have result: "gets (SignalSource_addresses ind (?c\<lparr>m_resultStatus := signal_source_status x AND 0xf\<rparr>))
      (signal_source_received y x)
      (signal_address_bytes (sent_address (m_signalSource x))
       @ signal_address_bytes (sent_address (m_signalDestination x)))"
    if "getCommandType x \<noteq> eCT_Status"
  proof -
    have "signal_source_status x AND 0xf = m_resultStatus x"
      using that x status_fields(4) [of "m_resultStatus x"]
      by (simp add: signal_source_status_def signal_source_proper_def)
    then show ?thesis
      using addr [of "?c\<lparr>m_resultStatus := m_resultStatus x\<rparr>"] that
      by (simp add: signal_source_received_def base_received_def getSubunitType_def)
  qed
  show "gets (SignalSourceCmd_deserialize ind y) (signal_source_received y x) (signal_source_bytes x)"
    unfolding SignalSourceCmd_deserialize_def signal_source_bytes_def
    using x y status result
    by (intro gets_get_base) (auto simp: signal_source_proper_def intro!: gets_get_byte)
qed

section \<open>Plug addresses as data classes\<close>

primrec address_bytes :: "plug_address_data \<Rightarrow> byte list" where
  "address_bytes (UnitPlugAddress a b c) = [a, b, c]"
| "address_bytes (SubunitPlugAddress a b c) = [a, b, c]"
| "address_bytes (FunctionBlockPlugAddress a b c) = [a, b, c]"
| "address_bytes (UndefinedPlugAddress a b c) = [a, b, c]"
| "address_bytes (UnitPlugSpecificDataPlugAddress a b c d e) = [a, b, c, d, e]"
| "address_bytes (SubunitPlugSpecificDataPlugAddress a b c d e) = [a, b, c, d, e]"
| "address_bytes (FunctionBlockPlugSpecificDataPlugAddress a b c d e) = [a, b, c, d, e]"
| "address_bytes (UndefinedPlugSpecificDataPlugAddress a b c d e) = [a, b, c, d, e]"

datatype address_class = CUnit | CSubunit | CFunctionBlock | CUndefined
  | CUnitSpecific | CSubunitSpecific | CFunctionBlockSpecific | CUndefinedSpecific

primrec class_of :: "plug_address_data \<Rightarrow> address_class" where
  "class_of (UnitPlugAddress a b c) = CUnit"
| "class_of (SubunitPlugAddress a b c) = CSubunit"
| "class_of (FunctionBlockPlugAddress a b c) = CFunctionBlock"
| "class_of (UndefinedPlugAddress a b c) = CUndefined"
| "class_of (UnitPlugSpecificDataPlugAddress a b c d e) = CUnitSpecific"
| "class_of (SubunitPlugSpecificDataPlugAddress a b c d e) = CSubunitSpecific"
| "class_of (FunctionBlockPlugSpecificDataPlugAddress a b c d e) = CFunctionBlockSpecific"
| "class_of (UndefinedPlugSpecificDataPlugAddress a b c d e) = CUndefinedSpecific"

lemmas address_serialize_defs =
  UnitPlugAddress_serialize_def SubunitPlugAddress_serialize_def FunctionBlockPlugAddress_serialize_def
  UndefinedPlugAddress_serialize_def UnitPlugSpecificData_serialize_def
  SubunitPlugSpecificData_serialize_def FunctionBlockPlugSpecificData_serialize_def
  UndefinedPlugSpecificData_serialize_def

lemmas address_deserialize_defs =
  UnitPlugAddress_deserialize_def SubunitPlugAddress_deserialize_def
  FunctionBlockPlugAddress_deserialize_def UndefinedPlugAddress_deserialize_def
  UnitPlugSpecificData_deserialize_def SubunitPlugSpecificData_deserialize_def
  FunctionBlockPlugSpecificData_deserialize_def UndefinedPlugSpecificData_deserialize_def

interpretation plug_address_data: bus_data PlugAddressData_serialize PlugAddressData_deserialize
  address_bytes "\<lambda>x. []" "\<lambda>x. True" "\<lambda>y x. class_of y = class_of x" "\<lambda>y x. x"
proof (rule bus_dataI)
  fix x y
  show "sends (PlugAddressData_serialize x) (address_bytes x)"
    by (cases x) (simp_all add: address_serialize_defs sends_then_true sends_writes)
  assume "class_of y = class_of x"
  then show "gets (PlugAddressData_deserialize y) x (address_bytes x)"
    by (cases x; cases y)
      (auto simp: address_deserialize_defs get_reads_simps intro!: gets_get_byte gets_end)
qed

definition plug_address_bytes :: "plug_address \<Rightarrow> byte list" where
  "plug_address_bytes p = m_plugDirection p # m_addressMode p # address_bytes (m_plugAddressData p)"

lemma sends_address [sending]: "sends (PlugAddressData_serialize a) (address_bytes a)"
  using plug_address_data.serialize_sends by simp

lemma gets_address: "class_of y = class_of x \<Longrightarrow> gets (PlugAddressData_deserialize y) x (address_bytes x)"
  using plug_address_data.deserialize_parses by (simp add: gets_def)

interpretation plug_address: bus_data PlugAddress_serialize PlugAddress_deserialize
  plug_address_bytes "\<lambda>x. []" "\<lambda>x. True"
  "\<lambda>y x. class_of (m_plugAddressData y) = class_of (m_plugAddressData x)" "\<lambda>y x. x"
proof (rule bus_dataI)
  fix x y
  show "sends (PlugAddress_serialize x) (plug_address_bytes x)"
    using sends_writes_after [OF sends_address, of "[m_plugDirection x, m_addressMode x]"]
    by (simp add: PlugAddress_serialize_def plug_address_bytes_def)
  assume cls: "class_of (m_plugAddressData y) = class_of (m_plugAddressData x)"
  show "gets (PlugAddress_deserialize y) x (plug_address_bytes x)"
    unfolding PlugAddress_deserialize_def plug_address_bytes_def get_reads_simps
    using cls by (auto intro!: gets_get_byte gets_get_end [OF gets_address] gets_end)
qed

text \<open>The class that the address mode names.\<close>

definition specific_data_proper :: "plug_address \<Rightarrow> bool" where
  "specific_data_proper p \<longleftrightarrow> class_of (m_plugAddressData p) = class_of (new_specific_data (m_addressMode p))"

interpretation plug_address_specific: bus_data PlugAddressSpecificData_serialize
  PlugAddressSpecificData_deserialize plug_address_bytes "\<lambda>x. []" specific_data_proper
  "\<lambda>y x. True" "\<lambda>y x. x"
proof (rule bus_dataI)
  fix x y
  show "sends (PlugAddressSpecificData_serialize x) (plug_address_bytes x)"
    using plug_address.serialize_sends [of x]
    by (simp add: PlugAddressSpecificData_serialize_def PlugAddress_serialize_def)
  assume "specific_data_proper x"
  then have cls: "class_of (new_specific_data (m_addressMode x)) = class_of (m_plugAddressData x)"
    by (simp add: specific_data_proper_def)
  show "gets (PlugAddressSpecificData_deserialize y) x (plug_address_bytes x)"
    unfolding PlugAddressSpecificData_deserialize_def plug_address_bytes_def get_reads_simps
    using cls by (auto intro!: gets_get_byte gets_get_end [OF gets_address] gets_end)
qed

end
