(* ===== verification/AVC_StreamFormat.thy ===== *)
theory AVC_StreamFormat
  imports AVC_Addresses
begin

text \<open>
  The extended stream format command (\<open>libavc/streamformat/avc_extended_stream_format.cpp\<close>), with
  which the formats and rates of a plug are read and set.
\<close>

section \<open>Stream formats\<close>

datatype stream_format_info = StreamFormatInfo (m_numberOfChannels: byte) (m_streamFormat: byte)

definition StreamFormatInfo_serialize :: "stream_format_info \<Rightarrow> writer" where
  "StreamFormatInfo_serialize i =
     after (writes [m_numberOfChannels i, m_streamFormat i]) (done_with True)"

definition StreamFormatInfo_deserialize :: "stream_format_info \<Rightarrow> stream_format_info reader" where
  "StreamFormatInfo_deserialize i =
     get (reads [m_numberOfChannels i, m_streamFormat i]) (\<lambda>_ v.
       give True (StreamFormatInfo (v ! 0) (v ! 1)))"

abbreviation (input) "eSF_DontCare \<equiv> (0x0F :: byte)"
abbreviation (input) "eRC_DontCare \<equiv> (0x01 :: byte)"

datatype format_information_streams =
    FormatInformationStreamsSync (m_reserved0: byte) (m_samplingFrequency: byte)
      (m_rateControl: byte) (m_reserved1: byte)
  | FormatInformationStreamsCompound (m_samplingFrequency: byte) (m_rateControl: byte)
      (m_numberOfStreamFormatInfos: byte) (m_streamFormatInfos: "stream_format_info list")

definition StreamsSync_new :: format_information_streams where
  "StreamsSync_new = FormatInformationStreamsSync 0xff eSF_DontCare eRC_DontCare 0xff"

definition StreamsSync_serialize :: "byte \<Rightarrow> byte \<Rightarrow> byte \<Rightarrow> byte \<Rightarrow> writer" where
  "StreamsSync_serialize reserved0 samplingFrequency rateControl reserved1 =
     (let operand = push_bit 4 samplingFrequency OR 0x0e;
          operand = (if rateControl = eRC_DontCare then operand OR 1 else operand)
      in after (writes [reserved0, operand, reserved1]) (done_with True))"

definition StreamsSync_deserialize ::
    "indeterminate \<Rightarrow> byte \<Rightarrow> byte \<Rightarrow> format_information_streams reader" where
  "StreamsSync_deserialize ind reserved0 reserved1 =
     get (reads [reserved0, ind 0, reserved1]) (\<lambda>_ v.
       give True (FormatInformationStreamsSync (v ! 0) (drop_bit 4 (v ! 1)) (v ! 1 AND 1) (v ! 2)))"

definition StreamsCompound_new :: format_information_streams where
  "StreamsCompound_new = FormatInformationStreamsCompound eSF_DontCare eRC_DontCare 0 []"

definition StreamsCompound_serialize ::
    "byte \<Rightarrow> byte \<Rightarrow> byte \<Rightarrow> stream_format_info list \<Rightarrow> writer" where
  "StreamsCompound_serialize samplingFrequency rateControl number infos =
     after (writes [samplingFrequency, rateControl, number])
       (after (serialize_each StreamFormatInfo_serialize infos) (done_with True))"

definition StreamsCompound_deserialize ::
    "indeterminate \<Rightarrow> byte \<Rightarrow> byte \<Rightarrow> byte \<Rightarrow> stream_format_info list \<Rightarrow> format_information_streams reader" where
  "StreamsCompound_deserialize ind samplingFrequency rateControl number infos =
     get (reads [samplingFrequency, rateControl, number]) (\<lambda>_ v.
     get (deserialize_each
         (\<lambda>i. StreamFormatInfo_deserialize (StreamFormatInfo (ind (2 * i)) (ind (2 * i + 1))))
         0 (unat (v ! 2)) infos) (\<lambda>b infos.
       give b (FormatInformationStreamsCompound (v ! 0) (v ! 1) (v ! 2) infos)))"

primrec Streams_serialize :: "format_information_streams \<Rightarrow> writer" where
  "Streams_serialize (FormatInformationStreamsSync r0 f c r1) = StreamsSync_serialize r0 f c r1"
| "Streams_serialize (FormatInformationStreamsCompound f c n is) = StreamsCompound_serialize f c n is"

primrec Streams_deserialize ::
    "indeterminate \<Rightarrow> format_information_streams \<Rightarrow> format_information_streams reader" where
  "Streams_deserialize ind (FormatInformationStreamsSync r0 f c r1) = StreamsSync_deserialize ind r0 r1"
| "Streams_deserialize ind (FormatInformationStreamsCompound f c n is) =
     StreamsCompound_deserialize ind f c n is"

section \<open>Format information\<close>

abbreviation (input) "eFHR_AudioMusic \<equiv> (0x90 :: byte)"
abbreviation (input) "eFHR_Invalid \<equiv> (0xFF :: byte)"
abbreviation (input) "eFHL1_AUDIOMUSIC_AM824 \<equiv> (0x00 :: byte)"
abbreviation (input) "eFHL1_AUDIOMUSIC_AM824_COMPOUND \<equiv> (0x40 :: byte)"
abbreviation (input) "eFHL1_AUDIOMUSIC_DONT_CARE \<equiv> (0xFF :: byte)"
abbreviation (input) "eFHL2_AM824_SYNC_STREAM \<equiv> (0x40 :: byte)"
abbreviation (input) "eFHL2_AM824_DONT_CARE \<equiv> (0xFF :: byte)"

datatype format_information = FormatInformation
  (m_root: byte) (m_level1: byte) (m_level2: byte) (m_streams: "format_information_streams option")

definition FormatInformation_new :: format_information where
  "FormatInformation_new = FormatInformation eFHR_Invalid eFHL1_AUDIOMUSIC_DONT_CARE
     eFHL2_AM824_DONT_CARE None"

definition FormatInformation_serialize :: "format_information \<Rightarrow> writer" where
  "FormatInformation_serialize i =
     after
       (if m_root i \<noteq> eFHR_Invalid then
          after (write_byte (m_root i))
            (if m_level1 i \<noteq> eFHL1_AUDIOMUSIC_DONT_CARE then
               after (write_byte (m_level1 i))
                 (if m_level2 i \<noteq> eFHL2_AM824_DONT_CARE then write_byte (m_level2 i)
                  else done_with True)
             else done_with True)
        else done_with True)
       (case m_streams i of Some s \<Rightarrow> Streams_serialize s | None \<Rightarrow> done_with True)"

definition FormatInformation_deserialize ::
    "indeterminate \<Rightarrow> format_information \<Rightarrow> format_information reader" where
  "FormatInformation_deserialize ind i =
     get (read_byte (m_root i)) (\<lambda>_ root.
       if root = eFHR_AudioMusic then
         get (read_byte (m_level1 i)) (\<lambda>_ level1.
           if level1 = eFHL1_AUDIOMUSIC_AM824 then
             get (read_byte (m_level2 i)) (\<lambda>_ level2.
               if level2 = eFHL2_AM824_SYNC_STREAM then
                 get (Streams_deserialize ind StreamsSync_new) (\<lambda>result s.
                   give result (FormatInformation root level1 level2 (Some s)))
               else give False (FormatInformation root level1 level2 None))
           else if level1 = eFHL1_AUDIOMUSIC_AM824_COMPOUND then
             get (Streams_deserialize ind StreamsCompound_new) (\<lambda>result s.
               give result (FormatInformation root level1 (m_level2 i) (Some s)))
           else give False (FormatInformation root level1 (m_level2 i) None))
       else give False (FormatInformation root (m_level1 i) (m_level2 i) None))"

section \<open>The command\<close>

abbreviation (input) "eSF_ExtendedStreamFormatInformationCommand \<equiv> (0xC0 :: byte)"
abbreviation (input) "eSF_ExtendedStreamFormatInformationCommandList \<equiv> (0xC1 :: byte)"
abbreviation (input) "eS_NotUsed \<equiv> (0xff :: byte)"

record extended_stream_format = avc_command +
  m_subFunction :: byte
  m_plugAddress :: plug_address
  m_status :: byte
  m_indexInStreamFormat :: byte
  m_formatInformation :: format_information

definition ExtendedStreamFormatCmd :: "byte list \<Rightarrow> byte \<Rightarrow> byte \<Rightarrow> extended_stream_format" where
  "ExtendedStreamFormatCmd f ct eSubFunction = avc_command.extend (AVCCommand 0x2F f ct)
     (extended_stream_format.fields eSubFunction
       (PlugAddress ePD_Output ePAM_Unit (UnitPlugAddress_new ePT_PCR 0x00))
       eS_NotUsed 0 FormatInformation_new)"

text \<open>The copy constructor sets neither the status nor the index.\<close>

definition ExtendedStreamFormatCmd_copy ::
    "indeterminate \<Rightarrow> extended_stream_format \<Rightarrow> extended_stream_format" where
  "ExtendedStreamFormatCmd_copy ind rhs = avc_command.extend (avc_command.truncate rhs)
     (extended_stream_format.fields (m_subFunction rhs) (m_plugAddress rhs) (ind 0) (ind 1)
       (m_formatInformation rhs))"

definition StreamFormat_setPlugAddress ::
    "plug_address \<Rightarrow> extended_stream_format \<Rightarrow> extended_stream_format" where
  "StreamFormat_setPlugAddress a c = c\<lparr>m_plugAddress := a\<rparr>"

definition setIndexInStreamFormat :: "u32 \<Rightarrow> extended_stream_format \<Rightarrow> extended_stream_format" where
  "setIndexInStreamFormat index c = c\<lparr>m_indexInStreamFormat := ucast index\<rparr>"

definition StreamFormat_setSubFunction :: "byte \<Rightarrow> extended_stream_format \<Rightarrow> extended_stream_format" where
  "StreamFormat_setSubFunction subFunction c = c\<lparr>m_subFunction := subFunction\<rparr>"

definition ExtendedStreamFormatCmd_serialize :: "extended_stream_format \<Rightarrow> writer" where
  "ExtendedStreamFormatCmd_serialize c =
     after (AVCCommand_serialize c)
       (after (write_byte (m_subFunction c))
         (after (PlugAddress_serialize (m_plugAddress c))
           (after (write_byte (m_status c))
             (after
               (if m_subFunction c = eSF_ExtendedStreamFormatInformationCommandList
                then write_byte (m_indexInStreamFormat c) else done_with True)
               (after (FormatInformation_serialize (m_formatInformation c)) (done_with True))))))"

definition ExtendedStreamFormatCmd_deserialize ::
    "indeterminate \<Rightarrow> extended_stream_format \<Rightarrow> extended_stream_format reader" where
  "ExtendedStreamFormatCmd_deserialize ind c =
     get (AVCCommand_deserialize c) (\<lambda>_ c.
     get (read_byte (m_subFunction c)) (\<lambda>_ f.
     get (PlugAddress_deserialize (m_plugAddress c)) (\<lambda>_ a.
     get (read_byte (m_status c)) (\<lambda>_ st.
     get (if f = eSF_ExtendedStreamFormatInformationCommandList
          then read_byte (m_indexInStreamFormat c) else give True (m_indexInStreamFormat c)) (\<lambda>_ idx.
     get (FormatInformation_deserialize ind (m_formatInformation c)) (\<lambda>_ i.
       give True (c\<lparr>m_subFunction := f, m_plugAddress := a, m_status := st,
         m_indexInStreamFormat := idx, m_formatInformation := i\<rparr>)))))))"

section \<open>Stream formats as data classes\<close>

definition stream_format_info_bytes :: "stream_format_info \<Rightarrow> byte list" where
  "stream_format_info_bytes i = [m_numberOfChannels i, m_streamFormat i]"

interpretation stream_format_info: bus_data StreamFormatInfo_serialize StreamFormatInfo_deserialize
  stream_format_info_bytes "\<lambda>x. []" "\<lambda>x. True" "\<lambda>y x. True" "\<lambda>y x. x"
proof (rule bus_dataI)
  fix x y
  show "sends (StreamFormatInfo_serialize x) (stream_format_info_bytes x)"
    by (simp add: StreamFormatInfo_serialize_def stream_format_info_bytes_def sends_then_true sends_writes)
  show "gets (StreamFormatInfo_deserialize y) x (stream_format_info_bytes x)"
    unfolding StreamFormatInfo_deserialize_def stream_format_info_bytes_def get_reads_simps
    by (intro gets_get_byte gets_end) simp_all
qed

definition sync_operand :: "byte \<Rightarrow> byte \<Rightarrow> byte" where
  "sync_operand f c = (if c = eRC_DontCare then push_bit 4 f OR 0x0e OR 1 else push_bit 4 f OR 0x0e)"

lemma sync_operand_fields:
  assumes "f < 16" "c < 2"
  shows "drop_bit 4 (sync_operand f c) = f" and "sync_operand f c AND 1 = c"
proof -
  have t: "take_bit 4 f = f" using assms(1) by (intro take_bit_small) (simp add: word_less_nat_alt)
  have e: "(0x0e :: byte) = mask 4 AND NOT (mask 1)" by (simp add: mask_eq_exp_minus_1)
  have "drop_bit 4 (sync_operand f c) = take_bit 4 f"
    unfolding sync_operand_def e byte_masks(2) by (rule bit_word_eqI) (auto simp: bit_simps)
  then show "drop_bit 4 (sync_operand f c) = f" using t by simp
  have "unat c = 0 \<or> unat c = 1" using assms(2) by (auto simp: word_less_nat_alt)
  then have "c = 0 \<or> c = 1" by (auto simp: word_unat_eq_iff)
  moreover have "(push_bit 4 f OR 0x0e) AND 1 = 0" "(push_bit 4 f OR 0x0e OR 1) AND 1 = 1"
    unfolding e byte_masks(2) by (rule bit_word_eqI, auto simp: bit_simps)+
  ultimately show "sync_operand f c AND 1 = c" by (auto simp: sync_operand_def)
qed

primrec streams_bytes :: "format_information_streams \<Rightarrow> byte list" where
  "streams_bytes (FormatInformationStreamsSync r0 f c r1) = [r0, sync_operand f c, r1]"
| "streams_bytes (FormatInformationStreamsCompound f c n is) =
     f # c # n # concat (map stream_format_info_bytes is)"

primrec streams_proper :: "format_information_streams \<Rightarrow> bool" where
  "streams_proper (FormatInformationStreamsSync r0 f c r1) \<longleftrightarrow> f < 16 \<and> c < 2"
| "streams_proper (FormatInformationStreamsCompound f c n is) \<longleftrightarrow> unat n = length is"

text \<open>A receiving object of the same class; a compound object is received into an empty vector.\<close>

definition streams_take :: "format_information_streams \<Rightarrow> format_information_streams \<Rightarrow> bool" where
  "streams_take y x \<longleftrightarrow>
     is_FormatInformationStreamsSync y = is_FormatInformationStreamsSync x \<and>
     (\<not> is_FormatInformationStreamsSync y \<longrightarrow> m_streamFormatInfos y = [])"

lemma gets_stream_format_infos:
  "gets (deserialize_each (\<lambda>i. StreamFormatInfo_deserialize (g i)) k (length is) []) is
     (concat (map stream_format_info_bytes is))"
proof -
  have "gets (StreamFormatInfo_deserialize (g i)) x (stream_format_info_bytes x)" for i x
    using stream_format_info.deserialize_parses by (simp add: gets_def)
  from gets_each [where f = "\<lambda>i. StreamFormatInfo_deserialize (g i)" and acc = "[]", OF this]
  show ?thesis by simp
qed

interpretation streams: bus_data Streams_serialize "Streams_deserialize ind" streams_bytes
  "\<lambda>x. []" streams_proper streams_take "\<lambda>y x. x" for ind
proof (rule bus_dataI)
  fix x y assume x: "streams_proper x"
  have each: "sends (serialize_each StreamFormatInfo_serialize is)
      (concat (map stream_format_info_bytes is))" for "is"
    using stream_format_info.serialize_sends by (intro sends_each) simp
  show "sends (Streams_serialize x) (streams_bytes x)"
  proof (cases x)
    case (FormatInformationStreamsSync r0 f c r1)
    then show ?thesis
      by (simp add: StreamsSync_serialize_def Let_def sync_operand_def or.assoc
          sends_then_true sends_writes)
  next
    case (FormatInformationStreamsCompound f c n "is")
    then show ?thesis
      using sends_writes_after [OF sends_then_true [OF each], of "[f, c, n]" "is"]
      by (simp add: StreamsCompound_serialize_def)
  qed
  assume y: "streams_take y x"
  show "gets (Streams_deserialize ind y) x (streams_bytes x)"
  proof (cases x)
    case (FormatInformationStreamsSync r0 f c r1)
    with y obtain s0 s1 where "Streams_deserialize ind y = StreamsSync_deserialize ind s0 s1"
      by (cases y) (auto simp: streams_take_def)
    then show ?thesis
      using FormatInformationStreamsSync x
      unfolding StreamsSync_deserialize_def get_reads_simps
      by (auto intro!: gets_get_byte gets_end simp: sync_operand_fields)
  next
    case (FormatInformationStreamsCompound f c n "is")
    with y obtain f' c' n' where
      "Streams_deserialize ind y = StreamsCompound_deserialize ind f' c' n' []"
      by (cases y) (auto simp: streams_take_def)
    then show ?thesis
      using FormatInformationStreamsCompound x
      unfolding StreamsCompound_deserialize_def get_reads_simps
      by (auto intro!: gets_get_byte gets_get_end [OF gets_stream_format_infos] gets_end)
  qed
qed

section \<open>Format information and the command as data classes\<close>

text \<open>
  The two kinds of format information that are understood: a synchronised stream on two levels,
  and a compound stream, which has no second level.
\<close>

definition format_information_proper :: "format_information \<Rightarrow> bool" where
  "format_information_proper i \<longleftrightarrow> m_root i = eFHR_AudioMusic \<and>
     (case m_streams i of None \<Rightarrow> False | Some s \<Rightarrow> streams_proper s \<and>
       (if is_FormatInformationStreamsSync s
        then m_level1 i = eFHL1_AUDIOMUSIC_AM824 \<and> m_level2 i = eFHL2_AM824_SYNC_STREAM
        else m_level1 i = eFHL1_AUDIOMUSIC_AM824_COMPOUND \<and> m_level2 i = eFHL2_AM824_DONT_CARE))"

definition format_information_bytes :: "format_information \<Rightarrow> byte list" where
  "format_information_bytes i =
     (case m_streams i of None \<Rightarrow> [] | Some s \<Rightarrow>
        (if is_FormatInformationStreamsSync s then [m_root i, m_level1 i, m_level2 i]
         else [m_root i, m_level1 i]) @ streams_bytes s)"

definition format_information_received ::
    "format_information \<Rightarrow> format_information \<Rightarrow> format_information" where
  "format_information_received y x = FormatInformation (m_root x) (m_level1 x)
     (if m_level1 x = eFHL1_AUDIOMUSIC_AM824_COMPOUND then m_level2 y else m_level2 x) (m_streams x)"

lemma gets_streams: "streams_proper x \<Longrightarrow> streams_take y x \<Longrightarrow>
    gets (Streams_deserialize ind y) x (streams_bytes x)"
  using streams.deserialize_parses by (simp add: gets_def)

lemma sends_streams: "streams_proper x \<Longrightarrow> sends (Streams_serialize x) (streams_bytes x)"
  using streams.serialize_sends by simp

interpretation format_information: bus_data FormatInformation_serialize
  "FormatInformation_deserialize ind" format_information_bytes "\<lambda>x. []" format_information_proper
  "\<lambda>y x. True" format_information_received for ind
proof (rule bus_dataI)
  fix x y assume "format_information_proper x"
  then obtain s where s: "m_streams x = Some s" "streams_proper s" "m_root x = eFHR_AudioMusic"
      "if is_FormatInformationStreamsSync s
        then m_level1 x = eFHL1_AUDIOMUSIC_AM824 \<and> m_level2 x = eFHL2_AM824_SYNC_STREAM
        else m_level1 x = eFHL1_AUDIOMUSIC_AM824_COMPOUND \<and> m_level2 x = eFHL2_AM824_DONT_CARE"
    by (auto simp: format_information_proper_def split: option.splits)
  have w: "sends (after (write_byte a) (after (write_byte b) (write_byte c))) [a, b, c]"
     "sends (after (write_byte a) (after (write_byte b) (done_with True))) [a, b]" for a b c
    using sends_after [OF sends_byte [of a] sends_after [OF sends_byte [of b] sends_byte [of c]]]
      sends_after [OF sends_byte [of a] sends_then_true [OF sends_byte [of b]]] by simp_all
  show "sends (FormatInformation_serialize x) (format_information_bytes x)"
    using s sends_after [OF w(1) sends_streams [OF s(2)]] sends_after [OF w(2) sends_streams [OF s(2)]]
    by (auto simp: FormatInformation_serialize_def format_information_bytes_def split: if_splits)
  have t: "streams_take StreamsSync_new s" if "is_FormatInformationStreamsSync s"
    using that by (simp add: streams_take_def StreamsSync_new_def)
  have t': "streams_take StreamsCompound_new s" if "\<not> is_FormatInformationStreamsSync s"
    using that by (simp add: streams_take_def StreamsCompound_new_def)
  show "gets (FormatInformation_deserialize ind y) (format_information_received y x)
      (format_information_bytes x)"
    unfolding FormatInformation_deserialize_def
    using s t t'
    by (auto simp: format_information_bytes_def format_information_received_def split: if_splits
        intro!: gets_get_byte gets_get_end [OF gets_streams] gets_end)
qed

definition extended_stream_format_bytes :: "extended_stream_format \<Rightarrow> byte list" where
  "extended_stream_format_bytes c = base_bytes c @ m_subFunction c # plug_address_bytes (m_plugAddress c)
     @ m_status c # (if m_subFunction c = eSF_ExtendedStreamFormatInformationCommandList
         then [m_indexInStreamFormat c] else [])
     @ format_information_bytes (m_formatInformation c)"

definition extended_stream_format_proper :: "extended_stream_format \<Rightarrow> bool" where
  "extended_stream_format_proper c \<longleftrightarrow> base_proper c \<and> format_information_proper (m_formatInformation c)"

definition extended_stream_format_takes :: "extended_stream_format \<Rightarrow> extended_stream_format \<Rightarrow> bool" where
  "extended_stream_format_takes y x \<longleftrightarrow>
     class_of (m_plugAddressData (m_plugAddress y)) = class_of (m_plugAddressData (m_plugAddress x))"

definition extended_stream_format_received ::
    "extended_stream_format \<Rightarrow> extended_stream_format \<Rightarrow> extended_stream_format" where
  "extended_stream_format_received y x = (base_received y x)\<lparr>m_subFunction := m_subFunction x,
     m_plugAddress := m_plugAddress x, m_status := m_status x,
     m_indexInStreamFormat :=
       (if m_subFunction x = eSF_ExtendedStreamFormatInformationCommandList
        then m_indexInStreamFormat x else m_indexInStreamFormat y),
     m_formatInformation := format_information_received (m_formatInformation y) (m_formatInformation x)\<rparr>"

lemma gets_get_plug_address:
  "class_of (m_plugAddressData y) = class_of (m_plugAddressData x) \<Longrightarrow> gets (g True x) z bs \<Longrightarrow>
   gets (get (PlugAddress_deserialize y) g) z (plug_address_bytes x @ bs)"
  using plug_address.deserialize_parses by (intro gets_get) (auto simp: gets_def)

lemma gets_format_information:
  "format_information_proper x \<Longrightarrow> gets (FormatInformation_deserialize ind y)
     (format_information_received y x) (format_information_bytes x)"
  using format_information.deserialize_parses by (simp add: gets_def)

interpretation extended_stream_format: bus_data ExtendedStreamFormatCmd_serialize
  "ExtendedStreamFormatCmd_deserialize ind" extended_stream_format_bytes "\<lambda>x. []"
  extended_stream_format_proper extended_stream_format_takes extended_stream_format_received for ind
proof (rule bus_dataI)
  fix x y assume x: "extended_stream_format_proper x"
  then have b: "base_proper x" and i: "format_information_proper (m_formatInformation x)"
    by (simp_all add: extended_stream_format_proper_def)
  have idx: "sends (if m_subFunction x = eSF_ExtendedStreamFormatInformationCommandList
      then write_byte (m_indexInStreamFormat x) else done_with True)
    (if m_subFunction x = eSF_ExtendedStreamFormatInformationCommandList
     then [m_indexInStreamFormat x] else [])"
    by (simp add: sends_byte sends_done)
  have fi: "sends (FormatInformation_serialize (m_formatInformation x))
      (format_information_bytes (m_formatInformation x))"
    using format_information.serialize_sends [OF i] by simp
  have pa: "sends (PlugAddress_serialize (m_plugAddress x)) (plug_address_bytes (m_plugAddress x))"
    using plug_address.serialize_sends by simp
  show "sends (ExtendedStreamFormatCmd_serialize x) (extended_stream_format_bytes x)"
    unfolding ExtendedStreamFormatCmd_serialize_def
    by (rule sends_cong, (rule sends_after sends_base [OF b] sends_byte pa idx fi sends_done)+)
      (simp add: extended_stream_format_bytes_def)
  assume "extended_stream_format_takes y x"
  then show "gets (ExtendedStreamFormatCmd_deserialize ind y) (extended_stream_format_received y x)
      (extended_stream_format_bytes x)"
    unfolding ExtendedStreamFormatCmd_deserialize_def extended_stream_format_bytes_def
    by (intro gets_get_base gets_get_byte)
      (auto simp: extended_stream_format_takes_def extended_stream_format_received_def base_received_def
        intro!: gets_get_plug_address gets_get_byte gets_get_end [OF gets_format_information [OF i]]
          gets_end)
qed

end
