(* ===== verification/AVC_PlugInfo.thy ===== *)
theory AVC_PlugInfo
  imports AVC_StreamFormat
begin

text \<open>
  The extended plug info command (\<open>libavc/general/avc_extended_plug_info.cpp\<close>) and the eight kinds
  of data it carries. Strings are lists of bytes without a terminator.
\<close>

section \<open>Plug type, name, number of channels\<close>

definition PlugType_serialize :: "byte \<Rightarrow> writer" where
  "PlugType_serialize plugType = after (write_byte plugType) (done_with True)"

definition PlugType_deserialize :: "byte \<Rightarrow> byte reader" where
  "PlugType_deserialize plugType = get (read_byte plugType) (\<lambda>_ v. give True v)"

definition extendedPlugInfoPlugTypeStrings :: "string list" where
  "extendedPlugInfoPlugTypeStrings =
     [''IsoStream'', ''AsyncStream'', ''Midi'', ''Sync'', ''Analog'', ''Digital'', ''Unknown'']"

text \<open>The bound is the size of the table in bytes, eight for every pointer.\<close>

definition extendedPlugInfoPlugTypeToString :: "byte \<Rightarrow> string result" where
  "extendedPlugInfoPlugTypeToString plugType =
     (if 8 * length extendedPlugInfoPlugTypeStrings < unat plugType then Inr ''Unknown''
      else string_at extendedPlugInfoPlugTypeStrings plugType)"

text \<open>\<open>strlen\<close> of a string object stops at the first zero byte; the length is kept in a byte.\<close>

definition strlen :: "byte list \<Rightarrow> nat" where
  "strlen s = length (takeWhile (\<lambda>c. c \<noteq> 0) s)"

definition PlugName_serialize :: "byte list \<Rightarrow> writer" where
  "PlugName_serialize name =
     (let len = word_of_nat (strlen name) :: byte in
      after (write_byte len) (after (writes (take (unat len) name)) (done_with True)))"

text \<open>
  Assigning a \<open>char*\<close> to a string copies the bytes up to the next zero byte in memory. A pointer
  that was never set is not dereferenced successfully.
\<close>

definition c_string_at :: "byte list \<Rightarrow> u64 option \<Rightarrow> byte list result" where
  "c_string_at mem p =
     (case p of None \<Rightarrow> Inl NullPointer
      | Some p \<Rightarrow> (if 0 \<in> set (drop (unat p) mem)
                   then Inr (takeWhile (\<lambda>c. c \<noteq> 0) (drop (unat p) mem)) else Inl OutOfBounds))"

definition PlugName_deserialize :: "indeterminate \<Rightarrow> byte list \<Rightarrow> byte list reader" where
  "PlugName_deserialize ind name =
     get (read_byte (ind 0)) (\<lambda>_ len.
     get (read_pointer None (ucast len)) (\<lambda>_ p d.
       bind_result (c_string_at (m_buffer d) p) (\<lambda>name. give True name d)))"

definition NumberOfChannels_serialize :: "byte \<Rightarrow> writer" where
  "NumberOfChannels_serialize nrOfChannels = after (write_byte nrOfChannels) (done_with True)"

definition NumberOfChannels_deserialize :: "byte \<Rightarrow> byte reader" where
  "NumberOfChannels_deserialize nrOfChannels = get (read_byte nrOfChannels) (\<lambda>_ v. give True v)"

section \<open>Channel positions\<close>

datatype channel_info = ChannelInfo (m_streamPosition: byte) (m_location: byte)

datatype cluster_info = ClusterInfo (m_nrOfChannels: byte) (m_channelInfos: "channel_info list")

datatype channel_position = ChannelPosition (m_nrOfClusters: byte) (m_clusterInfos: "cluster_info list")

definition ChannelPosition_new :: channel_position where
  "ChannelPosition_new = ChannelPosition 0 []"

definition serialize_channel :: "channel_info \<Rightarrow> writer" where
  "serialize_channel c = writes [m_streamPosition c, m_location c]"

definition serialize_cluster :: "cluster_info \<Rightarrow> writer" where
  "serialize_cluster c =
     after (write_byte (m_nrOfChannels c)) (serialize_each serialize_channel (m_channelInfos c))"

definition ChannelPosition_serialize :: "channel_position \<Rightarrow> writer" where
  "ChannelPosition_serialize p =
     after (write_byte (m_nrOfClusters p))
       (after (serialize_each serialize_cluster (m_clusterInfos p)) (done_with True))"

definition deserialize_channel :: "indeterminate \<Rightarrow> nat \<Rightarrow> channel_info reader" where
  "deserialize_channel ind j =
     get (reads [ind (2 * j), ind (2 * j + 1)]) (\<lambda>_ v. give True (ChannelInfo (v ! 0) (v ! 1)))"

definition deserialize_cluster :: "indeterminate \<Rightarrow> nat \<Rightarrow> cluster_info reader" where
  "deserialize_cluster ind i =
     get (read_byte (ind i)) (\<lambda>_ n.
     get (deserialize_each (deserialize_channel ind) 0 (unat n) []) (\<lambda>_ cs.
       give True (ClusterInfo n cs)))"

definition ChannelPosition_deserialize ::
    "indeterminate \<Rightarrow> channel_position \<Rightarrow> channel_position reader" where
  "ChannelPosition_deserialize ind p =
     get (read_byte (m_nrOfClusters p)) (\<lambda>_ n.
     get (deserialize_each (deserialize_cluster ind) 0 (unat n) []) (\<lambda>_ cs.
       give True (ChannelPosition n cs)))"

section \<open>Channel name and cluster info\<close>

datatype channel_name = ChannelName
  (m_streamPosition: byte) (m_stringLength: byte) (m_plugChannelName: "byte list")

definition ChannelName_new :: channel_name where
  "ChannelName_new = ChannelName 0 0xff []"

definition ChannelName_serialize :: "channel_name \<Rightarrow> writer" where
  "ChannelName_serialize c =
     after (writes [channel_name.m_streamPosition c, m_stringLength c])
       (after (writes (m_plugChannelName c)) (done_with True))"

text \<open>
  The loop that reads a name byte by byte: an ampersand becomes a plus sign. Every round has a
  variable of its own.
\<close>

fun read_name :: "indeterminate \<Rightarrow> nat \<Rightarrow> nat \<Rightarrow> byte list \<Rightarrow> byte list reader" where
  "read_name ind i 0 name = give True name"
| "read_name ind i (Suc n) name =
     get (read_byte (ind i)) (\<lambda>_ c.
       (let c = (if c = 0x26 then 0x2b else c) in read_name ind (Suc i) n (name @ [c])))"

definition ChannelName_deserialize :: "indeterminate \<Rightarrow> channel_name \<Rightarrow> channel_name reader" where
  "ChannelName_deserialize ind c =
     get (reads [channel_name.m_streamPosition c, m_stringLength c]) (\<lambda>_ v.
     get (read_name ind 0 (unat (v ! 1)) []) (\<lambda>_ name.
       give True (ChannelName (v ! 0) (v ! 1) (takeWhile (\<lambda>c. c \<noteq> 0) (name @ [0])))))"

datatype cluster_name = ClusterInfoSpecificData
  (m_clusterIndex: byte) (m_portType: byte) (m_stringLength: byte) (m_clusterName: "byte list")

definition ClusterInfo_new :: cluster_name where
  "ClusterInfo_new = ClusterInfoSpecificData 0 0xff 0xff []"

definition ClusterInfo_serialize :: "cluster_name \<Rightarrow> writer" where
  "ClusterInfo_serialize c =
     after (writes [m_clusterIndex c, m_portType c, m_stringLength c])
       (after (writes (m_clusterName c)) (done_with True))"

definition ClusterInfo_deserialize :: "indeterminate \<Rightarrow> cluster_name \<Rightarrow> cluster_name reader" where
  "ClusterInfo_deserialize ind c =
     get (reads [m_clusterIndex c, m_portType c, m_stringLength c]) (\<lambda>_ v.
     get (read_name ind 0 (unat (v ! 2)) []) (\<lambda>_ name.
       give True (ClusterInfoSpecificData (v ! 0) (v ! 1) (v ! 2)
         (takeWhile (\<lambda>c. c \<noteq> 0) (name @ [0])))))"

definition extendedPlugInfoPortTypeStrings :: "string list" where
  "extendedPlugInfoPortTypeStrings =
     [''Speaker'', ''Headphone'', ''Microphone'', ''Line'', ''SPDIF'', ''ADAT'', ''TDIF'', ''MADI'',
      ''Analog'', ''Digital'', ''MIDI'']"

definition extendedPlugInfoClusterInfoPortTypeToString :: "byte \<Rightarrow> string result" where
  "extendedPlugInfoClusterInfoPortTypeToString portType =
     (if length extendedPlugInfoPortTypeStrings < unat portType then Inr ''Unknown''
      else string_at extendedPlugInfoPortTypeStrings portType)"

section \<open>Input and output plugs\<close>

definition PlugInput_new :: plug_address where
  "PlugInput_new = PlugAddress ePD_Output ePAM_Unit (UnitPlugSpecificData_new ePT_PCR 0x00)"

definition PlugInput_serialize :: "plug_address \<Rightarrow> writer" where
  "PlugInput_serialize a = PlugAddressSpecificData_serialize a"

definition PlugInput_deserialize :: "plug_address \<Rightarrow> plug_address reader" where
  "PlugInput_deserialize a = PlugAddressSpecificData_deserialize a"

datatype plug_output = PlugOutput
  (m_nrOfOutputPlugs: byte) (m_outputPlugAddresses: "plug_address list")

definition PlugOutput_new :: plug_output where
  "PlugOutput_new = PlugOutput 0 []"

definition PlugOutput_serialize :: "plug_output \<Rightarrow> writer" where
  "PlugOutput_serialize p =
     after (write_byte (m_nrOfOutputPlugs p))
       (after (serialize_each PlugAddressSpecificData_serialize (m_outputPlugAddresses p))
         (done_with True))"

definition PlugOutput_deserialize :: "plug_output \<Rightarrow> plug_output reader" where
  "PlugOutput_deserialize p =
     get (read_byte (m_nrOfOutputPlugs p)) (\<lambda>_ n.
     get (deserialize_each (\<lambda>i. PlugAddressSpecificData_deserialize PlugInput_new) 0 (unat n)
         (m_outputPlugAddresses p)) (\<lambda>b as. give b (PlugOutput n as)))"

section \<open>The info type\<close>

abbreviation (input) "eIT_PlugType \<equiv> (0x00 :: byte)"
abbreviation (input) "eIT_PlugName \<equiv> (0x01 :: byte)"
abbreviation (input) "eIT_NoOfChannels \<equiv> (0x02 :: byte)"
abbreviation (input) "eIT_ChannelPosition \<equiv> (0x03 :: byte)"
abbreviation (input) "eIT_ChannelName \<equiv> (0x04 :: byte)"
abbreviation (input) "eIT_PlugInput \<equiv> (0x05 :: byte)"
abbreviation (input) "eIT_PlugOutput \<equiv> (0x06 :: byte)"
abbreviation (input) "eIT_ClusterInfo \<equiv> (0x07 :: byte)"

record info_type =
  m_infoType :: byte
  m_plugType :: "byte option"
  m_plugName :: "byte list option"
  m_plugNrOfChns :: "byte option"
  m_plugChannelPosition :: "channel_position option"
  m_plugChannelName :: "channel_name option"
  m_plugInput :: "plug_address option"
  m_plugOutput :: "plug_output option"
  m_plugClusterInfo :: "cluster_name option"

definition InfoType :: "byte \<Rightarrow> info_type" where
  "InfoType eInfoType = \<lparr>m_infoType = eInfoType, m_plugType = None, m_plugName = None,
     m_plugNrOfChns = None, m_plugChannelPosition = None, m_plugChannelName = None,
     m_plugInput = None, m_plugOutput = None, m_plugClusterInfo = None\<rparr>"

definition InfoType_initialize :: "info_type \<Rightarrow> bool \<times> info_type" where
  "InfoType_initialize i =
     (if m_infoType i = eIT_PlugType then (True, i\<lparr>m_plugType := Some 0xff\<rparr>)
      else if m_infoType i = eIT_PlugName then (True, i\<lparr>m_plugName := Some []\<rparr>)
      else if m_infoType i = eIT_NoOfChannels then (True, i\<lparr>m_plugNrOfChns := Some 0\<rparr>)
      else if m_infoType i = eIT_ChannelPosition then
        (True, i\<lparr>m_plugChannelPosition := Some ChannelPosition_new\<rparr>)
      else if m_infoType i = eIT_ChannelName then (True, i\<lparr>m_plugChannelName := Some ChannelName_new\<rparr>)
      else if m_infoType i = eIT_PlugInput then (True, i\<lparr>m_plugInput := Some PlugInput_new\<rparr>)
      else if m_infoType i = eIT_PlugOutput then (True, i\<lparr>m_plugOutput := Some PlugOutput_new\<rparr>)
      else if m_infoType i = eIT_ClusterInfo then (True, i\<lparr>m_plugClusterInfo := Some ClusterInfo_new\<rparr>)
      else (False, i))"

text \<open>The copy constructor dereferences the pointer that belongs to the info type.\<close>

definition copy_pointer :: "'b option \<Rightarrow> ('b \<Rightarrow> 'c) \<Rightarrow> 'c result" where
  "copy_pointer p f = (case p of None \<Rightarrow> Inl NullPointer | Some x \<Rightarrow> Inr (f x))"

definition InfoType_copy :: "info_type \<Rightarrow> info_type result" where
  "InfoType_copy rhs =
     (let i = InfoType (m_infoType rhs) in
      if m_infoType rhs = eIT_PlugType then
        copy_pointer (m_plugType rhs) (\<lambda>x. i\<lparr>m_plugType := Some x\<rparr>)
      else if m_infoType rhs = eIT_PlugName then
        copy_pointer (m_plugName rhs) (\<lambda>x. i\<lparr>m_plugName := Some x\<rparr>)
      else if m_infoType rhs = eIT_NoOfChannels then
        copy_pointer (m_plugNrOfChns rhs) (\<lambda>x. i\<lparr>m_plugNrOfChns := Some x\<rparr>)
      else if m_infoType rhs = eIT_ChannelPosition then
        copy_pointer (m_plugChannelPosition rhs) (\<lambda>x. i\<lparr>m_plugChannelPosition := Some x\<rparr>)
      else if m_infoType rhs = eIT_ChannelName then
        copy_pointer (m_plugChannelName rhs) (\<lambda>x. i\<lparr>m_plugChannelName := Some x\<rparr>)
      else if m_infoType rhs = eIT_PlugInput then
        copy_pointer (m_plugInput rhs) (\<lambda>x. i\<lparr>m_plugInput := Some x\<rparr>)
      else if m_infoType rhs = eIT_PlugOutput then
        copy_pointer (m_plugOutput rhs) (\<lambda>x. i\<lparr>m_plugOutput := Some x\<rparr>)
      else if m_infoType rhs = eIT_ClusterInfo then
        copy_pointer (m_plugClusterInfo rhs) (\<lambda>x. i\<lparr>m_plugClusterInfo := Some x\<rparr>)
      else Inr i)"

definition InfoType_clone :: "info_type \<Rightarrow> info_type result" where
  "InfoType_clone i = bind_result (InfoType_copy i) (\<lambda>i. Inr (snd (InfoType_initialize i)))"

definition extendedPlugInfoInfoTypeStrings :: "string list" where
  "extendedPlugInfoInfoTypeStrings =
     [''PlugType'', ''PlugName'', ''NoOfChannels'', ''ChannelPosition'', ''ChannelName'', ''PlugInput'',
      ''PlugOutput'', ''ClusterInfo'']"

definition extendedPlugInfoInfoTypeToString :: "byte \<Rightarrow> string result" where
  "extendedPlugInfoInfoTypeToString infoType =
     (if length extendedPlugInfoInfoTypeStrings < unat infoType then Inr ''Unknown''
      else string_at extendedPlugInfoInfoTypeStrings infoType)"

definition serialize_if :: "('b \<Rightarrow> writer) \<Rightarrow> 'b option \<Rightarrow> writer" where
  "serialize_if f p = (case p of None \<Rightarrow> done_with True | Some x \<Rightarrow> f x)"

definition InfoType_serialize_data :: "info_type \<Rightarrow> writer" where
  "InfoType_serialize_data i =
     (if m_infoType i = eIT_PlugType then
        after (serialize_if PlugType_serialize (m_plugType i)) (done_with True)
      else if m_infoType i = eIT_PlugName then
        after (serialize_if PlugName_serialize (m_plugName i)) (done_with True)
      else if m_infoType i = eIT_NoOfChannels then
        after (serialize_if NumberOfChannels_serialize (m_plugNrOfChns i)) (done_with True)
      else if m_infoType i = eIT_ChannelPosition then
        after (serialize_if ChannelPosition_serialize (m_plugChannelPosition i)) (done_with True)
      else if m_infoType i = eIT_ChannelName then
        after (serialize_if ChannelName_serialize (m_plugChannelName i)) (done_with True)
      else if m_infoType i = eIT_PlugInput then
        after (serialize_if PlugInput_serialize (m_plugInput i)) (done_with True)
      else if m_infoType i = eIT_PlugOutput then
        after (serialize_if PlugOutput_serialize (m_plugOutput i)) (done_with True)
      else if m_infoType i = eIT_ClusterInfo then
        after (serialize_if ClusterInfo_serialize (m_plugClusterInfo i)) (done_with True)
      else done_with False)"

definition InfoType_serialize :: "info_type \<Rightarrow> writer" where
  "InfoType_serialize i s =
     bind_result (extendedPlugInfoInfoTypeToString (m_infoType i)) (\<lambda>_.
       after (write_byte (m_infoType i)) (InfoType_serialize_data i) s)"

definition or_new :: "'b \<Rightarrow> 'b option \<Rightarrow> 'b" where
  "or_new x p = (case p of None \<Rightarrow> x | Some y \<Rightarrow> y)"

definition InfoType_deserialize_data :: "indeterminate \<Rightarrow> info_type \<Rightarrow> info_type reader" where
  "InfoType_deserialize_data ind i =
     (if m_infoType i = eIT_PlugType then
        get (PlugType_deserialize (or_new 0xff (m_plugType i))) (\<lambda>b x. give b (i\<lparr>m_plugType := Some x\<rparr>))
      else if m_infoType i = eIT_PlugName then
        get (PlugName_deserialize ind (or_new [] (m_plugName i))) (\<lambda>b x.
          give b (i\<lparr>m_plugName := Some x\<rparr>))
      else if m_infoType i = eIT_NoOfChannels then
        get (NumberOfChannels_deserialize (or_new 0 (m_plugNrOfChns i))) (\<lambda>b x.
          give b (i\<lparr>m_plugNrOfChns := Some x\<rparr>))
      else if m_infoType i = eIT_ChannelPosition then
        get (ChannelPosition_deserialize ind (or_new ChannelPosition_new (m_plugChannelPosition i)))
          (\<lambda>b x. give b (i\<lparr>m_plugChannelPosition := Some x\<rparr>))
      else if m_infoType i = eIT_ChannelName then
        get (ChannelName_deserialize ind (or_new ChannelName_new (m_plugChannelName i))) (\<lambda>b x.
          give b (i\<lparr>m_plugChannelName := Some x\<rparr>))
      else if m_infoType i = eIT_PlugInput then
        get (PlugInput_deserialize (or_new PlugInput_new (m_plugInput i))) (\<lambda>b x.
          give b (i\<lparr>m_plugInput := Some x\<rparr>))
      else if m_infoType i = eIT_PlugOutput then
        get (PlugOutput_deserialize (or_new PlugOutput_new (m_plugOutput i))) (\<lambda>b x.
          give b (i\<lparr>m_plugOutput := Some x\<rparr>))
      else if m_infoType i = eIT_ClusterInfo then
        get (ClusterInfo_deserialize ind (or_new ClusterInfo_new (m_plugClusterInfo i))) (\<lambda>b x.
          give b (i\<lparr>m_plugClusterInfo := Some x\<rparr>))
      else give False i)"

definition InfoType_deserialize :: "indeterminate \<Rightarrow> info_type \<Rightarrow> info_type reader" where
  "InfoType_deserialize ind i =
     get (read_byte (m_infoType i)) (\<lambda>_ t. InfoType_deserialize_data ind (i\<lparr>m_infoType := t\<rparr>))"

section \<open>The command\<close>

record extended_plug_info = avc_command +
  m_subFunction :: byte
  m_plugAddress :: plug_address
  m_infoType :: info_type

definition ExtendedPlugInfoCmd :: "byte list \<Rightarrow> byte \<Rightarrow> byte \<Rightarrow> extended_plug_info" where
  "ExtendedPlugInfoCmd f ct eSubFunction = avc_command.extend (AVCCommand 0x02 f ct)
     (extended_plug_info.fields eSubFunction
       (PlugAddress ePD_Output ePAM_Unit (UnitPlugAddress_new ePT_PCR 0x00))
       (snd (InfoType_initialize (InfoType eIT_PlugType))))"

definition PlugInfo_setPlugAddress :: "plug_address \<Rightarrow> extended_plug_info \<Rightarrow> extended_plug_info" where
  "PlugInfo_setPlugAddress a c = c\<lparr>m_plugAddress := a\<rparr>"

definition PlugInfo_setSubFunction :: "byte \<Rightarrow> extended_plug_info \<Rightarrow> extended_plug_info" where
  "PlugInfo_setSubFunction subFunction c = c\<lparr>m_subFunction := subFunction\<rparr>"

definition setInfoType :: "info_type \<Rightarrow> extended_plug_info \<Rightarrow> extended_plug_info result" where
  "setInfoType i c = bind_result (InfoType_clone i) (\<lambda>i. Inr (c\<lparr>m_infoType := i\<rparr>))"

definition ExtendedPlugInfoCmd_serialize :: "extended_plug_info \<Rightarrow> writer" where
  "ExtendedPlugInfoCmd_serialize c =
     after (AVCCommand_serialize c)
       (after (write_byte (m_subFunction c))
         (also_ok (PlugAddress_serialize (m_plugAddress c))
           (InfoType_serialize (extended_plug_info.m_infoType c))))"

definition ExtendedPlugInfoCmd_deserialize ::
    "indeterminate \<Rightarrow> extended_plug_info \<Rightarrow> extended_plug_info reader" where
  "ExtendedPlugInfoCmd_deserialize ind c =
     get (AVCCommand_deserialize c) (\<lambda>_ c.
     get (read_byte (m_subFunction c)) (\<lambda>_ f.
     get (PlugAddress_deserialize (m_plugAddress c)) (\<lambda>status a.
     get (InfoType_deserialize ind (extended_plug_info.m_infoType c)) (\<lambda>b i.
       give (status \<and> b) (c\<lparr>m_subFunction := f, m_plugAddress := a, extended_plug_info.m_infoType := i\<rparr>)))))"

section \<open>What the data sends and parses\<close>

definition channel_bytes :: "channel_info \<Rightarrow> byte list" where
  "channel_bytes c = [channel_info.m_streamPosition c, m_location c]"

definition cluster_bytes :: "cluster_info \<Rightarrow> byte list" where
  "cluster_bytes c = m_nrOfChannels c # concat (map channel_bytes (m_channelInfos c))"

definition cluster_proper :: "cluster_info \<Rightarrow> bool" where
  "cluster_proper c \<longleftrightarrow> unat (m_nrOfChannels c) = length (m_channelInfos c)"

definition position_bytes :: "channel_position \<Rightarrow> byte list" where
  "position_bytes p = m_nrOfClusters p # concat (map cluster_bytes (m_clusterInfos p))"

definition position_proper :: "channel_position \<Rightarrow> bool" where
  "position_proper p \<longleftrightarrow> unat (m_nrOfClusters p) = length (m_clusterInfos p) \<and>
     (\<forall>c\<in>set (m_clusterInfos p). cluster_proper c)"

lemma sends_channels: "sends (serialize_each serialize_channel cs) (concat (map channel_bytes cs))"
  by (intro sends_each) (simp add: serialize_channel_def channel_bytes_def sends_writes)

lemma sends_cluster: "sends (serialize_cluster c) (cluster_bytes c)"
  using sends_after [OF sends_byte sends_channels]
  unfolding serialize_cluster_def cluster_bytes_def by fastforce

lemma gets_channel: "gets (deserialize_channel ind j) c (channel_bytes c)"
  unfolding deserialize_channel_def channel_bytes_def get_reads_simps
  by (intro gets_get_byte gets_end) simp_all

lemma gets_channels:
  "gets (deserialize_each (deserialize_channel ind) k (length cs) []) cs (concat (map channel_bytes cs))"
  using gets_each [where acc = "[]" and f = "deserialize_channel ind", OF gets_channel] by simp

lemma gets_cluster: "cluster_proper c \<Longrightarrow> gets (deserialize_cluster ind i) c (cluster_bytes c)"
  unfolding deserialize_cluster_def cluster_bytes_def
  by (cases c) (auto simp: cluster_proper_def intro!: gets_get_byte gets_get_end [OF gets_channels] gets_end)

lemma gets_clusters:
  "\<forall>c\<in>set cs. cluster_proper c \<Longrightarrow>
   gets (deserialize_each (deserialize_cluster ind) k (length cs) []) cs (concat (map cluster_bytes cs))"
  using gets_each [where acc = "[]" and f = "deserialize_cluster ind" and bytes = cluster_bytes and xs = cs]
    gets_cluster by simp

interpretation channel_position: bus_data ChannelPosition_serialize "ChannelPosition_deserialize ind"
  position_bytes "\<lambda>x. []" position_proper "\<lambda>y x. True" "\<lambda>y x. x" for ind
proof (rule bus_dataI)
  fix x y
  have "sends (serialize_each serialize_cluster cs) (concat (map cluster_bytes cs))" for cs
    by (intro sends_each sends_cluster)
  from sends_after [OF sends_byte sends_then_true [OF this]]
  show "sends (ChannelPosition_serialize x) (position_bytes x)"
    unfolding ChannelPosition_serialize_def position_bytes_def by fastforce
  assume x: "position_proper x"
  then have "gets (deserialize_each (deserialize_cluster ind) 0 (unat (m_nrOfClusters x)) [])
      (m_clusterInfos x) (concat (map cluster_bytes (m_clusterInfos x)))"
    using gets_clusters [of "m_clusterInfos x"] by (simp add: position_proper_def)
  then show "gets (ChannelPosition_deserialize ind y) x (position_bytes x)"
    unfolding ChannelPosition_deserialize_def position_bytes_def
    by (auto intro!: gets_get_byte gets_get_end gets_end)
qed

text \<open>A name that is parsed unchanged: as long as announced, no zero byte, no ampersand.\<close>

definition name_proper :: "byte \<Rightarrow> byte list \<Rightarrow> bool" where
  "name_proper len name \<longleftrightarrow> unat len = length name \<and> 0 \<notin> set name \<and> 0x26 \<notin> set name"

lemma gets_name: "0x26 \<notin> set cs \<Longrightarrow> gets (read_name ind i (length cs) name) (name @ cs) cs"
proof (induction cs arbitrary: i name)
  case (Cons c cs)
  have "gets (read_name ind (Suc i) (length cs) (name @ [c])) ((name @ [c]) @ cs) cs"
    using Cons by (intro Cons.IH) simp
  then show ?case using Cons.prems by (auto simp: Let_def intro!: gets_get_byte)
qed (simp add: gets_give)

lemma take_name: "0 \<notin> set name \<Longrightarrow> takeWhile (\<lambda>c. c \<noteq> 0) (name @ [0]) = name" for name :: "byte list"
  by (subst takeWhile_append2) auto

definition channel_name_bytes :: "channel_name \<Rightarrow> byte list" where
  "channel_name_bytes c = channel_name.m_streamPosition c # channel_name.m_stringLength c # channel_name.m_plugChannelName c"

definition channel_name_proper :: "channel_name \<Rightarrow> bool" where
  "channel_name_proper c \<longleftrightarrow> name_proper (channel_name.m_stringLength c) (channel_name.m_plugChannelName c)"

interpretation channel_name: bus_data ChannelName_serialize "ChannelName_deserialize ind"
  channel_name_bytes "\<lambda>x. []" channel_name_proper "\<lambda>y x. True" "\<lambda>y x. x" for ind
proof (rule bus_dataI)
  fix x y
  show "sends (ChannelName_serialize x) (channel_name_bytes x)"
    using sends_writes_after [OF sends_then_true [OF sends_writes [of "channel_name.m_plugChannelName x"]],
        of "[channel_name.m_streamPosition x, channel_name.m_stringLength x]"]
    by (simp add: ChannelName_serialize_def channel_name_bytes_def)
  assume "channel_name_proper x"
  then show "gets (ChannelName_deserialize ind y) x (channel_name_bytes x)"
    using gets_name [of "channel_name.m_plugChannelName x" ind 0 "[]"]
    unfolding ChannelName_deserialize_def channel_name_bytes_def get_reads_simps
    by (auto simp: channel_name_proper_def name_proper_def take_name
        intro!: gets_get_byte gets_get_end gets_end)
qed

definition cluster_name_bytes :: "cluster_name \<Rightarrow> byte list" where
  "cluster_name_bytes c = m_clusterIndex c # m_portType c # m_stringLength c # m_clusterName c"

definition cluster_name_proper :: "cluster_name \<Rightarrow> bool" where
  "cluster_name_proper c \<longleftrightarrow> name_proper (m_stringLength c) (m_clusterName c)"

interpretation cluster_name: bus_data ClusterInfo_serialize "ClusterInfo_deserialize ind"
  cluster_name_bytes "\<lambda>x. []" cluster_name_proper "\<lambda>y x. True" "\<lambda>y x. x" for ind
proof (rule bus_dataI)
  fix x y
  show "sends (ClusterInfo_serialize x) (cluster_name_bytes x)"
    using sends_writes_after [OF sends_then_true [OF sends_writes [of "m_clusterName x"]],
        of "[m_clusterIndex x, m_portType x, m_stringLength x]"]
    by (simp add: ClusterInfo_serialize_def cluster_name_bytes_def)
  assume "cluster_name_proper x"
  then show "gets (ClusterInfo_deserialize ind y) x (cluster_name_bytes x)"
    using gets_name [of "m_clusterName x" ind 0 "[]"]
    unfolding ClusterInfo_deserialize_def cluster_name_bytes_def get_reads_simps
    by (auto simp: cluster_name_proper_def name_proper_def take_name
        intro!: gets_get_byte gets_get_end gets_end)
qed

definition plug_output_bytes :: "plug_output \<Rightarrow> byte list" where
  "plug_output_bytes p = m_nrOfOutputPlugs p # concat (map plug_address_bytes (m_outputPlugAddresses p))"

definition plug_output_proper :: "plug_output \<Rightarrow> bool" where
  "plug_output_proper p \<longleftrightarrow> unat (m_nrOfOutputPlugs p) = length (m_outputPlugAddresses p) \<and>
     (\<forall>a\<in>set (m_outputPlugAddresses p). specific_data_proper a)"

text \<open>The received addresses are appended to the ones the object has.\<close>

definition plug_output_received :: "plug_output \<Rightarrow> plug_output \<Rightarrow> plug_output" where
  "plug_output_received y x = PlugOutput (m_nrOfOutputPlugs x)
     (m_outputPlugAddresses y @ m_outputPlugAddresses x)"

lemma gets_specific_data:
  "specific_data_proper x \<Longrightarrow> gets (PlugAddressSpecificData_deserialize y) x (plug_address_bytes x)"
  using plug_address_specific.deserialize_parses by (simp add: gets_def)

interpretation plug_output: bus_data PlugOutput_serialize PlugOutput_deserialize plug_output_bytes
  "\<lambda>x. []" plug_output_proper "\<lambda>y x. True" plug_output_received
proof (rule bus_dataI)
  fix x y assume x: "plug_output_proper x"
  have "sends (serialize_each PlugAddressSpecificData_serialize (m_outputPlugAddresses x))
      (concat (map plug_address_bytes (m_outputPlugAddresses x)))"
    using plug_address_specific.serialize_sends x by (intro sends_each) (simp add: plug_output_proper_def)
  from sends_after [OF sends_byte sends_then_true [OF this]]
  show "sends (PlugOutput_serialize x) (plug_output_bytes x)"
    unfolding PlugOutput_serialize_def plug_output_bytes_def by fastforce
  have "gets (deserialize_each (\<lambda>i. PlugAddressSpecificData_deserialize PlugInput_new) 0
        (unat (m_nrOfOutputPlugs x)) (m_outputPlugAddresses y))
      (m_outputPlugAddresses y @ m_outputPlugAddresses x)
      (concat (map plug_address_bytes (m_outputPlugAddresses x)))"
    using gets_each [where xs = "m_outputPlugAddresses x" and bytes = plug_address_bytes
        and f = "\<lambda>i. PlugAddressSpecificData_deserialize PlugInput_new"] gets_specific_data x
    by (simp add: plug_output_proper_def)
  then show "gets (PlugOutput_deserialize y) (plug_output_received y x) (plug_output_bytes x)"
    unfolding PlugOutput_deserialize_def plug_output_bytes_def plug_output_received_def
    by (auto intro!: gets_get_byte gets_get_end gets_end)
qed

section \<open>The info type and the command as data classes\<close>

definition sent_if :: "('b \<Rightarrow> byte list) \<Rightarrow> 'b option \<Rightarrow> byte list" where
  "sent_if f p = (case p of None \<Rightarrow> [] | Some x \<Rightarrow> f x)"

definition set_and :: "('b \<Rightarrow> bool) \<Rightarrow> 'b option \<Rightarrow> bool" where
  "set_and P p \<longleftrightarrow> (case p of None \<Rightarrow> False | Some x \<Rightarrow> P x)"

definition info_bytes :: "info_type \<Rightarrow> byte list" where
  "info_bytes i =
     (let t = info_type.m_infoType i in t #
       (if t = eIT_PlugType then sent_if (\<lambda>x. [x]) (info_type.m_plugType i)
        else if t = eIT_NoOfChannels then sent_if (\<lambda>x. [x]) (m_plugNrOfChns i)
        else if t = eIT_ChannelPosition then sent_if position_bytes (m_plugChannelPosition i)
        else if t = eIT_ChannelName then sent_if channel_name_bytes (info_type.m_plugChannelName i)
        else if t = eIT_PlugInput then sent_if plug_address_bytes (m_plugInput i)
        else if t = eIT_PlugOutput then sent_if plug_output_bytes (m_plugOutput i)
        else sent_if cluster_name_bytes (m_plugClusterInfo i)))"

text \<open>Every kind of data but the plug name, which is not parsed reliably.\<close>

definition info_proper :: "info_type \<Rightarrow> bool" where
  "info_proper i \<longleftrightarrow>
     (let t = info_type.m_infoType i in
      if t = eIT_PlugType then set_and (\<lambda>x. True) (info_type.m_plugType i)
      else if t = eIT_NoOfChannels then set_and (\<lambda>x. True) (m_plugNrOfChns i)
      else if t = eIT_ChannelPosition then set_and position_proper (m_plugChannelPosition i)
      else if t = eIT_ChannelName then set_and channel_name_proper (info_type.m_plugChannelName i)
      else if t = eIT_PlugInput then set_and specific_data_proper (m_plugInput i)
      else if t = eIT_PlugOutput then set_and plug_output_proper (m_plugOutput i)
      else t = eIT_ClusterInfo \<and> set_and cluster_name_proper (m_plugClusterInfo i))"

definition info_received :: "info_type \<Rightarrow> info_type \<Rightarrow> info_type" where
  "info_received y x =
     (let t = info_type.m_infoType x; y = y\<lparr>info_type.m_infoType := t\<rparr> in
      if t = eIT_PlugType then y\<lparr>info_type.m_plugType := info_type.m_plugType x\<rparr>
      else if t = eIT_NoOfChannels then y\<lparr>m_plugNrOfChns := m_plugNrOfChns x\<rparr>
      else if t = eIT_ChannelPosition then y\<lparr>m_plugChannelPosition := m_plugChannelPosition x\<rparr>
      else if t = eIT_ChannelName then y\<lparr>info_type.m_plugChannelName := info_type.m_plugChannelName x\<rparr>
      else if t = eIT_PlugInput then y\<lparr>m_plugInput := m_plugInput x\<rparr>
      else if t = eIT_PlugOutput then
        y\<lparr>m_plugOutput := map_option (plug_output_received (or_new PlugOutput_new (m_plugOutput y)))
           (m_plugOutput x)\<rparr>
      else y\<lparr>m_plugClusterInfo := m_plugClusterInfo x\<rparr>)"

lemma info_type_cases:
  assumes "info_proper x"
  obtains v where "info_type.m_infoType x = eIT_PlugType" "info_type.m_plugType x = Some v"
  | v where "info_type.m_infoType x = eIT_NoOfChannels" "m_plugNrOfChns x = Some v"
  | v where "info_type.m_infoType x = eIT_ChannelPosition" "m_plugChannelPosition x = Some v" "position_proper v"
  | v where "info_type.m_infoType x = eIT_ChannelName" "info_type.m_plugChannelName x = Some v" "channel_name_proper v"
  | v where "info_type.m_infoType x = eIT_PlugInput" "m_plugInput x = Some v" "specific_data_proper v"
  | v where "info_type.m_infoType x = eIT_PlugOutput" "m_plugOutput x = Some v" "plug_output_proper v"
  | v where "info_type.m_infoType x = eIT_ClusterInfo" "m_plugClusterInfo x = Some v" "cluster_name_proper v"
proof -
  let ?t = "info_type.m_infoType x"
  consider "?t = eIT_PlugType" | "?t = eIT_NoOfChannels" | "?t = eIT_ChannelPosition" | "?t = eIT_ChannelName" | "?t = eIT_PlugInput" | "?t = eIT_PlugOutput"
    | "?t = eIT_ClusterInfo"
    using assms unfolding info_proper_def Let_def by argo
  then show thesis
  proof cases
    case 1
    then show thesis using assms that(1) by (cases "info_type.m_plugType x") (simp_all add: info_proper_def set_and_def)
  next
    case 2
    then show thesis using assms that(2) by (cases "m_plugNrOfChns x") (simp_all add: info_proper_def set_and_def)
  next
    case 3
    then show thesis using assms that(3) by (cases "m_plugChannelPosition x") (simp_all add: info_proper_def set_and_def)
  next
    case 4
    then show thesis using assms that(4) by (cases "info_type.m_plugChannelName x") (simp_all add: info_proper_def set_and_def)
  next
    case 5
    then show thesis using assms that(5) by (cases "m_plugInput x") (simp_all add: info_proper_def set_and_def)
  next
    case 6
    then show thesis using assms that(6) by (cases "m_plugOutput x") (simp_all add: info_proper_def set_and_def)
  next
    case 7
    then show thesis using assms that(7) by (cases "m_plugClusterInfo x") (simp_all add: info_proper_def set_and_def)
  qed
qed

lemma infoTypeToString_Inr: "t < 8 \<Longrightarrow> \<exists>n. extendedPlugInfoInfoTypeToString t = Inr n"
  by (auto simp: extendedPlugInfoInfoTypeToString_def string_at_def word_less_nat_alt
      extendedPlugInfoInfoTypeStrings_def)

lemma sends_info_data: "info_proper x \<Longrightarrow> sends (InfoType_serialize_data x) (tl (info_bytes x))"
proof (erule info_type_cases)
  fix v assume "info_type.m_infoType x = eIT_PlugType" "info_type.m_plugType x = Some v"
  then show ?thesis
    by (simp add: InfoType_serialize_data_def info_bytes_def serialize_if_def sent_if_def
        PlugType_serialize_def sends_then_true sends_byte)
next
  fix v assume "info_type.m_infoType x = eIT_NoOfChannels" "m_plugNrOfChns x = Some v"
  then show ?thesis
    by (simp add: InfoType_serialize_data_def info_bytes_def serialize_if_def sent_if_def
        NumberOfChannels_serialize_def sends_then_true sends_byte)
next
  fix v assume "info_type.m_infoType x = eIT_ChannelPosition" "m_plugChannelPosition x = Some v"
    "position_proper v"
  then show ?thesis
    using channel_position.serialize_sends [of v]
    by (simp add: InfoType_serialize_data_def info_bytes_def serialize_if_def sent_if_def sends_then_true)
next
  fix v assume "info_type.m_infoType x = eIT_ChannelName" "info_type.m_plugChannelName x = Some v"
    "channel_name_proper v"
  then show ?thesis
    using channel_name.serialize_sends [of v]
    by (simp add: InfoType_serialize_data_def info_bytes_def serialize_if_def sent_if_def sends_then_true)
next
  fix v assume "info_type.m_infoType x = eIT_PlugInput" "m_plugInput x = Some v" "specific_data_proper v"
  then show ?thesis
    using plug_address_specific.serialize_sends [of v]
    by (simp add: InfoType_serialize_data_def info_bytes_def serialize_if_def sent_if_def sends_then_true
        PlugInput_serialize_def)
next
  fix v assume "info_type.m_infoType x = eIT_PlugOutput" "m_plugOutput x = Some v" "plug_output_proper v"
  then show ?thesis
    using plug_output.serialize_sends [of v]
    by (simp add: InfoType_serialize_data_def info_bytes_def serialize_if_def sent_if_def sends_then_true)
next
  fix v assume "info_type.m_infoType x = eIT_ClusterInfo" "m_plugClusterInfo x = Some v"
    "cluster_name_proper v"
  then show ?thesis
    using cluster_name.serialize_sends [of v]
    by (simp add: InfoType_serialize_data_def info_bytes_def serialize_if_def sent_if_def sends_then_true)
qed

lemma sends_info: "info_proper x \<Longrightarrow> sends (InfoType_serialize x) (info_bytes x)"
proof -
  assume x: "info_proper x"
  then have "info_type.m_infoType x < 8" by (rule info_type_cases) simp_all
  then obtain n where "extendedPlugInfoInfoTypeToString (info_type.m_infoType x) = Inr n"
    using infoTypeToString_Inr by blast
  then have "InfoType_serialize x = after (write_byte (info_type.m_infoType x)) (InfoType_serialize_data x)"
    by (simp add: InfoType_serialize_def fun_eq_iff)
  then show ?thesis
    using sends_after [OF sends_byte sends_info_data [OF x]] by (simp add: info_bytes_def Let_def)
qed

lemma gets_then: "gets f v bs \<Longrightarrow> k v = z \<Longrightarrow> gets (get f (\<lambda>b x. give b (k x))) z bs"
  by (rule gets_get_end) (auto intro: gets_end)

lemma gets_info_data:
  fixes x y :: info_type
  defines "z \<equiv> y\<lparr>info_type.m_infoType := info_type.m_infoType x\<rparr>"
  assumes "info_proper x"
  shows "gets (InfoType_deserialize_data ind z) (info_received y x) (tl (info_bytes x))"
  using assms(2)
proof (rule info_type_cases)
  fix v assume v: "info_type.m_infoType x = eIT_PlugType" "info_type.m_plugType x = Some v"
  have g: "gets (PlugType_deserialize q) v [v]" for q
    unfolding PlugType_deserialize_def by (intro gets_get_byte gets_end) simp_all
  show ?thesis
    unfolding InfoType_deserialize_data_def z_def using v
    by (auto simp: info_bytes_def sent_if_def info_received_def intro!: gets_then [OF g])
next
  fix v assume v: "info_type.m_infoType x = eIT_NoOfChannels" "m_plugNrOfChns x = Some v"
  have g: "gets (NumberOfChannels_deserialize q) v [v]" for q
    unfolding NumberOfChannels_deserialize_def by (intro gets_get_byte gets_end) simp_all
  show ?thesis
    unfolding InfoType_deserialize_data_def z_def using v
    by (auto simp: info_bytes_def sent_if_def info_received_def intro!: gets_then [OF g])
next
  fix v assume v: "info_type.m_infoType x = eIT_PlugInput" "m_plugInput x = Some v" "specific_data_proper v"
  have g: "gets (PlugInput_deserialize q) v (plug_address_bytes v)" for q
    using gets_specific_data [OF v(3)] by (simp add: PlugInput_deserialize_def)
  show ?thesis
    unfolding InfoType_deserialize_data_def z_def using v
    by (auto simp: info_bytes_def sent_if_def info_received_def intro!: gets_then [OF g])
next
  fix v assume v: "info_type.m_infoType x = eIT_ChannelPosition" "m_plugChannelPosition x = Some v" "position_proper v"
  have g: "gets (ChannelPosition_deserialize ind q) v (position_bytes v)" for q
    using channel_position.deserialize_parses [OF v(3)] by (simp add: gets_def)
  show ?thesis
    unfolding InfoType_deserialize_data_def z_def using v
    by (auto simp: info_bytes_def sent_if_def info_received_def intro!: gets_then [OF g])
next
  fix v assume v: "info_type.m_infoType x = eIT_ChannelName" "info_type.m_plugChannelName x = Some v" "channel_name_proper v"
  have g: "gets (ChannelName_deserialize ind q) v (channel_name_bytes v)" for q
    using channel_name.deserialize_parses [OF v(3)] by (simp add: gets_def)
  show ?thesis
    unfolding InfoType_deserialize_data_def z_def using v
    by (auto simp: info_bytes_def sent_if_def info_received_def intro!: gets_then [OF g])
next
  fix v assume v: "info_type.m_infoType x = eIT_PlugOutput" "m_plugOutput x = Some v" "plug_output_proper v"
  have g: "gets (PlugOutput_deserialize q) (plug_output_received q v) (plug_output_bytes v)" for q
    using plug_output.deserialize_parses [OF v(3)] by (simp add: gets_def)
  show ?thesis
    unfolding InfoType_deserialize_data_def z_def using v
    by (auto simp: info_bytes_def sent_if_def info_received_def intro!: gets_then [OF g])
next
  fix v assume v: "info_type.m_infoType x = eIT_ClusterInfo" "m_plugClusterInfo x = Some v" "cluster_name_proper v"
  have g: "gets (ClusterInfo_deserialize ind q) v (cluster_name_bytes v)" for q
    using cluster_name.deserialize_parses [OF v(3)] by (simp add: gets_def)
  show ?thesis
    unfolding InfoType_deserialize_data_def z_def using v
    by (auto simp: info_bytes_def sent_if_def info_received_def intro!: gets_then [OF g])
qed

lemma gets_info: "info_proper x \<Longrightarrow> gets (InfoType_deserialize ind y) (info_received y x) (info_bytes x)"
proof -
  assume x: "info_proper x"
  have "info_bytes x = info_type.m_infoType x # tl (info_bytes x)"
    by (simp add: info_bytes_def Let_def)
  moreover have "gets (InfoType_deserialize ind y) (info_received y x)
      (info_type.m_infoType x # tl (info_bytes x))"
    unfolding InfoType_deserialize_def by (rule gets_get_byte) (rule gets_info_data [OF x])
  ultimately show ?thesis by simp
qed

interpretation info_type: bus_data InfoType_serialize "InfoType_deserialize ind" info_bytes
  "\<lambda>x. []" info_proper "\<lambda>y x. True" info_received for ind
  by (rule bus_dataI) (simp_all add: sends_info gets_info)

definition extended_plug_info_bytes :: "extended_plug_info \<Rightarrow> byte list" where
  "extended_plug_info_bytes c = base_bytes c @ m_subFunction c # plug_address_bytes (m_plugAddress c)
     @ info_bytes (m_infoType c)"

definition extended_plug_info_proper :: "extended_plug_info \<Rightarrow> bool" where
  "extended_plug_info_proper c \<longleftrightarrow> base_proper c \<and> info_proper (m_infoType c)"

definition extended_plug_info_takes :: "extended_plug_info \<Rightarrow> extended_plug_info \<Rightarrow> bool" where
  "extended_plug_info_takes y x \<longleftrightarrow>
     class_of (m_plugAddressData (m_plugAddress y)) = class_of (m_plugAddressData (m_plugAddress x))"

definition extended_plug_info_received ::
    "extended_plug_info \<Rightarrow> extended_plug_info \<Rightarrow> extended_plug_info" where
  "extended_plug_info_received y x = (base_received y x)\<lparr>m_subFunction := m_subFunction x,
     m_plugAddress := m_plugAddress x, m_infoType := info_received (m_infoType y) (m_infoType x)\<rparr>"

interpretation extended_plug_info: bus_data ExtendedPlugInfoCmd_serialize
  "ExtendedPlugInfoCmd_deserialize ind" extended_plug_info_bytes "\<lambda>x. []"
  extended_plug_info_proper extended_plug_info_takes extended_plug_info_received for ind
proof (rule bus_dataI)
  fix x y assume x: "extended_plug_info_proper x"
  then have b: "base_proper x" and i: "info_proper (m_infoType x)"
    by (simp_all add: extended_plug_info_proper_def)
  have pa: "sends (PlugAddress_serialize (m_plugAddress x)) (plug_address_bytes (m_plugAddress x))"
    using plug_address.serialize_sends by simp
  show "sends (ExtendedPlugInfoCmd_serialize x) (extended_plug_info_bytes x)"
    unfolding ExtendedPlugInfoCmd_serialize_def
    by (rule sends_cong, (rule sends_after sends_also_ok sends_base [OF b] sends_byte pa sends_info [OF i])+)
      (simp add: extended_plug_info_bytes_def)
  assume "extended_plug_info_takes y x"
  then show "gets (ExtendedPlugInfoCmd_deserialize ind y) (extended_plug_info_received y x)
      (extended_plug_info_bytes x)"
    unfolding ExtendedPlugInfoCmd_deserialize_def extended_plug_info_bytes_def
    by (intro gets_get_base gets_get_byte)
      (auto simp: extended_plug_info_takes_def extended_plug_info_received_def base_received_def
        intro!: gets_get_plug_address gets_get_end [OF gets_info [OF i]] gets_end)
qed

end
