(* ===== verification/AVC_FunctionBlock.thy ===== *)
theory AVC_FunctionBlock
  imports AVC_PlugInfo
begin

text \<open>
  The function block command of the audio subunit (\<open>libavc/audiosubunit/avc_function_block.cpp\<close>):
  selectors, features (volume and balance) and processing (mixers).

  A pointer to an optional part of a command is an option. Calling a method through a null pointer
  is the fault \<open>NullPointer\<close>.
\<close>

section \<open>Volume and balance\<close>

datatype feature_volume = FunctionBlockFeatureVolume (m_controlDataLength: byte) (m_volume: u16)

definition FeatureVolume_new :: feature_volume where
  "FeatureVolume_new = FunctionBlockFeatureVolume 2 0"

definition FeatureVolume_serialize :: "feature_volume \<Rightarrow> writer" where
  "FeatureVolume_serialize v =
     writes [m_controlDataLength v, ucast (drop_bit 8 (m_volume v)), ucast (m_volume v AND 0xff)]"

definition FeatureVolume_deserialize :: "indeterminate \<Rightarrow> feature_volume \<Rightarrow> feature_volume reader" where
  "FeatureVolume_deserialize ind v =
     get (read_byte (m_controlDataLength v)) (\<lambda>r0 l.
     get (read_byte (ind 0)) (\<lambda>r1 hi.
     get (read_byte hi) (\<lambda>r2 lo.
       give (r0 \<and> r1 \<and> r2) (FunctionBlockFeatureVolume l (push_bit 8 (ucast hi) OR ucast lo)))))"

datatype feature_lrbalance = FunctionBlockFeatureLRBalance (m_controlDataLength: byte) (m_lrBalance: u16)

definition FeatureLRBalance_new :: feature_lrbalance where
  "FeatureLRBalance_new = FunctionBlockFeatureLRBalance 2 0"

definition FeatureLRBalance_serialize :: "feature_lrbalance \<Rightarrow> writer" where
  "FeatureLRBalance_serialize v =
     writes [feature_lrbalance.m_controlDataLength v, ucast (drop_bit 8 (m_lrBalance v)),
       ucast (m_lrBalance v AND 0xff)]"

definition FeatureLRBalance_deserialize ::
    "indeterminate \<Rightarrow> feature_lrbalance \<Rightarrow> feature_lrbalance reader" where
  "FeatureLRBalance_deserialize ind v =
     get (read_byte (feature_lrbalance.m_controlDataLength v)) (\<lambda>r0 l.
     get (read_byte (ind 0)) (\<lambda>r1 hi.
     get (read_byte hi) (\<lambda>r2 lo.
       give (r0 \<and> r1 \<and> r2) (FunctionBlockFeatureLRBalance l (push_bit 8 (ucast hi) OR ucast lo)))))"

section \<open>Mixers\<close>

abbreviation (input) "eCSE_Processing_Unknown \<equiv> (0x00 :: byte)"
abbreviation (input) "eCSE_Processing_Mixer \<equiv> (0x03 :: byte)"
abbreviation (input) "eCSE_Processing_EnhancedMixer \<equiv> (0xf1 :: byte)"
abbreviation (input) "eSS_ProgramableState \<equiv> (0x00 :: byte)"
abbreviation (input) "eSS_Level \<equiv> (0x01 :: byte)"

datatype processing_mixer = FunctionBlockProcessingMixer
  (m_controlSelector: byte) (m_controlDataLength: byte) (m_mixerSetting: u16)

definition ProcessingMixer_new :: processing_mixer where
  "ProcessingMixer_new = FunctionBlockProcessingMixer eCSE_Processing_Mixer 2 0"

text \<open>The copy constructor resets the setting.\<close>

definition ProcessingMixer_copy :: "processing_mixer \<Rightarrow> processing_mixer" where
  "ProcessingMixer_copy rhs = FunctionBlockProcessingMixer (m_controlSelector rhs) 2 0"

definition ProcessingMixer_serialize :: "processing_mixer \<Rightarrow> writer" where
  "ProcessingMixer_serialize m =
     also_ok (write_byte (m_controlSelector m))
       (also_ok (write_byte (processing_mixer.m_controlDataLength m)) (write_u16 (m_mixerSetting m)))"

definition ProcessingMixer_deserialize ::
    "indeterminate \<Rightarrow> processing_mixer \<Rightarrow> processing_mixer reader" where
  "ProcessingMixer_deserialize ind m =
     get (read_byte (m_controlSelector m)) (\<lambda>r0 s.
     get (read_byte (processing_mixer.m_controlDataLength m)) (\<lambda>r1 l.
     get (read_u16 (m_mixerSetting m)) (\<lambda>r2 v.
     get (read_byte (ind 0)) (\<lambda>r3 padding.
     get (read_byte padding) (\<lambda>r4 padding.
       give (r0 \<and> r1 \<and> r2 \<and> r3 \<and> r4) (FunctionBlockProcessingMixer s l v))))))"

datatype enhanced_mixer = FunctionBlockProcessingEnhancedMixer
  (m_controlSelector: byte) (m_statusSelector: byte) (m_controlDataLength: u16)
  (m_ProgramableStateData: "byte list") (m_LevelData: "u16 list")

definition EnhancedMixer_new :: enhanced_mixer where
  "EnhancedMixer_new =
     FunctionBlockProcessingEnhancedMixer eCSE_Processing_EnhancedMixer eSS_Level 0 [] []"

text \<open>Eight states of a mixer are packed into a byte, the first one in the highest bit.\<close>

definition state_byte :: "byte list \<Rightarrow> nat \<Rightarrow> byte" where
  "state_byte states i =
     fold (\<lambda>j v. v OR push_bit (7 - j) (states ! (i * 8 + j))) [0..<8] 0"

text \<open>
  The length that is sent is computed from the data; the member that holds it is only a
  temporary of this method, since every use of it follows an assignment.
\<close>

definition EnhancedMixer_serialize :: "enhanced_mixer \<Rightarrow> writer" where
  "EnhancedMixer_serialize m =
     also_ok (writes [enhanced_mixer.m_controlSelector m, m_statusSelector m])
       (if m_statusSelector m = eSS_ProgramableState then
          (let len = word_of_nat (length (m_ProgramableStateData m) div 8) :: u16 in
           also_ok (writes [ucast (drop_bit 8 len), ucast (len AND 0xff)])
             (writes (map (state_byte (m_ProgramableStateData m)) [0..<unat len])))
        else if m_statusSelector m = eSS_Level then
          (let len = word_of_nat (length (m_LevelData m) * 2) :: u16 in
           also_ok (writes [ucast (drop_bit 8 len), ucast (len AND 0xff)])
             (writes (concat (map (\<lambda>i. let v = m_LevelData m ! i in
                 [ucast (drop_bit 8 v), ucast (v AND 0xff)]) [0..<unat len div 2]))))
        else done_with True)"

fun read_levels :: "nat \<Rightarrow> bool \<Rightarrow> u16 list \<Rightarrow> u16 list reader" where
  "read_levels 0 b levels = give b levels"
| "read_levels (Suc n) b levels =
     get (reads [0, 0]) (\<lambda>r v.
       read_levels n (b \<and> r) (levels @ [push_bit 8 (ucast (v ! 0)) + ucast (v ! 1)]))"

text \<open>
  The two selectors of the response are read and then overwritten, so only levels are parsed.
\<close>

definition EnhancedMixer_deserialize ::
    "indeterminate \<Rightarrow> enhanced_mixer \<Rightarrow> enhanced_mixer reader" where
  "EnhancedMixer_deserialize ind m =
     get (reads [enhanced_mixer.m_controlSelector m, m_statusSelector m]) (\<lambda>r0 _.
     get (reads [ind 0, ind 1]) (\<lambda>r1 v.
       (let len = push_bit 8 (ucast (v ! 0)) + ucast (v ! 1) :: u16 in
     get (read_levels (unat len div 2) (r0 \<and> r1) []) (\<lambda>b levels.
       give b (FunctionBlockProcessingEnhancedMixer eCSE_Processing_EnhancedMixer eSS_Level len
         (m_ProgramableStateData m) levels)))))"

section \<open>Selector, feature, processing, codec\<close>

datatype fb_selector = FunctionBlockSelector
  (m_selectorLength: byte) (m_inputFbPlugNumber: byte) (m_controlSelector: byte)

definition Selector_new :: fb_selector where
  "Selector_new = FunctionBlockSelector 2 0 1"

definition Selector_serialize :: "fb_selector \<Rightarrow> writer" where
  "Selector_serialize s =
     writes [m_selectorLength s, m_inputFbPlugNumber s, fb_selector.m_controlSelector s]"

definition Selector_deserialize :: "fb_selector \<Rightarrow> fb_selector reader" where
  "Selector_deserialize s =
     get (reads [m_selectorLength s, m_inputFbPlugNumber s, fb_selector.m_controlSelector s]) (\<lambda>b v.
       give b (FunctionBlockSelector (v ! 0) (v ! 1) (v ! 2)))"

abbreviation (input) "eCSE_Feature_Unknown \<equiv> (0x00 :: byte)"
abbreviation (input) "eCSE_Feature_Volume \<equiv> (0x02 :: byte)"
abbreviation (input) "eCSE_Feature_LRBalance \<equiv> (0x03 :: byte)"

datatype fb_feature = FunctionBlockFeature
  (m_selectorLength: byte) (m_audioChannelNumber: byte) (m_controlSelector: byte)
  (m_pVolume: "feature_volume option") (m_pLRBalance: "feature_lrbalance option")

definition Feature_new :: fb_feature where
  "Feature_new = FunctionBlockFeature 2 0 eCSE_Feature_Unknown None None"

definition call :: "('b \<Rightarrow> writer) \<Rightarrow> 'b option \<Rightarrow> writer" where
  "call f p s = (case p of None \<Rightarrow> Inl NullPointer | Some x \<Rightarrow> f x s)"

definition call_reader :: "('b \<Rightarrow> 'b reader) \<Rightarrow> 'b option \<Rightarrow> 'b reader" where
  "call_reader f p d = (case p of None \<Rightarrow> Inl NullPointer | Some x \<Rightarrow> f x d)"

definition Feature_serialize :: "fb_feature \<Rightarrow> writer" where
  "Feature_serialize f =
     also_ok (writes [fb_feature.m_selectorLength f, m_audioChannelNumber f, fb_feature.m_controlSelector f])
       (if fb_feature.m_controlSelector f = eCSE_Feature_Volume then
          call FeatureVolume_serialize (m_pVolume f)
        else if fb_feature.m_controlSelector f = eCSE_Feature_LRBalance then
          call FeatureLRBalance_serialize (m_pLRBalance f)
        else done_with False)"

definition Feature_deserialize :: "indeterminate \<Rightarrow> fb_feature \<Rightarrow> fb_feature reader" where
  "Feature_deserialize ind f =
     get (reads [fb_feature.m_selectorLength f, m_audioChannelNumber f, fb_feature.m_controlSelector f]) (\<lambda>b v.
       if v ! 2 = eCSE_Feature_Volume then
         get (call_reader (FeatureVolume_deserialize ind) (m_pVolume f)) (\<lambda>r x.
           give (b \<and> r) (FunctionBlockFeature (v ! 0) (v ! 1) (v ! 2) (Some x) (m_pLRBalance f)))
       else if v ! 2 = eCSE_Feature_LRBalance then
         get (call_reader (FeatureLRBalance_deserialize ind) (m_pLRBalance f)) (\<lambda>r x.
           give (b \<and> r) (FunctionBlockFeature (v ! 0) (v ! 1) (v ! 2) (m_pVolume f) (Some x)))
       else give False (FunctionBlockFeature (v ! 0) (v ! 1) (v ! 2) (m_pVolume f) (m_pLRBalance f)))"

datatype fb_processing = FunctionBlockProcessing
  (m_selectorLength: byte) (m_fbInputPlugNumber: byte)
  (m_inputAudioChannelNumber: byte) (m_outputAudioChannelNumber: byte)
  (m_pMixer: "processing_mixer option") (m_pEnhancedMixer: "enhanced_mixer option")

definition Processing_new :: fb_processing where
  "Processing_new = FunctionBlockProcessing 4 0 0 0 None None"

definition Processing_serialize :: "fb_processing \<Rightarrow> writer" where
  "Processing_serialize p =
     also_ok (writes [fb_processing.m_selectorLength p, m_fbInputPlugNumber p,
         m_inputAudioChannelNumber p, m_outputAudioChannelNumber p])
       (case m_pMixer p of
          Some m \<Rightarrow> ProcessingMixer_serialize m
        | None \<Rightarrow> (case m_pEnhancedMixer p of
            Some m \<Rightarrow> EnhancedMixer_serialize m
          | None \<Rightarrow> done_with False))"

text \<open>The loop that reads whatever is left of the response.\<close>

lemma read_byte_True:
  assumes "read_byte v d = Inr ((True, x), d')"
  shows "d' = move 1 d" "unat (m_curPos d) < unat (m_length d)"
  using assms
  by (auto simp: read_byte_def isCurPosValid_iff bind_result_Inr_iff split: if_splits)

lemma unat_inc:
  assumes "unat (p :: u64) < unat (q :: u64)"
  shows "unat (p + 1) = Suc (unat p)"
proof -
  have "unat q < 2 ^ LENGTH(64)" by (rule unsigned_less)
  then show ?thesis using assms unat_plus_small [of p 1] by simp
qed

lemma read_byte_decreases:
  assumes "read_byte v d = Inr ((True, x), d')"
  shows "unat (m_length d') - unat (m_curPos d') < unat (m_length d) - unat (m_curPos d)"
  using read_byte_True [OF assms] unat_inc [of "m_curPos d" "m_length d"] by simp

function drain :: "byte \<Rightarrow> byte reader" where
  "drain v d = (case read_byte v d of
     Inl e \<Rightarrow> Inl e
   | Inr ((b, x), d') \<Rightarrow> (if b then drain x d' else Inr ((False, x), d')))"
  by pat_completeness auto
termination
  by (relation "measure (\<lambda>(v, d). unat (m_length d) - unat (m_curPos d))")
    (auto dest: read_byte_decreases)

declare drain.simps [simp del]

definition Processing_deserialize :: "indeterminate \<Rightarrow> fb_processing \<Rightarrow> fb_processing reader" where
  "Processing_deserialize ind p =
     get (reads [fb_processing.m_selectorLength p, m_fbInputPlugNumber p,
         m_inputAudioChannelNumber p, m_outputAudioChannelNumber p]) (\<lambda>r0 v.
     get (peek_byte (ind 0)) (\<lambda>r1 _.
     get (case m_pMixer p of
          Some m \<Rightarrow> get (ProcessingMixer_deserialize ind m) (\<lambda>r m.
            give (r0 \<and> r1 \<and> r) (FunctionBlockProcessing (v ! 0) (v ! 1) (v ! 2) (v ! 3) (Some m)
              (m_pEnhancedMixer p)))
        | None \<Rightarrow> (case m_pEnhancedMixer p of
            Some m \<Rightarrow> get (EnhancedMixer_deserialize ind m) (\<lambda>r m.
              give (r0 \<and> r1 \<and> r) (FunctionBlockProcessing (v ! 0) (v ! 1) (v ! 2) (v ! 3) None (Some m)))
          | None \<Rightarrow> give False (FunctionBlockProcessing (v ! 0) (v ! 1) (v ! 2) (v ! 3) None None))) (\<lambda>b p.
     get (peek_byte (ind 1)) (\<lambda>more tmp.
       if more then get (drain tmp) (\<lambda>_ _. give b p) else give b p))))"

definition Codec_serialize :: "unit \<Rightarrow> writer" where
  "Codec_serialize c = done_with False"

definition Codec_deserialize :: "unit \<Rightarrow> unit reader" where
  "Codec_deserialize c = give False c"

section \<open>The command\<close>

abbreviation (input) "eFBT_Selector \<equiv> (0x80 :: byte)"
abbreviation (input) "eFBT_Feature \<equiv> (0x81 :: byte)"
abbreviation (input) "eFBT_Processing \<equiv> (0x82 :: byte)"
abbreviation (input) "eFBT_Codec \<equiv> (0x83 :: byte)"

record function_block = avc_command +
  m_functionBlockType :: byte
  m_functionBlockId :: byte
  m_controlAttribute :: byte
  m_pFBSelector :: "fb_selector option"
  m_pFBFeature :: "fb_feature option"
  m_pFBProcessing :: "fb_processing option"
  m_pFBCodec :: "unit option"

definition FunctionBlockCmd :: "byte list \<Rightarrow> byte \<Rightarrow> byte \<Rightarrow> byte \<Rightarrow> byte \<Rightarrow> function_block" where
  "FunctionBlockCmd f ct eType fbid eCtrlAttrib =
     setSubunitType eST_Audio (avc_command.extend (AVCCommand 0xB8 f ct)
       (function_block.fields eType fbid eCtrlAttrib
         (if eType = eFBT_Selector then Some Selector_new else None)
         (if eType = eFBT_Feature then Some Feature_new else None)
         (if eType = eFBT_Processing then Some Processing_new else None)
         (if eType = eFBT_Codec then Some () else None)))"

definition serialize_or_fail :: "('b \<Rightarrow> writer) \<Rightarrow> 'b option \<Rightarrow> writer" where
  "serialize_or_fail f p = (case p of Some x \<Rightarrow> f x | None \<Rightarrow> done_with False)"

definition FunctionBlockCmd_serialize :: "function_block \<Rightarrow> writer" where
  "FunctionBlockCmd_serialize c =
     also_ok (AVCCommand_serialize c)
       (also_ok (writes [function_block.m_functionBlockType c, function_block.m_functionBlockId c,
           m_controlAttribute c])
         (if function_block.m_functionBlockType c = eFBT_Selector then
            serialize_or_fail Selector_serialize (m_pFBSelector c)
          else if function_block.m_functionBlockType c = eFBT_Feature then
            serialize_or_fail Feature_serialize (m_pFBFeature c)
          else if function_block.m_functionBlockType c = eFBT_Processing then
            serialize_or_fail Processing_serialize (m_pFBProcessing c)
          else if function_block.m_functionBlockType c = eFBT_Codec then
            serialize_or_fail Codec_serialize (m_pFBCodec c)
          else done_with False))"

definition FunctionBlock_deserialize_data ::
    "indeterminate \<Rightarrow> bool \<Rightarrow> function_block \<Rightarrow> function_block reader" where
  "FunctionBlock_deserialize_data ind b c =
     (if function_block.m_functionBlockType c = eFBT_Selector then
        get (Selector_deserialize (or_new Selector_new (m_pFBSelector c))) (\<lambda>r x.
          give (b \<and> r) (c\<lparr>m_pFBSelector := Some x\<rparr>))
      else if function_block.m_functionBlockType c = eFBT_Feature then
        get (Feature_deserialize ind (or_new Feature_new (m_pFBFeature c))) (\<lambda>r x.
          give (b \<and> r) (c\<lparr>m_pFBFeature := Some x\<rparr>))
      else if function_block.m_functionBlockType c = eFBT_Processing then
        get (Processing_deserialize ind (or_new Processing_new (m_pFBProcessing c))) (\<lambda>r x.
          give (b \<and> r) (c\<lparr>m_pFBProcessing := Some x\<rparr>))
      else if function_block.m_functionBlockType c = eFBT_Codec then
        get (Codec_deserialize (or_new () (m_pFBCodec c))) (\<lambda>r x.
          give (b \<and> r) (c\<lparr>m_pFBCodec := Some x\<rparr>))
      else give False c)"

definition FunctionBlockCmd_deserialize ::
    "indeterminate \<Rightarrow> function_block \<Rightarrow> function_block reader" where
  "FunctionBlockCmd_deserialize ind c =
     get (AVCCommand_deserialize c) (\<lambda>r0 c.
     get (reads [function_block.m_functionBlockType c, function_block.m_functionBlockId c,
         m_controlAttribute c]) (\<lambda>r1 v.
       FunctionBlock_deserialize_data ind (r0 \<and> r1)
         (c\<lparr>function_block.m_functionBlockType := v ! 0, function_block.m_functionBlockId := v ! 1,
            m_controlAttribute := v ! 2\<rparr>)))"

section \<open>What the parts send and parse\<close>

definition word_bytes :: "u16 \<Rightarrow> byte list" where
  "word_bytes v = [ucast (drop_bit 8 v), ucast (v AND 0xff)]"

lemma word_bytes_masked: "word_bytes v = [ucast (drop_bit 8 v), ucast v]"
proof -
  have m: "(0xff :: u16) = mask 8" by (simp add: mask_eq_exp_minus_1)
  have "ucast (v AND 0xff) = (ucast v :: byte)"
    unfolding m by (rule bit_word_eqI) (auto simp: bit_simps)
  then show ?thesis by (simp add: word_bytes_def)
qed

lemma join_word_bytes:
  "push_bit 8 (ucast (ucast (drop_bit 8 v) :: byte)) OR ucast (ucast (v AND 0xff) :: byte) = (v :: u16)"
proof -
  have m: "(0xff :: u16) = mask 8" by (simp add: mask_eq_exp_minus_1)
  show ?thesis
    unfolding m
  proof (rule bit_word_eqI)
    fix n :: nat assume n: "n < LENGTH(16)"
    show "bit (push_bit 8 (ucast (ucast (drop_bit 8 v) :: byte))
        OR ucast (ucast (v AND mask 8) :: byte) :: u16) n \<longleftrightarrow> bit v n"
      using n by (cases "n < 8") (auto simp: bit_simps)
  qed
qed

lemma unat_ucast_byte_16: "unat (ucast (b :: byte) :: u16) < 2 ^ 8"
proof -
  have "unat b < 2 ^ LENGTH(8)" by (rule unsigned_less)
  then show ?thesis by (simp add: unsigned_ucast_eq take_bit_nat_eq_self)
qed

lemma join_word_bytes_plus:
  "push_bit 8 (ucast (ucast (drop_bit 8 v) :: byte)) + ucast (ucast (v AND 0xff) :: byte) = (v :: u16)"
  using push_bit_or_eq_plus [OF unat_ucast_byte_16] join_word_bytes by metis

definition volume_bytes :: "feature_volume \<Rightarrow> byte list" where
  "volume_bytes v = feature_volume.m_controlDataLength v # word_bytes (m_volume v)"

interpretation feature_volume: bus_data FeatureVolume_serialize "FeatureVolume_deserialize ind"
  volume_bytes "\<lambda>x. []" "\<lambda>x. True" "\<lambda>y x. True" "\<lambda>y x. x" for ind
proof (rule bus_dataI)
  fix x y
  show "sends (FeatureVolume_serialize x) (volume_bytes x)"
    by (simp add: FeatureVolume_serialize_def volume_bytes_def word_bytes_def sends_writes)
  show "gets (FeatureVolume_deserialize ind y) x (volume_bytes x)"
    unfolding FeatureVolume_deserialize_def volume_bytes_def word_bytes_def
    by (intro gets_get_byte gets_end) (simp_all add: join_word_bytes)
qed

definition lrbalance_bytes :: "feature_lrbalance \<Rightarrow> byte list" where
  "lrbalance_bytes v = feature_lrbalance.m_controlDataLength v # word_bytes (m_lrBalance v)"

interpretation feature_lrbalance: bus_data FeatureLRBalance_serialize "FeatureLRBalance_deserialize ind"
  lrbalance_bytes "\<lambda>x. []" "\<lambda>x. True" "\<lambda>y x. True" "\<lambda>y x. x" for ind
proof (rule bus_dataI)
  fix x y
  show "sends (FeatureLRBalance_serialize x) (lrbalance_bytes x)"
    by (simp add: FeatureLRBalance_serialize_def lrbalance_bytes_def word_bytes_def sends_writes)
  show "gets (FeatureLRBalance_deserialize ind y) x (lrbalance_bytes x)"
    unfolding FeatureLRBalance_deserialize_def lrbalance_bytes_def word_bytes_def
    by (intro gets_get_byte gets_end) (simp_all add: join_word_bytes)
qed

definition selector_bytes :: "fb_selector \<Rightarrow> byte list" where
  "selector_bytes s = [fb_selector.m_selectorLength s, m_inputFbPlugNumber s, fb_selector.m_controlSelector s]"

interpretation fb_selector: bus_data Selector_serialize Selector_deserialize
  selector_bytes "\<lambda>x. []" "\<lambda>x. True" "\<lambda>y x. True" "\<lambda>y x. x"
proof (rule bus_dataI)
  fix x y
  show "sends (Selector_serialize x) (selector_bytes x)"
    by (simp add: Selector_serialize_def selector_bytes_def sends_writes)
  show "gets (Selector_deserialize y) x (selector_bytes x)"
    unfolding Selector_deserialize_def selector_bytes_def get_reads_simps
    by (intro gets_get_byte gets_end) simp_all
qed

text \<open>A feature command has the part that its control selector names.\<close>

definition feature_proper :: "fb_feature \<Rightarrow> bool" where
  "feature_proper f \<longleftrightarrow>
     fb_feature.m_controlSelector f = eCSE_Feature_Volume \<and> m_pVolume f \<noteq> None \<or>
     fb_feature.m_controlSelector f = eCSE_Feature_LRBalance \<and> m_pLRBalance f \<noteq> None"

definition feature_bytes :: "fb_feature \<Rightarrow> byte list" where
  "feature_bytes f = fb_feature.m_selectorLength f # m_audioChannelNumber f # fb_feature.m_controlSelector f #
     (if fb_feature.m_controlSelector f = eCSE_Feature_Volume then sent_if volume_bytes (m_pVolume f)
      else sent_if lrbalance_bytes (m_pLRBalance f))"

text \<open>The receiving object has a part of the same kind.\<close>

definition feature_takes :: "fb_feature \<Rightarrow> fb_feature \<Rightarrow> bool" where
  "feature_takes y x \<longleftrightarrow>
     (if fb_feature.m_controlSelector x = eCSE_Feature_Volume then m_pVolume y \<noteq> None
      else m_pLRBalance y \<noteq> None)"

definition feature_received :: "fb_feature \<Rightarrow> fb_feature \<Rightarrow> fb_feature" where
  "feature_received y x =
     (if fb_feature.m_controlSelector x = eCSE_Feature_Volume then
        FunctionBlockFeature (fb_feature.m_selectorLength x) (m_audioChannelNumber x)
          (fb_feature.m_controlSelector x) (m_pVolume x) (m_pLRBalance y)
      else FunctionBlockFeature (fb_feature.m_selectorLength x) (m_audioChannelNumber x)
          (fb_feature.m_controlSelector x) (m_pVolume y) (m_pLRBalance x))"

interpretation fb_feature: bus_data Feature_serialize "Feature_deserialize ind"
  feature_bytes "\<lambda>x. []" feature_proper feature_takes feature_received for ind
proof (rule bus_dataI)
  fix x y assume x: "feature_proper x"
  have v: "sends (FeatureVolume_serialize v) (volume_bytes v)" for v
    using feature_volume.serialize_sends by simp
  have l: "sends (FeatureLRBalance_serialize v) (lrbalance_bytes v)" for v
    using feature_lrbalance.serialize_sends by simp
  have "sends (if fb_feature.m_controlSelector x = eCSE_Feature_Volume then
          call FeatureVolume_serialize (m_pVolume x)
        else if fb_feature.m_controlSelector x = eCSE_Feature_LRBalance then
          call FeatureLRBalance_serialize (m_pLRBalance x)
        else done_with False) (drop 3 (feature_bytes x))"
    using x v l by (auto simp: feature_proper_def feature_bytes_def sent_if_def call_def [abs_def])
  from sends_also_ok [OF sends_writes this,
      of "[fb_feature.m_selectorLength x, m_audioChannelNumber x, fb_feature.m_controlSelector x]"]
  show "sends (Feature_serialize x) (feature_bytes x)"
    by (simp add: Feature_serialize_def feature_bytes_def)
  assume y: "feature_takes y x"
  have v': "gets (FeatureVolume_deserialize ind q) v (volume_bytes v)" for q v
    using feature_volume.deserialize_parses by (simp add: gets_def)
  have l': "gets (FeatureLRBalance_deserialize ind q) v (lrbalance_bytes v)" for q v
    using feature_lrbalance.deserialize_parses by (simp add: gets_def)
  show "gets (Feature_deserialize ind y) (feature_received y x) (feature_bytes x)"
    unfolding Feature_deserialize_def feature_bytes_def get_reads_simps
    using x y
    by (intro gets_get_byte)
      (auto simp: feature_proper_def feature_takes_def feature_received_def sent_if_def
        call_reader_def [abs_def] intro!: gets_get_end [OF v'] gets_get_end [OF l'] gets_end)
qed

definition function_block_bytes :: "function_block \<Rightarrow> byte list" where
  "function_block_bytes c = base_bytes c @ function_block.m_functionBlockType c #
     function_block.m_functionBlockId c # m_controlAttribute c #
     (if function_block.m_functionBlockType c = eFBT_Selector then sent_if selector_bytes (m_pFBSelector c)
      else sent_if feature_bytes (m_pFBFeature c))"

text \<open>Selector and feature commands. Processing commands consume their whole response.\<close>

definition function_block_proper :: "function_block \<Rightarrow> bool" where
  "function_block_proper c \<longleftrightarrow> base_proper c \<and>
     (function_block.m_functionBlockType c = eFBT_Selector \<and> set_and (\<lambda>x. True) (m_pFBSelector c) \<or>
      function_block.m_functionBlockType c = eFBT_Feature \<and> set_and feature_proper (m_pFBFeature c))"

definition function_block_takes :: "function_block \<Rightarrow> function_block \<Rightarrow> bool" where
  "function_block_takes y x \<longleftrightarrow> function_block.m_functionBlockType x = eFBT_Feature \<longrightarrow>
     (\<forall>f. m_pFBFeature x = Some f \<longrightarrow> feature_takes (or_new Feature_new (m_pFBFeature y)) f)"

definition function_block_received :: "function_block \<Rightarrow> function_block \<Rightarrow> function_block" where
  "function_block_received y x =
     (let z = (base_received y x)\<lparr>function_block.m_functionBlockType := function_block.m_functionBlockType x,
        function_block.m_functionBlockId := function_block.m_functionBlockId x,
        m_controlAttribute := m_controlAttribute x\<rparr> in
      if function_block.m_functionBlockType x = eFBT_Selector then z\<lparr>m_pFBSelector := m_pFBSelector x\<rparr>
      else z\<lparr>m_pFBFeature := map_option (feature_received (or_new Feature_new (m_pFBFeature y)))
             (m_pFBFeature x)\<rparr>)"

interpretation function_block: bus_data FunctionBlockCmd_serialize "FunctionBlockCmd_deserialize ind"
  function_block_bytes "\<lambda>x. []" function_block_proper function_block_takes function_block_received for ind
proof (rule bus_dataI)
  fix x y assume x: "function_block_proper x"
  then have b: "base_proper x" by (simp add: function_block_proper_def)
  have sel: "sends (Selector_serialize v) (selector_bytes v)" for v
    using fb_selector.serialize_sends by simp
  have fea: "feature_proper v \<Longrightarrow> sends (Feature_serialize v) (feature_bytes v)" for v
    using fb_feature.serialize_sends by simp
  let ?h = "[function_block.m_functionBlockType x, function_block.m_functionBlockId x, m_controlAttribute x]"
  let ?t = "if function_block.m_functionBlockType x = eFBT_Selector then sent_if selector_bytes (m_pFBSelector x)
      else sent_if feature_bytes (m_pFBFeature x)"
  have "sends (if function_block.m_functionBlockType x = eFBT_Selector then
            serialize_or_fail Selector_serialize (m_pFBSelector x)
          else if function_block.m_functionBlockType x = eFBT_Feature then
            serialize_or_fail Feature_serialize (m_pFBFeature x)
          else if function_block.m_functionBlockType x = eFBT_Processing then
            serialize_or_fail Processing_serialize (m_pFBProcessing x)
          else if function_block.m_functionBlockType x = eFBT_Codec then
            serialize_or_fail Codec_serialize (m_pFBCodec x)
          else done_with False) ?t"
    using x sel fea
    by (auto simp: function_block_proper_def set_and_def serialize_or_fail_def sent_if_def split: option.splits)
  from sends_also_ok [OF sends_base [OF b] sends_also_ok [OF sends_writes [of ?h] this]]
  show "sends (FunctionBlockCmd_serialize x) (function_block_bytes x)"
    by (simp add: FunctionBlockCmd_serialize_def function_block_bytes_def)
  assume y: "function_block_takes y x"
  have sel': "gets (Selector_deserialize q) v (selector_bytes v)" for q v
    using fb_selector.deserialize_parses by (simp add: gets_def)
  have fea': "feature_proper v \<Longrightarrow> feature_takes q v \<Longrightarrow>
      gets (Feature_deserialize ind q) (feature_received q v) (feature_bytes v)" for q v
    using fb_feature.deserialize_parses by (simp add: gets_def)
  show "gets (FunctionBlockCmd_deserialize ind y) (function_block_received y x) (function_block_bytes x)"
    unfolding FunctionBlockCmd_deserialize_def function_block_bytes_def get_reads_simps
    using x y
    by (intro gets_get_base gets_get_byte)
      (auto simp: function_block_proper_def function_block_takes_def function_block_received_def
        FunctionBlock_deserialize_data_def sent_if_def set_and_def base_received_def Let_def
        split: option.splits
        intro!: gets_get_end [OF sel'] gets_get_end [OF fea'] gets_end)
qed

section \<open>Responses of processing commands\<close>

text \<open>The rest of a response is read to its end, whatever it holds.\<close>

lemma drain_end:
  assumes "cursor_ok d"
  shows "\<exists>x d'. drain v d = Inr ((False, x), d') \<and> cursor_ok d' \<and> m_buffer d' = m_buffer d \<and>
    m_length d' = m_length d \<and> unat (m_curPos d') = max (unat (m_curPos d)) (unat (m_length d))"
  using assms
proof (induction v d rule: drain.induct)
  case (1 v d)
  show ?case
  proof (cases "unat (m_curPos d) < unat (m_length d)")
    case lt: True
    then have r: "read_byte v d = Inr ((True, m_buffer d ! unat (m_curPos d)), move 1 d)"
      using load_at_byte [OF 1(2) lt] by (simp add: read_byte_def isCurPosValid_iff)
    have "\<exists>x d'. drain (m_buffer d ! unat (m_curPos d)) (move 1 d) = Inr ((False, x), d') \<and> cursor_ok d' \<and>
        m_buffer d' = m_buffer (move 1 d) \<and> m_length d' = m_length (move 1 d) \<and>
        unat (m_curPos d') = max (unat (m_curPos (move 1 d))) (unat (m_length (move 1 d)))"
      using 1(1) [OF r refl refl TrueI] 1(2) by simp
    then show ?thesis
      using r lt unat_inc [OF lt] by (subst drain.simps) (auto simp: max_def)
  next
    case False
    then have "read_byte v d = Inr ((False, v), d)" by (simp add: read_byte_def isCurPosValid_iff)
    then show ?thesis using False 1(2) by (subst drain.simps) (simp add: max_def)
  qed
qed

definition mixer_bytes :: "processing_mixer \<Rightarrow> byte list" where
  "mixer_bytes m = processing_mixer.m_controlSelector m # processing_mixer.m_controlDataLength m
     # word_bytes (m_mixerSetting m)"

lemma sends_mixer: "sends (ProcessingMixer_serialize m) (mixer_bytes m)"
  unfolding ProcessingMixer_serialize_def mixer_bytes_def
  by (rule sends_cong, (rule sends_also_ok sends_byte sends_u16)+) (simp add: word_bytes_masked)

end
