(* ===== verification/AVC_Responses.thy ===== *)
theory AVC_Responses
  imports AVC_FunctionBlock
begin

text \<open>
  What the commands make of arbitrary bytes. A response comes from a device, so nothing is known of
  it: it may be cut short, name another kind of data than was asked for, or hold any value. For
  every command class the members after \<open>deserialize\<close> are shown to have the values their types in
  the specification allow, whatever was received; the two classes that do not always return are
  described by the faults they can end with.
\<close>

section \<open>Ranges of fields\<close>

lemma drop_bit_byte_less:
  fixes x :: byte
  assumes "n + k = 8" "m = 2 ^ k" "k < 8"
  shows "drop_bit n x < m"
proof -
  have x: "unat x < 2 ^ 8" using unsigned_less [of x] by simp
  have "unat x < 2 ^ (n + k)" using x by (simp only: assms(1))
  then have "unat x div 2 ^ n < 2 ^ k" by (simp add: less_mult_imp_div_less power_add mult.commute)
  moreover have "unat (2 ^ k :: byte) = 2 ^ k"
    using assms(3) unat_of_nat [of "2 ^ k", where 'a = 8] power_strict_increasing [of k 8 "2::nat"] by simp
  moreover have "unat (drop_bit n x) = unat x div 2 ^ n"
    using x by (simp add: unsigned_drop_bit_eq take_bit_nat_eq_self drop_bit_eq_div [of n "unat x"])
  ultimately show ?thesis by (simp only: assms(2) word_less_nat_alt)
qed

lemma masked_byte_less:
  fixes x m :: byte
  assumes "m = 2 ^ k - 1" "k < 8"
  shows "x AND m < m + 1"
proof -
  have "unat (2 ^ k :: byte) = 2 ^ k"
    using assms(2) unat_of_nat [of "2 ^ k", where 'a = 8] power_strict_increasing [of k 8 "2::nat"] by simp
  moreover have "unat (x AND m) < 2 ^ k" using unat_and_mask_minus_one [OF assms(1), of x] by simp
  ultimately show ?thesis by (simp add: assms(1) word_less_nat_alt)
qed

lemma byte_ranges:
  fixes x :: byte
  shows "drop_bit 3 x < 32" "drop_bit 4 x < 16" "drop_bit 5 x < 8"
    "x AND 7 < 8" "x AND 0xf < 16" "x AND 0x3f < 64" "x AND 1 < 2"
  using drop_bit_byte_less [where n = 3 and k = 5 and x = x] drop_bit_byte_less [where n = 4 and k = 4 and x = x]
    drop_bit_byte_less [where n = 5 and k = 3 and x = x] masked_byte_less [where k = 3 and x = x]
    masked_byte_less [where k = 4 and x = x] masked_byte_less [where k = 6 and x = x]
    masked_byte_less [where k = 1 and x = x]
  by simp_all

lemma single_bits:
  fixes x :: byte
  shows "drop_bit 7 (x AND 0x80) < 2" "drop_bit 6 (x AND 0x40) < 2" "drop_bit 4 (x AND 0x10) < 2"
proof -
  have "drop_bit 7 (x AND 0x80) = drop_bit 7 x AND 1" "drop_bit 6 (x AND 0x40) = drop_bit 6 x AND 1"
    "drop_bit 4 (x AND 0x10) = drop_bit 4 x AND 1"
    unfolding byte_masks by (rule bit_word_eqI, auto simp: bit_simps bit_0)+
  then show "drop_bit 7 (x AND 0x80) < 2" "drop_bit 6 (x AND 0x40) < 2" "drop_bit 4 (x AND 0x10) < 2"
    by (simp_all only: byte_ranges)
qed

lemma company_id_less:
  fixes a b c :: byte
  shows "push_bit 16 (ucast a) OR push_bit 8 (ucast b) OR ucast c < (0x1000000 :: u32)"
    (is "?w < _")
proof -
  have w: "?w = take_bit 24 ?w"
  proof (rule bit_word_eqI)
    fix n
    have "bit a (n - 16) \<Longrightarrow> n - 16 < 8" "bit b (n - 8) \<Longrightarrow> n - 8 < 8" "bit c n \<Longrightarrow> n < 8"
      using bit_imp_le_length [of a "n - 16"] bit_imp_le_length [of b "n - 8"] bit_imp_le_length [of c n]
      by simp_all
    then show "bit ?w n = bit (take_bit 24 ?w) n" by (auto simp: bit_simps)
  qed
  have "unat ?w < 2 ^ 24"
    by (subst w, subst unsigned_take_bit_eq) (rule take_bit_nat_less_exp)
  then show ?thesis by (simp add: word_less_nat_alt)
qed

lemma repacked: "push_bit 3 (drop_bit 3 v) OR ((v AND 7) AND 7) = (v :: byte)"
  unfolding byte_masks by (rule bit_word_eqI) (auto simp: bit_simps)

section \<open>General commands\<close>

lemma parses_get_base:
  assumes "\<And>b a s q. parses F (g b (c\<lparr>m_ctype := a, m_subunit := s, m_opcode := q\<rparr>)) P"
  shows "parses F (get (AVCCommand_deserialize c) g) P"
  by (rule parses_get [OF parses_base]) (use assms in auto)

definition unit_info_typed :: "unit_info \<Rightarrow> bool" where
  "unit_info_typed c \<longleftrightarrow> m_unit_type c < 32 \<and> m_unit c < 8 \<and> m_company_id c < 0x1000000"

lemma parses_unit_info: "parses F (UnitInfoCmd_deserialize ind c) unit_info_typed"
  unfolding UnitInfoCmd_deserialize_def Let_def
  by (intro parses_get_base safe_parsing)
    (simp add: unit_info_typed_def byte_ranges company_id_less or.assoc)

lemma parses_table:
  "parses F (read_table k operand t n) (\<lambda>tn. \<exists>es. fst tn = t @ es \<and> length es = k \<and>
     (\<forall>e\<in>set es. entry_typed e) \<and> snd tn = n + valid_entries es)"
proof (induction k arbitrary: operand t n)
  case (Suc k)
  have e: "parses F (read_table k v (t @ [TableEntry (drop_bit 3 v) (v AND 7)])
      (if v \<noteq> 0xff then n + 1 else n)) (\<lambda>tn. \<exists>es. fst tn = t @ es \<and> length es = Suc k \<and>
     (\<forall>e\<in>set es. entry_typed e) \<and> snd tn = n + valid_entries es)" for v
  proof (rule parses_mono [OF Suc.IH order_refl], elim exE conjE)
    fix tn es
    let ?e = "TableEntry (drop_bit 3 v) (v AND 7)"
    assume "fst tn = (t @ [?e]) @ es" "length es = k" "\<forall>e\<in>set es. entry_typed e"
      "snd tn = (if v \<noteq> 0xff then n + 1 else n) + valid_entries es"
    moreover have "pack_entry ?e = v" using repacked [of v] by (simp add: pack_entry_def)
    then have "(if v \<noteq> 0xff then n + 1 else n) + valid_entries es = n + valid_entries (?e # es)"
      by (simp only: valid_entries_Cons)
    ultimately show "\<exists>es. fst tn = t @ es \<and> length es = Suc k \<and> (\<forall>e\<in>set es. entry_typed e) \<and>
        snd tn = n + valid_entries es"
      by (intro exI [of _ "?e # es"]) (simp add: entry_typed_def byte_ranges)
  qed
  show ?case unfolding read_table.simps by (intro parses_get_byte e)
qed (simp add: parses_give valid_entries_def)

lemma parses_subunit_info: "parses F (SubUnitInfoCmd_deserialize ind c) subunit_info_typed"
  unfolding SubUnitInfoCmd_deserialize_def Let_def
  by (intro parses_get_base parses_get_byte parses_get [OF parses_table] parses_give, elim exE conjE)
    (simp add: subunit_info_typed_def byte_ranges)

lemma parses_plug_info: "parses F (PlugInfoCmd_deserialize ind c) (\<lambda>c. True)"
  unfolding PlugInfoCmd_deserialize_def Let_def
  by (intro parses_get_base safe_parsing) simp_all

lemma parses_plug_signal_format:
  "length (m_fdf c) = 3 \<Longrightarrow> parses F (OutputPlugSignalFormatCmd_deserialize ind c) plug_signal_format_typed"
  unfolding OutputPlugSignalFormatCmd_deserialize_def
  by (intro parses_get_base safe_parsing)
    (simp add: plug_signal_format_typed_def byte_ranges single_bits del: drop_bit_and)

lemma parses_vendor_dependent:
  "parses F (VendorDependentCmd_deserialize ind c) (\<lambda>c. m_companyId c < 0x1000000)"
  unfolding VendorDependentCmd_deserialize_def
  by (intro parses_get_base safe_parsing) (simp add: company_id_less or.assoc)

lemma parses_page: "parses F (PageData_deserialize p) (\<lambda>p. True)"
  unfolding PageData_deserialize_def by (intro safe_parsing) simp

text \<open>At most five pages are added, behind the ones that are there.\<close>

lemma parses_pages:
  "parses F (read_pages ind i n status acc) (\<lambda>ps. \<exists>qs. ps = acc @ qs \<and> length qs \<le> n)"
proof (induction n arbitrary: i acc)
  case (Suc n)
  have "parses F (read_pages ind (Suc i) n status (acc @ [p])) (\<lambda>ps. \<exists>qs. ps = acc @ qs \<and> length qs \<le> Suc n)"
    for p
    by (rule parses_mono [OF Suc.IH order_refl]) auto
  then show ?case
    unfolding read_pages.simps
    by (intro parses_get_peek parses_if parses_get [OF parses_page] parses_give) auto
qed (simp add: parses_give)

definition pages_appended :: "extended_subunit_info \<Rightarrow> extended_subunit_info \<Rightarrow> bool" where
  "pages_appended c c' \<longleftrightarrow> (\<exists>qs. m_infoPageDatas c' = m_infoPageDatas c @ qs \<and> length qs \<le> 5)"

lemma parses_extended_subunit_info:
  "parses F (ExtendedSubunitInfoCmd_deserialize ind c) (pages_appended c)"
  unfolding ExtendedSubunitInfoCmd_deserialize_def
  by (intro parses_get_base parses_get_byte parses_get [OF parses_pages] parses_give)
    (auto simp: pages_appended_def)

section \<open>Addresses\<close>

primrec signal_address_typed :: "signal_address \<Rightarrow> bool" where
  "signal_address_typed (SignalUnitAddress p) \<longleftrightarrow> True"
| "signal_address_typed (SignalSubunitAddress t i p) \<longleftrightarrow> t < 32 \<and> i < 8"

lemma parses_signal_address: "parses F (SignalAddress_deserialize ind a) signal_address_typed"
  by (cases a) (auto simp: SignalUnitAddress_deserialize_def SignalSubunitAddress_deserialize_def
      byte_ranges intro!: safe_parsing)

text \<open>
  The addresses are always replaced; the status fields that belong to the type of the command have
  their range, the others keep their value.
\<close>

definition all_set :: "('a \<Rightarrow> bool) \<Rightarrow> 'a option \<Rightarrow> bool" where
  "all_set P p \<longleftrightarrow> (case p of None \<Rightarrow> True | Some x \<Rightarrow> P x)"

lemma all_set_simps [simp]: "all_set P None" "all_set P (Some x) = P x"
  by (simp_all add: all_set_def)

definition signal_source_typed :: "signal_source \<Rightarrow> bool" where
  "signal_source_typed c \<longleftrightarrow>
     all_set signal_address_typed (m_signalSource c) \<and> all_set signal_address_typed (m_signalDestination c) \<and>
     (getCommandType c = eCT_Status \<longrightarrow> m_outputStatus c < 8 \<and> m_conv c < 2 \<and> m_signalStatus c < 16) \<and>
     (getCommandType c \<in> {eCT_Control, eCT_SpecificInquiry} \<longrightarrow> m_resultStatus c < 16)"

lemma parses_signal_addresses:
  assumes "signal_source_typed (c\<lparr>m_signalSource := None, m_signalDestination := None\<rparr>)"
    "m_signalSource c = None" "m_signalDestination c = None"
  shows "parses F (SignalSource_addresses ind c) signal_source_typed"
  unfolding SignalSource_addresses_def
  by (intro parses_if parses_get_peek parses_get [OF parses_signal_address] parses_give)
    (use assms in \<open>auto simp: signal_source_typed_def getCommandType_def\<close>)

lemma parses_signal_source: "parses F (SignalSourceCmd_deserialize ind c) signal_source_typed"
  unfolding SignalSourceCmd_deserialize_def
  by (intro parses_get_base parses_if parses_get_byte parses_signal_addresses parses_give)
    (auto simp: signal_source_typed_def getCommandType_def byte_ranges single_bits simp del: drop_bit_and)

lemma parses_address: "parses F (PlugAddressData_deserialize a) (\<lambda>b. class_of b = class_of a)"
  by (cases a) (auto simp: address_deserialize_defs intro!: safe_parsing)

lemma parses_plug_address:
  "parses F (PlugAddress_deserialize a)
     (\<lambda>b. class_of (m_plugAddressData b) = class_of (m_plugAddressData a))"
  unfolding PlugAddress_deserialize_def
  by (intro parses_get_reads parses_get [OF parses_address] parses_give) simp

lemma parses_specific_data: "parses F (PlugAddressSpecificData_deserialize a) specific_data_proper"
  unfolding PlugAddressSpecificData_deserialize_def
  by (intro parses_get_reads parses_get [OF parses_address] parses_give) (simp add: specific_data_proper_def)

section \<open>Stream formats\<close>

lemma parses_stream_format_info: "parses F (StreamFormatInfo_deserialize i) (\<lambda>i. True)"
  unfolding StreamFormatInfo_deserialize_def by (intro safe_parsing) simp

lemma stream_format_info_always: "always_true (StreamFormatInfo_deserialize i)"
  unfolding StreamFormatInfo_deserialize_def by (intro always_true_get always_true_give)

lemma parses_streams:
  "streams_take s s \<Longrightarrow> parses F (Streams_deserialize ind s)
     (\<lambda>s'. streams_proper s' \<and> is_FormatInformationStreamsSync s' = is_FormatInformationStreamsSync s)"
  by (cases s) (auto simp: streams_take_def StreamsSync_deserialize_def StreamsCompound_deserialize_def
      byte_ranges intro!: parses_get_reads parses_give
      parses_get [OF parses_each_count [OF parses_stream_format_info stream_format_info_always]])

text \<open>Format information is either complete and of a known kind, or it has no streams.\<close>

definition format_information_typed :: "format_information \<Rightarrow> bool" where
  "format_information_typed i \<longleftrightarrow> (case m_streams i of None \<Rightarrow> True | Some s \<Rightarrow>
     streams_proper s \<and> m_root i = eFHR_AudioMusic \<and>
     (if is_FormatInformationStreamsSync s
      then m_level1 i = eFHL1_AUDIOMUSIC_AM824 \<and> m_level2 i = eFHL2_AM824_SYNC_STREAM
      else m_level1 i = eFHL1_AUDIOMUSIC_AM824_COMPOUND))"

lemma parses_format_information: "parses F (FormatInformation_deserialize ind i) format_information_typed"
proof -
  have s: "streams_take StreamsSync_new StreamsSync_new" "streams_take StreamsCompound_new StreamsCompound_new"
    by (simp_all add: streams_take_def StreamsSync_new_def StreamsCompound_new_def)
  show ?thesis
    unfolding FormatInformation_deserialize_def
    by (intro parses_get_byte parses_if parses_get [OF parses_streams [OF s(1)]]
        parses_get [OF parses_streams [OF s(2)]] parses_give)
      (auto simp: format_information_typed_def StreamsSync_new_def StreamsCompound_new_def)
qed

definition extended_stream_format_typed :: "extended_stream_format \<Rightarrow> extended_stream_format \<Rightarrow> bool" where
  "extended_stream_format_typed c c' \<longleftrightarrow> format_information_typed (m_formatInformation c') \<and>
     class_of (m_plugAddressData (extended_stream_format.m_plugAddress c'))
       = class_of (m_plugAddressData (extended_stream_format.m_plugAddress c))"

lemma parses_extended_stream_format:
  "parses F (ExtendedStreamFormatCmd_deserialize ind c) (extended_stream_format_typed c)"
proof -
  have idx: "parses F (if q then read_byte x else give True y) (\<lambda>x. True)" for q x y
    by (simp add: parses_byte parses_give)
  show ?thesis
    unfolding ExtendedStreamFormatCmd_deserialize_def
    by (intro parses_get_base parses_get_byte parses_get [OF parses_plug_address] parses_get [OF idx]
        parses_get [OF parses_format_information] parses_give)
      (simp add: extended_stream_format_typed_def)
qed

section \<open>Plug info\<close>

lemma parses_channel: "parses F (deserialize_channel ind j) (\<lambda>c. True)"
  unfolding deserialize_channel_def by (intro safe_parsing) simp

lemma channel_always: "always_true (deserialize_channel ind j)"
  unfolding deserialize_channel_def by (intro always_true_get always_true_give)

lemma parses_cluster: "parses F (deserialize_cluster ind i) cluster_proper"
  unfolding deserialize_cluster_def
  by (intro parses_get_byte parses_get [OF parses_each_count [OF parses_channel channel_always]] parses_give)
    (simp_all add: cluster_proper_def)

lemma cluster_always: "always_true (deserialize_cluster ind i)"
  unfolding deserialize_cluster_def by (intro always_true_get always_true_give)

lemma parses_position: "parses F (ChannelPosition_deserialize ind p) position_proper"
  unfolding ChannelPosition_deserialize_def
  by (intro parses_get_byte parses_get [OF parses_each_count [OF parses_cluster cluster_always]] parses_give)
    (simp_all add: position_proper_def)

text \<open>
  A parsed name has no zero byte and no ampersand, and is not longer than the length that was sent
  with it.
\<close>

definition name_typed :: "byte \<Rightarrow> byte list \<Rightarrow> bool" where
  "name_typed len name \<longleftrightarrow> length name \<le> unat len \<and> 0 \<notin> set name \<and> 0x26 \<notin> set name"

lemma parses_name:
  "0x26 \<notin> set name \<Longrightarrow>
   parses F (read_name ind i n name) (\<lambda>cs. length cs = length name + n \<and> 0x26 \<notin> set cs)"
proof (induction n arbitrary: i name)
  case (Suc n)
  have "parses F (let c = (if c = 0x26 then 0x2b else c) in read_name ind (Suc i) n (name @ [c]))
      (\<lambda>cs. length cs = length name + Suc n \<and> 0x26 \<notin> set cs)" for c
    using Suc.IH [of "name @ [if c = 0x26 then 0x2b else c]" "Suc i"] Suc.prems by (simp add: Let_def)
  then show ?case unfolding read_name.simps by (intro parses_get_byte)
qed (simp add: parses_give)

lemma terminated_name:
  assumes "length cs = unat len" "0x26 \<notin> set cs"
  shows "name_typed len (takeWhile (\<lambda>c. c \<noteq> 0) (cs @ [0]))"
proof -
  have "length (takeWhile (\<lambda>c. c \<noteq> 0) (cs @ [0])) \<le> length cs"
    by (induction cs) simp_all
  moreover have "0x26 \<notin> set (cs @ [0])" using assms(2) by simp
  then have "0x26 \<notin> set (takeWhile (\<lambda>c. c \<noteq> 0) (cs @ [0]))" by (blast dest: set_takeWhileD)
  moreover have "0 \<notin> set (takeWhile (\<lambda>c. c \<noteq> 0) (cs @ [0]))" by (blast dest: set_takeWhileD)
  ultimately show ?thesis using assms(1) unfolding name_typed_def by simp
qed

definition channel_name_typed :: "channel_name \<Rightarrow> bool" where
  "channel_name_typed c \<longleftrightarrow>
     name_typed (channel_name.m_stringLength c) (channel_name.m_plugChannelName c)"

definition cluster_name_typed :: "cluster_name \<Rightarrow> bool" where
  "cluster_name_typed c \<longleftrightarrow> name_typed (m_stringLength c) (m_clusterName c)"

lemma parses_channel_name: "parses F (ChannelName_deserialize ind c) channel_name_typed"
  unfolding ChannelName_deserialize_def
  by (intro parses_get_reads parses_get [OF parses_name] parses_give)
    (simp_all add: channel_name_typed_def terminated_name del: takeWhile_append)

lemma parses_cluster_name: "parses F (ClusterInfo_deserialize ind c) cluster_name_typed"
  unfolding ClusterInfo_deserialize_def
  by (intro parses_get_reads parses_get [OF parses_name] parses_give)
    (simp_all add: cluster_name_typed_def terminated_name del: takeWhile_append)

definition plug_output_typed :: "plug_output \<Rightarrow> bool" where
  "plug_output_typed p \<longleftrightarrow> (\<forall>a\<in>set (m_outputPlugAddresses p). specific_data_proper a)"

lemma parses_plug_output: "plug_output_typed p \<Longrightarrow> parses F (PlugOutput_deserialize p) plug_output_typed"
  unfolding PlugOutput_deserialize_def
  by (intro parses_get_byte parses_get [OF parses_each [OF parses_specific_data]] parses_give)
    (simp_all add: plug_output_typed_def)

text \<open>
  A plug name is copied from the place in the response up to the next zero byte in memory: when
  there is none the copy runs out of the buffer, and when the response ends before the name the
  pointer was never set.
\<close>

lemma read_pointer_returns:
  "\<exists>b p d'. read_pointer old len d = Inr ((b, p), d') \<and> m_buffer d' = m_buffer d \<and> m_length d' = m_length d \<and>
     p = (if isCurPosValid d then Some (m_curPos d) else old)"
  by (auto simp: read_pointer_def Let_def)

lemma parses_plug_name:
  assumes "{NullPointer, OutOfBounds} \<subseteq> F"
  shows "parses F (PlugName_deserialize ind name) (\<lambda>name. 0 \<notin> set name)"
  unfolding PlugName_deserialize_def
proof (intro parses_get_byte parsesI)
  fix b len d assume d: "cursor_ok d"
  obtain r p d' where r: "read_pointer None (ucast len) d = Inr ((r, p), d')"
      "m_buffer d' = m_buffer d" "m_length d' = m_length d"
    using read_pointer_returns by metis
  have "cursor_ok d'" using d r by (simp add: cursor_ok_def)
  moreover have "0 \<notin> set (takeWhile (\<lambda>c. c \<noteq> 0) xs)" for xs :: "byte list"
    by (blast dest: set_takeWhileD)
  ultimately show "case get (read_pointer None (ucast len)) (\<lambda>_ p d.
        bind_result (c_string_at (m_buffer d) p) (\<lambda>name. give True name d)) d of Inl e \<Rightarrow> e \<in> F
      | Inr ((b, x), d') \<Rightarrow> cursor_ok d' \<and> m_buffer d' = m_buffer d \<and> 0 \<notin> set x"
    using assms r by (cases p) (simp_all add: get_def give_def c_string_at_def)
qed

definition info_typed :: "info_type \<Rightarrow> bool" where
  "info_typed i \<longleftrightarrow>
     all_set (\<lambda>name. 0 \<notin> set name) (m_plugName i) \<and>
     all_set position_proper (m_plugChannelPosition i) \<and>
     all_set channel_name_typed (info_type.m_plugChannelName i) \<and>
     all_set specific_data_proper (m_plugInput i) \<and>
     all_set plug_output_typed (m_plugOutput i) \<and>
     all_set cluster_name_typed (m_plugClusterInfo i)"

lemma or_new_typed: "all_set P p \<Longrightarrow> P x \<Longrightarrow> P (or_new x p)"
  by (cases p) (simp_all add: or_new_def)

lemma parses_then:
  assumes "parses F f Q" "\<And>x. Q x \<Longrightarrow> P (u x)"
  shows "parses F (get f (\<lambda>b x. give b (u x))) P"
  by (rule parses_get [OF assms(1)]) (simp add: parses_give assms(2))

lemma parses_info_data:
  assumes "{NullPointer, OutOfBounds} \<subseteq> F" "info_typed i"
  shows "parses F (InfoType_deserialize_data ind i) info_typed"
proof -
  have t: "plug_output_typed (or_new PlugOutput_new (m_plugOutput i))"
    by (rule or_new_typed [of plug_output_typed])
      (use assms(2) in \<open>simp_all add: info_typed_def plug_output_typed_def PlugOutput_new_def\<close>)
  have "parses F (PlugType_deserialize q) (\<lambda>x. True)" for q
    unfolding PlugType_deserialize_def by (intro safe_parsing) simp
  note 1 = parses_then [OF this, of info_typed "\<lambda>x. i\<lparr>info_type.m_plugType := Some x\<rparr>"]
  note 2 = parses_then [OF parses_plug_name [OF assms(1)], of info_typed "\<lambda>x. i\<lparr>m_plugName := Some x\<rparr>"]
  have "parses F (NumberOfChannels_deserialize q) (\<lambda>x. True)" for q
    unfolding NumberOfChannels_deserialize_def by (intro safe_parsing) simp
  note 3 = parses_then [OF this, of info_typed "\<lambda>x. i\<lparr>m_plugNrOfChns := Some x\<rparr>"]
  note 4 = parses_then [OF parses_position, of info_typed "\<lambda>x. i\<lparr>m_plugChannelPosition := Some x\<rparr>"]
  note 5 = parses_then [OF parses_channel_name, of info_typed
      "\<lambda>x. i\<lparr>info_type.m_plugChannelName := Some x\<rparr>"]
  have "parses F (PlugInput_deserialize q) specific_data_proper" for q
    by (simp add: PlugInput_deserialize_def parses_specific_data)
  note 6 = parses_then [OF this, of info_typed "\<lambda>x. i\<lparr>m_plugInput := Some x\<rparr>"]
  note 7 = parses_then [OF parses_plug_output [OF t], of info_typed "\<lambda>x. i\<lparr>m_plugOutput := Some x\<rparr>"]
  note 8 = parses_then [OF parses_cluster_name, of info_typed "\<lambda>x. i\<lparr>m_plugClusterInfo := Some x\<rparr>"]
  show ?thesis
    unfolding InfoType_deserialize_data_def
    by (intro parses_if 1 2 3 4 5 6 7 8 parses_give) (use assms(2) in \<open>simp_all add: info_typed_def\<close>)
qed

lemma parses_info:
  assumes "{NullPointer, OutOfBounds} \<subseteq> F" "info_typed i"
  shows "parses F (InfoType_deserialize ind i) info_typed"
  unfolding InfoType_deserialize_def
  by (intro parses_get_byte parses_info_data [OF assms(1)]) (use assms(2) in \<open>simp add: info_typed_def\<close>)

definition extended_plug_info_typed :: "extended_plug_info \<Rightarrow> extended_plug_info \<Rightarrow> bool" where
  "extended_plug_info_typed c c' \<longleftrightarrow> info_typed (extended_plug_info.m_infoType c') \<and>
     class_of (m_plugAddressData (extended_plug_info.m_plugAddress c'))
       = class_of (m_plugAddressData (extended_plug_info.m_plugAddress c))"

lemma parses_extended_plug_info:
  assumes "{NullPointer, OutOfBounds} \<subseteq> F" "info_typed (extended_plug_info.m_infoType c)"
  shows "parses F (ExtendedPlugInfoCmd_deserialize ind c) (extended_plug_info_typed c)"
  unfolding ExtendedPlugInfoCmd_deserialize_def
  by (intro parses_get_base parses_get_byte parses_get [OF parses_plug_address]
      parses_get [OF parses_info [OF assms(1)]] parses_give)
    (use assms(2) in \<open>simp_all add: extended_plug_info_typed_def\<close>)

section \<open>Function blocks\<close>

definition has_parts :: "fb_feature \<Rightarrow> bool" where
  "has_parts f \<longleftrightarrow> m_pVolume f \<noteq> None \<and> m_pLRBalance f \<noteq> None"

lemma parses_volume: "parses F (FeatureVolume_deserialize ind v) (\<lambda>v. True)"
  unfolding FeatureVolume_deserialize_def by (intro safe_parsing) simp

lemma parses_lrbalance: "parses F (FeatureLRBalance_deserialize ind v) (\<lambda>v. True)"
  unfolding FeatureLRBalance_deserialize_def by (intro safe_parsing) simp

lemma parses_call:
  assumes "\<And>x. parses F (f x) P" "p \<noteq> None \<or> NullPointer \<in> F"
  shows "parses F (call_reader f p) P"
proof (rule parsesI)
  fix d assume d: "cursor_ok d"
  show "case call_reader f p d of Inl e \<Rightarrow> e \<in> F
      | Inr ((b, x), d') \<Rightarrow> cursor_ok d' \<and> m_buffer d' = m_buffer d \<and> P x"
  proof (cases p)
    case None
    then show ?thesis using assms(2) by (simp add: call_reader_def)
  next
    case (Some x)
    then show ?thesis using parsesD [OF assms(1) d] by (simp add: call_reader_def)
  qed
qed

lemma parses_feature:
  assumes "has_parts f \<or> NullPointer \<in> F"
  shows "parses F (Feature_deserialize ind f) (\<lambda>f'. has_parts f \<longrightarrow> has_parts f')"
proof -
  have v: "parses F (call_reader (FeatureVolume_deserialize ind) (m_pVolume f)) (\<lambda>v. True)"
    using assms by (intro parses_call parses_volume) (auto simp: has_parts_def)
  have l: "parses F (call_reader (FeatureLRBalance_deserialize ind) (m_pLRBalance f)) (\<lambda>v. True)"
    using assms by (intro parses_call parses_lrbalance) (auto simp: has_parts_def)
  show ?thesis
    unfolding Feature_deserialize_def
    by (intro parses_get_reads parses_if parses_get [OF v] parses_get [OF l] parses_give)
      (simp_all add: has_parts_def)
qed

definition enhanced_mixer_typed :: "enhanced_mixer \<Rightarrow> bool" where
  "enhanced_mixer_typed m \<longleftrightarrow> length (m_LevelData m) = unat (enhanced_mixer.m_controlDataLength m) div 2"

lemma parses_levels: "parses F (read_levels n b levels) (\<lambda>ls. length ls = length levels + n)"
proof (induction n arbitrary: b levels)
  case (Suc n)
  have "parses F (read_levels n c (levels @ [v])) (\<lambda>ls. length ls = length levels + Suc n)" for c v
    using Suc.IH [of c "levels @ [v]"] by simp
  then show ?case unfolding read_levels.simps by (intro parses_get_reads)
qed (simp add: parses_give)

lemma parses_enhanced_mixer: "parses F (EnhancedMixer_deserialize ind m) enhanced_mixer_typed"
  unfolding EnhancedMixer_deserialize_def Let_def
  by (intro parses_get_reads parses_get [OF parses_levels] parses_give) (simp add: enhanced_mixer_typed_def)

lemma parses_mixer: "parses F (ProcessingMixer_deserialize ind m) (\<lambda>m. True)"
proof -
  have u: "parses F (get (read_u16 v) g) P" if "\<And>b x. parses F (g b x) P" for v P and g :: "bool \<Rightarrow> u16 \<Rightarrow> processing_mixer reader"
    by (rule parses_get [OF parses_u16]) (use that in simp_all)
  show ?thesis
    unfolding ProcessingMixer_deserialize_def by (intro u safe_parsing) simp
qed

lemma parses_drain: "parses F (drain v) (\<lambda>x. True)"
proof (rule parsesI)
  fix d assume "cursor_ok d"
  from drain_end [OF this, of v] show "case drain v d of Inl e \<Rightarrow> e \<in> F
      | Inr ((b, x), d') \<Rightarrow> cursor_ok d' \<and> m_buffer d' = m_buffer d \<and> True"
    by auto
qed

definition processing_typed :: "fb_processing \<Rightarrow> bool" where
  "processing_typed p \<longleftrightarrow> all_set enhanced_mixer_typed (m_pEnhancedMixer p)"

lemma parses_processing:
  assumes "processing_typed p"
  shows "parses F (Processing_deserialize ind p) processing_typed"
proof -
  let ?mixers = "\<lambda>r0 r1 v. case m_pMixer p of
          Some m \<Rightarrow> get (ProcessingMixer_deserialize ind m) (\<lambda>r m.
            give (r0 \<and> r1 \<and> r) (FunctionBlockProcessing (v ! 0) (v ! 1) (v ! 2) (v ! 3) (Some m)
              (m_pEnhancedMixer p)))
        | None \<Rightarrow> (case m_pEnhancedMixer p of
            Some m \<Rightarrow> get (EnhancedMixer_deserialize ind m) (\<lambda>r m.
              give (r0 \<and> r1 \<and> r) (FunctionBlockProcessing (v ! 0) (v ! 1) (v ! 2) (v ! 3) None (Some m)))
          | None \<Rightarrow> give False (FunctionBlockProcessing (v ! 0) (v ! 1) (v ! 2) (v ! 3) None None))"
  have m: "parses F (?mixers r0 r1 v) processing_typed" for r0 r1 v
    using assms
    by (cases "m_pMixer p"; cases "m_pEnhancedMixer p")
      (auto simp: processing_typed_def intro!: parses_get [OF parses_mixer] parses_get [OF parses_enhanced_mixer]
        parses_give)
  show ?thesis
    unfolding Processing_deserialize_def
    by (intro parses_get_reads parses_get_peek parses_get [OF m] parses_if parses_get [OF parses_drain] parses_give)
qed

definition function_block_parts :: "function_block \<Rightarrow> bool" where
  "function_block_parts c \<longleftrightarrow> set_and has_parts (m_pFBFeature c)"

definition function_block_typed :: "function_block \<Rightarrow> bool" where
  "function_block_typed c \<longleftrightarrow> all_set processing_typed (m_pFBProcessing c)"

lemma parses_selector: "parses F (Selector_deserialize s) (\<lambda>s. True)"
  unfolding Selector_deserialize_def by (intro safe_parsing) simp

lemma parses_codec: "parses F (Codec_deserialize u) (\<lambda>u. True)"
  by (simp add: Codec_deserialize_def parses_give)

lemma parses_function_block:
  assumes "function_block_parts c \<or> NullPointer \<in> F" "function_block_typed c"
  shows "parses F (FunctionBlockCmd_deserialize ind c)
    (\<lambda>c'. function_block_typed c' \<and> (function_block_parts c \<longrightarrow> function_block_parts c'))"
proof -
  have parts: "function_block_parts c \<longleftrightarrow> has_parts (or_new Feature_new (m_pFBFeature c))"
    by (cases "m_pFBFeature c") (simp_all add: function_block_parts_def set_and_def or_new_def has_parts_def
        Feature_new_def)
  have f: "parses F (Feature_deserialize ind (or_new Feature_new (m_pFBFeature c)))
      (\<lambda>f'. function_block_parts c \<longrightarrow> has_parts f')"
    using assms(1) unfolding parts by (rule parses_feature)
  have p: "parses F (Processing_deserialize ind (or_new Processing_new (m_pFBProcessing c))) processing_typed"
    by (rule parses_processing, rule or_new_typed [of processing_typed])
      (use assms(2) in \<open>simp_all add: function_block_typed_def processing_typed_def Processing_new_def\<close>)
  have data: "parses F (FunctionBlock_deserialize_data ind b c')
      (\<lambda>c'. function_block_typed c' \<and> (function_block_parts c \<longrightarrow> function_block_parts c'))"
    if "m_pFBFeature c' = m_pFBFeature c" "m_pFBProcessing c' = m_pFBProcessing c" for b c'
    unfolding FunctionBlock_deserialize_data_def that
    by (intro parses_if parses_get [OF f] parses_get [OF p] parses_get [OF parses_selector]
        parses_get [OF parses_codec] parses_give)
      (use assms(2) that in \<open>simp_all add: function_block_typed_def function_block_parts_def set_and_def\<close>)
  show ?thesis
    unfolding FunctionBlockCmd_deserialize_def by (intro parses_get_base parses_get_reads data) simp_all
qed

end
