(* ===== verification/AVC_Command.thy ===== *)
theory AVC_Command
  imports AVC_Responses
begin

text \<open>
  The AV/C commands together. A pointer to an \<open>AVCCommand\<close> is a value of the datatype \<open>command\<close>, with
  one constructor per derived class; the virtual methods dispatch on it. The classes satisfy the
  interface \<open>bus_data\<close> one by one, hence so does their union, which gives the round trip of the
  commands in \<open>command_proper\<close> through a buffer; and what is known of the parsers on arbitrary bytes gives a typing
  invariant of the commands.
\<close>

section \<open>Dispatch\<close>

datatype command =
    Connect avc_command
  | UnitInfo unit_info
  | SubUnitInfo subunit_info
  | PlugInfo plug_info
  | OutputPlugSignalFormat plug_signal_format
  | InputPlugSignalFormat plug_signal_format
  | VendorDependent vendor_dependent
  | ExtendedSubunitInfo extended_subunit_info
  | SignalSource signal_source
  | ExtendedStreamFormat extended_stream_format
  | ExtendedPlugInfo extended_plug_info
  | FunctionBlock function_block

primrec command_serialize :: "command \<Rightarrow> writer" where
  "command_serialize (Connect c) = ConnectCmd_serialize c"
| "command_serialize (UnitInfo c) = UnitInfoCmd_serialize c"
| "command_serialize (SubUnitInfo c) = SubUnitInfoCmd_serialize c"
| "command_serialize (PlugInfo c) = PlugInfoCmd_serialize c"
| "command_serialize (OutputPlugSignalFormat c) = OutputPlugSignalFormatCmd_serialize c"
| "command_serialize (InputPlugSignalFormat c) = InputPlugSignalFormatCmd_serialize c"
| "command_serialize (VendorDependent c) = VendorDependentCmd_serialize c"
| "command_serialize (ExtendedSubunitInfo c) = ExtendedSubunitInfoCmd_serialize c"
| "command_serialize (SignalSource c) = SignalSourceCmd_serialize c"
| "command_serialize (ExtendedStreamFormat c) = ExtendedStreamFormatCmd_serialize c"
| "command_serialize (ExtendedPlugInfo c) = ExtendedPlugInfoCmd_serialize c"
| "command_serialize (FunctionBlock c) = FunctionBlockCmd_serialize c"

definition as_command :: "('a \<Rightarrow> command) \<Rightarrow> 'a reader \<Rightarrow> command reader" where
  "as_command K f = get f (\<lambda>b c. give b (K c))"

primrec command_deserialize :: "indeterminate \<Rightarrow> command \<Rightarrow> command reader" where
  "command_deserialize ind (Connect c) = as_command Connect (ConnectCmd_deserialize c)"
| "command_deserialize ind (UnitInfo c) = as_command UnitInfo (UnitInfoCmd_deserialize ind c)"
| "command_deserialize ind (SubUnitInfo c) = as_command SubUnitInfo (SubUnitInfoCmd_deserialize ind c)"
| "command_deserialize ind (PlugInfo c) = as_command PlugInfo (PlugInfoCmd_deserialize ind c)"
| "command_deserialize ind (OutputPlugSignalFormat c) =
     as_command OutputPlugSignalFormat (OutputPlugSignalFormatCmd_deserialize ind c)"
| "command_deserialize ind (InputPlugSignalFormat c) =
     as_command InputPlugSignalFormat (InputPlugSignalFormatCmd_deserialize ind c)"
| "command_deserialize ind (VendorDependent c) =
     as_command VendorDependent (VendorDependentCmd_deserialize ind c)"
| "command_deserialize ind (ExtendedSubunitInfo c) =
     as_command ExtendedSubunitInfo (ExtendedSubunitInfoCmd_deserialize ind c)"
| "command_deserialize ind (SignalSource c) = as_command SignalSource (SignalSourceCmd_deserialize ind c)"
| "command_deserialize ind (ExtendedStreamFormat c) =
     as_command ExtendedStreamFormat (ExtendedStreamFormatCmd_deserialize ind c)"
| "command_deserialize ind (ExtendedPlugInfo c) =
     as_command ExtendedPlugInfo (ExtendedPlugInfoCmd_deserialize ind c)"
| "command_deserialize ind (FunctionBlock c) = as_command FunctionBlock (FunctionBlockCmd_deserialize ind c)"

text \<open>The members that every command inherits.\<close>

primrec command_base :: "command \<Rightarrow> avc_command" where
  "command_base (Connect c) = c"
| "command_base (UnitInfo c) = avc_command.truncate c"
| "command_base (SubUnitInfo c) = avc_command.truncate c"
| "command_base (PlugInfo c) = avc_command.truncate c"
| "command_base (OutputPlugSignalFormat c) = avc_command.truncate c"
| "command_base (InputPlugSignalFormat c) = avc_command.truncate c"
| "command_base (VendorDependent c) = avc_command.truncate c"
| "command_base (ExtendedSubunitInfo c) = avc_command.truncate c"
| "command_base (SignalSource c) = avc_command.truncate c"
| "command_base (ExtendedStreamFormat c) = avc_command.truncate c"
| "command_base (ExtendedPlugInfo c) = avc_command.truncate c"
| "command_base (FunctionBlock c) = avc_command.truncate c"

section \<open>Round trip\<close>

primrec command_bytes :: "command \<Rightarrow> byte list" where
  "command_bytes (Connect c) = base_bytes c"
| "command_bytes (UnitInfo c) = unit_info_bytes c"
| "command_bytes (SubUnitInfo c) = subunit_info_bytes c"
| "command_bytes (PlugInfo c) = plug_info_bytes c"
| "command_bytes (OutputPlugSignalFormat c) = plug_signal_format_bytes c"
| "command_bytes (InputPlugSignalFormat c) = plug_signal_format_bytes c"
| "command_bytes (VendorDependent c) = vendor_dependent_bytes c"
| "command_bytes (ExtendedSubunitInfo c) = extended_subunit_info_bytes c"
| "command_bytes (SignalSource c) = signal_source_bytes c"
| "command_bytes (ExtendedStreamFormat c) = extended_stream_format_bytes c"
| "command_bytes (ExtendedPlugInfo c) = extended_plug_info_bytes c"
| "command_bytes (FunctionBlock c) = function_block_bytes c"

definition command_pad :: "command \<Rightarrow> byte list" where
  "command_pad c = (case c of ExtendedSubunitInfo c \<Rightarrow> extended_subunit_info_pad c | _ \<Rightarrow> [])"

primrec command_proper :: "command \<Rightarrow> bool" where
  "command_proper (Connect c) = base_proper c"
| "command_proper (UnitInfo c) = unit_info_proper c"
| "command_proper (SubUnitInfo c) = subunit_info_proper c"
| "command_proper (PlugInfo c) = plug_info_proper c"
| "command_proper (OutputPlugSignalFormat c) = plug_signal_format_proper c"
| "command_proper (InputPlugSignalFormat c) = plug_signal_format_proper c"
| "command_proper (VendorDependent c) = vendor_dependent_proper c"
| "command_proper (ExtendedSubunitInfo c) = extended_subunit_info_proper c"
| "command_proper (SignalSource c) = signal_source_proper c"
| "command_proper (ExtendedStreamFormat c) = extended_stream_format_proper c"
| "command_proper (ExtendedPlugInfo c) = extended_plug_info_proper c"
| "command_proper (FunctionBlock c) = function_block_proper c"

text \<open>A receiving object is of the same class, and has parts of the same kinds where that matters.\<close>

primrec command_takes :: "command \<Rightarrow> command \<Rightarrow> bool" where
  "command_takes (Connect y) x = (case x of Connect x \<Rightarrow> True | _ \<Rightarrow> False)"
| "command_takes (UnitInfo y) x = (case x of UnitInfo x \<Rightarrow> True | _ \<Rightarrow> False)"
| "command_takes (SubUnitInfo y) x = (case x of SubUnitInfo x \<Rightarrow> True | _ \<Rightarrow> False)"
| "command_takes (PlugInfo y) x = (case x of PlugInfo x \<Rightarrow> True | _ \<Rightarrow> False)"
| "command_takes (OutputPlugSignalFormat y) x =
     (case x of OutputPlugSignalFormat x \<Rightarrow> fdf_array y x | _ \<Rightarrow> False)"
| "command_takes (InputPlugSignalFormat y) x =
     (case x of InputPlugSignalFormat x \<Rightarrow> fdf_array y x | _ \<Rightarrow> False)"
| "command_takes (VendorDependent y) x = (case x of VendorDependent x \<Rightarrow> True | _ \<Rightarrow> False)"
| "command_takes (ExtendedSubunitInfo y) x = (case x of ExtendedSubunitInfo x \<Rightarrow> True | _ \<Rightarrow> False)"
| "command_takes (SignalSource y) x =
     (case x of SignalSource x \<Rightarrow> getCommandType y = getCommandType x | _ \<Rightarrow> False)"
| "command_takes (ExtendedStreamFormat y) x =
     (case x of ExtendedStreamFormat x \<Rightarrow> extended_stream_format_takes y x | _ \<Rightarrow> False)"
| "command_takes (ExtendedPlugInfo y) x =
     (case x of ExtendedPlugInfo x \<Rightarrow> extended_plug_info_takes y x | _ \<Rightarrow> False)"
| "command_takes (FunctionBlock y) x =
     (case x of FunctionBlock x \<Rightarrow> function_block_takes y x | _ \<Rightarrow> False)"

primrec command_received :: "command \<Rightarrow> command \<Rightarrow> command" where
  "command_received (Connect y) x = (case x of Connect x \<Rightarrow> Connect (base_received y x) | _ \<Rightarrow> x)"
| "command_received (UnitInfo y) x = (case x of UnitInfo x \<Rightarrow> UnitInfo (unit_info_received y x) | _ \<Rightarrow> x)"
| "command_received (SubUnitInfo y) x =
     (case x of SubUnitInfo x \<Rightarrow> SubUnitInfo (subunit_info_received y x) | _ \<Rightarrow> x)"
| "command_received (PlugInfo y) x = (case x of PlugInfo x \<Rightarrow> PlugInfo (plug_info_received y x) | _ \<Rightarrow> x)"
| "command_received (OutputPlugSignalFormat y) x =
     (case x of OutputPlugSignalFormat x \<Rightarrow> OutputPlugSignalFormat (plug_signal_format_received y x) | _ \<Rightarrow> x)"
| "command_received (InputPlugSignalFormat y) x =
     (case x of InputPlugSignalFormat x \<Rightarrow> InputPlugSignalFormat (plug_signal_format_received y x) | _ \<Rightarrow> x)"
| "command_received (VendorDependent y) x =
     (case x of VendorDependent x \<Rightarrow> VendorDependent (vendor_dependent_received y x) | _ \<Rightarrow> x)"
| "command_received (ExtendedSubunitInfo y) x =
     (case x of ExtendedSubunitInfo x \<Rightarrow> ExtendedSubunitInfo (extended_subunit_info_received y x) | _ \<Rightarrow> x)"
| "command_received (SignalSource y) x =
     (case x of SignalSource x \<Rightarrow> SignalSource (signal_source_received y x) | _ \<Rightarrow> x)"
| "command_received (ExtendedStreamFormat y) x =
     (case x of ExtendedStreamFormat x \<Rightarrow> ExtendedStreamFormat (extended_stream_format_received y x) | _ \<Rightarrow> x)"
| "command_received (ExtendedPlugInfo y) x =
     (case x of ExtendedPlugInfo x \<Rightarrow> ExtendedPlugInfo (extended_plug_info_received y x) | _ \<Rightarrow> x)"
| "command_received (FunctionBlock y) x =
     (case x of FunctionBlock x \<Rightarrow> FunctionBlock (function_block_received y x) | _ \<Rightarrow> x)"

lemma as_command_Inr: "f d = Inr ((b, x), d') \<Longrightarrow> as_command K f d = Inr ((b, K x), d')"
  by (simp add: as_command_def get_def give_def)

lemmas command_parsed =
  connect.deserialize_parses unit_info.deserialize_parses subunit_info.deserialize_parses
  plug_info.deserialize_parses output_format.deserialize_parses input_format.deserialize_parses
  vendor_dependent.deserialize_parses extended_subunit_info.deserialize_parses
  signal_source.deserialize_parses extended_stream_format.deserialize_parses
  extended_plug_info.deserialize_parses function_block.deserialize_parses

lemmas command_sent =
  connect.serialize_sends unit_info.serialize_sends subunit_info.serialize_sends
  plug_info.serialize_sends output_format.serialize_sends input_format.serialize_sends
  vendor_dependent.serialize_sends extended_subunit_info.serialize_sends
  signal_source.serialize_sends extended_stream_format.serialize_sends
  extended_plug_info.serialize_sends function_block.serialize_sends

lemma command_sends: "command_proper x \<Longrightarrow> sends (command_serialize x) (command_bytes x @ command_pad x)"
  using command_sent by (cases x) (simp_all add: command_pad_def)

lemma command_parses:
  assumes "command_proper x" "command_takes y x" "cursor_ok d"
    "ahead d = command_bytes x @ command_pad x @ rest"
  shows "command_deserialize ind y d
    = Inr ((True, command_received y x), advance (length (command_bytes x)) d)"
  using assms
  by (cases y; cases x) (simp_all add: command_pad_def as_command_Inr command_parsed)

interpretation command: bus_data command_serialize "command_deserialize ind" command_bytes command_pad
  command_proper command_takes command_received for ind
  by unfold_locales (rule command_sends command_parses; assumption)+

text \<open>
  Two classes append to a vector they never clear, and one keeps the second level of its format
  when it receives a format that has none. Into an object as it was constructed a command is
  received such that it is written out again as the same bytes.
\<close>

definition command_fresh :: "command \<Rightarrow> bool" where
  "command_fresh y = (case y of
     ExtendedSubunitInfo y \<Rightarrow> m_infoPageDatas y = []
   | ExtendedStreamFormat y \<Rightarrow> m_level2 (m_formatInformation y) = eFHL2_AM824_DONT_CARE
   | ExtendedPlugInfo y \<Rightarrow>
       m_outputPlugAddresses (or_new PlugOutput_new (m_plugOutput (extended_plug_info.m_infoType y))) = []
   | _ \<Rightarrow> True)"

lemma base_bytes_received [simp]: "base_bytes (base_received y x) = base_bytes x"
  by (simp add: base_bytes_def)

lemma base_bytes_cong:
  "m_ctype c = m_ctype x \<Longrightarrow> m_subunit c = m_subunit x \<Longrightarrow> m_opcode c = m_opcode x \<Longrightarrow>
   base_bytes c = base_bytes x"
  by (simp add: base_bytes_def)

lemma info_bytes_received:
  assumes "info_proper x" "m_outputPlugAddresses (or_new PlugOutput_new (m_plugOutput y)) = []"
  shows "info_bytes (info_received y x) = info_bytes x"
  using assms(1)
  by (rule info_type_cases)
    (use assms(2) in \<open>simp_all add: info_bytes_def info_received_def sent_if_def plug_output_received_def
      plug_output_bytes_def Let_def\<close>)

lemma format_bytes_received:
  "format_information_proper x \<Longrightarrow>
   format_information_bytes (format_information_received y x) = format_information_bytes x"
  by (auto simp: format_information_bytes_def format_information_received_def format_information_proper_def
      split: option.splits if_splits)

lemma signal_source_bytes_received:
  "getCommandType y = getCommandType x \<Longrightarrow> signal_source_proper x \<Longrightarrow>
   signal_source_bytes (signal_source_received y x) = signal_source_bytes x"
  by (simp add: signal_source_bytes_def signal_source_received_def signal_source_status_def
      sent_address_def getCommandType_def base_bytes_def base_received_def)

lemma feature_bytes_received:
  "feature_proper x \<Longrightarrow> feature_bytes (feature_received y x) = feature_bytes x"
  by (auto simp: feature_bytes_def feature_received_def)

lemma function_block_bytes_received:
  "function_block_proper x \<Longrightarrow> function_block_bytes (function_block_received y x) = function_block_bytes x"
  by (auto simp: function_block_bytes_def function_block_received_def function_block_proper_def Let_def
      set_and_def sent_if_def base_bytes_def feature_bytes_received split: option.splits)

lemma plug_info_bytes_received: "plug_info_bytes (plug_info_received y x) = plug_info_bytes x"
  by (simp add: plug_info_bytes_def plug_info_received_def Let_def base_bytes_def getSubunitType_def)

lemma command_bytes_received:
  assumes "command_proper x" "command_takes y x" "command_fresh y"
  shows "command_bytes (command_received y x) = command_bytes x"
    "command_pad (command_received y x) = command_pad x"
proof -
  show "command_bytes (command_received y x) = command_bytes x"
    using assms
    by (cases y; cases x)
      (simp_all add: command_fresh_def unit_info_bytes_def unit_info_received_def subunit_info_bytes_def
        subunit_info_received_def plug_signal_format_bytes_def plug_signal_format_received_def
        vendor_dependent_bytes_def vendor_dependent_received_def extended_subunit_info_bytes_def
        extended_subunit_info_received_def extended_stream_format_bytes_def
        extended_stream_format_received_def extended_plug_info_bytes_def extended_plug_info_received_def
        extended_stream_format_proper_def extended_plug_info_proper_def base_bytes_def
        plug_info_bytes_received signal_source_bytes_received function_block_bytes_received
        format_bytes_received info_bytes_received)
  show "command_pad (command_received y x) = command_pad x"
    using assms
    by (cases y; cases x)
      (simp_all add: command_pad_def command_fresh_def extended_subunit_info_pad_def
        extended_subunit_info_received_def)
qed

lemma info_proper_received:
  assumes "info_proper x" "m_outputPlugAddresses (or_new PlugOutput_new (m_plugOutput y)) = []"
  shows "info_proper (info_received y x)"
  using assms(1)
  by (rule info_type_cases)
    (use assms(2) in \<open>simp_all add: info_proper_def info_received_def set_and_def plug_output_received_def
      plug_output_proper_def Let_def\<close>)

lemma format_proper_received:
  "format_information_proper x \<Longrightarrow> m_level2 y = eFHL2_AM824_DONT_CARE \<Longrightarrow>
   format_information_proper (format_information_received y x)"
  by (auto simp: format_information_proper_def format_information_received_def split: option.splits if_splits)

lemma plug_info_proper_received: "plug_info_proper x \<Longrightarrow> plug_info_proper (plug_info_received y x)"
  by (auto simp: plug_info_proper_def plug_info_received_def Let_def base_proper_def getSubunitType_def)

lemma signal_source_proper_received:
  "signal_source_proper x \<Longrightarrow> getCommandType y = getCommandType x \<Longrightarrow>
   signal_source_proper (signal_source_received y x)"
  by (auto simp: signal_source_proper_def signal_source_received_def base_proper_def getCommandType_def
      getSubunitType_def sent_address_def)

lemma function_block_proper_received:
  "function_block_proper x \<Longrightarrow> function_block_proper (function_block_received y x)"
  by (auto simp: function_block_proper_def function_block_received_def Let_def base_proper_def set_and_def
      feature_proper_def feature_received_def split: option.splits)

lemma command_proper_received:
  assumes "command_proper x" "command_takes y x" "command_fresh y"
  shows "command_proper (command_received y x)"
  using assms
  by (cases y; cases x)
    (simp_all add: command_fresh_def base_proper_def unit_info_proper_def unit_info_received_def
      subunit_info_proper_def subunit_info_received_def subunit_info_typed_def
      plug_signal_format_proper_def plug_signal_format_received_def plug_signal_format_typed_def
      vendor_dependent_proper_def vendor_dependent_received_def extended_subunit_info_proper_def
      extended_subunit_info_received_def extended_plug_info_proper_def extended_plug_info_received_def
      extended_stream_format_proper_def extended_stream_format_received_def
      info_proper_received format_proper_received plug_info_proper_received
      signal_source_proper_received function_block_proper_received)

text \<open>
  C5. The AV/C commands in \<open>command_proper\<close> survive their trip over the bus. These are the commands of
  all twelve classes whose members fit the fields and lengths they are written to, whose selectors (such
  as the subfunction of a plug information or the type of a signal source command) are among those the
  class writes a body for, and whose type is not the one that \<open>responseToString\<close> cannot name; of the function blocks the selectors and the volume and
  balance features, not the processing and codec blocks; of the stream formats the AM824 sync and
  compound ones; of the plug informations all but the plug name; and channel and cluster names without a zero byte and without the character \<open>&\<close>. The receiver
  is an object of the same class, with parts of the same kind and, for signal sources, of the same command type (\<open>command_takes\<close>), that has not
  collected pages, plugs or a stream format before (\<open>command_fresh\<close>). Such a command, written into a frame
  of 512 bytes, is parsed from that frame by the receiver; writing produces its bytes and its padding,
  parsing consumes the bytes and leaves the padding, and the parsed command, written into a fresh
  frame, gives the same frame again, byte by byte.
\<close>

theorem command_round_trip:
  assumes "command_proper x" "command_takes y x" "command_fresh y"
    "length (command_bytes x @ command_pad x) \<le> unat n" "unat n \<le> 512"
  shows "\<exists>s z d. command_serialize x (new_cursor (replicate 512 0) 512) = Inr (True, s) \<and>
    command_deserialize ind y (new_cursor (m_buffer s) n) = Inr ((True, z), d) \<and>
    command_serialize z (new_cursor (replicate 512 0) 512) = Inr (True, s) \<and>
    unat (m_curPos s) = length (command_bytes x) + length (command_pad x) \<and>
    unat (m_curPos d) = length (command_bytes x) \<and> z = command_received y x"
proof -
  let ?f = "new_cursor (replicate 512 0) 512"
  have len: "length (command_bytes x @ command_pad x) \<le> 512" using assms(4,5) by linarith
  obtain s d where s: "command_serialize x ?f = Inr (True, s)"
      "command_deserialize ind y (new_cursor (m_buffer s) n) = Inr ((True, command_received y x), d)"
      "m_curPos s = word_of_nat (length (command_bytes x @ command_pad x))"
      "m_curPos d = word_of_nat (length (command_bytes x))"
    using command.buffer_round_trip [where ind = ind and len = 512 and buf = "replicate 512 0" and n = n, OF assms(1,2)]
      assms(4,5) len by auto
  have "command_serialize (command_received y x) ?f = command_serialize x ?f"
    using command.sent_bytes [OF assms(1), of 512 "replicate 512 0"]
      command.sent_bytes [OF command_proper_received [OF assms(1-3)], of 512 "replicate 512 0"]
      command_bytes_received [OF assms(1-3)] len by simp
  moreover have "unat (m_curPos s) = length (command_bytes x) + length (command_pad x)"
    using len unat_of_nat_64 [of "length (command_bytes x @ command_pad x)"] by (simp only: s(3)) simp
  ultimately show ?thesis using s len by simp
qed

theorem command_round_trip_witness:
  "\<exists>s z d. command_serialize (UnitInfo ((UnitInfoCmd [] 0)\<lparr>m_ctype := 1, m_unit_type := 0x1c, m_unit := 3,
        m_company_id := 0x00a0de\<rparr>)) (new_cursor (replicate 512 0) 512) = Inr (True, s) \<and>
    command_deserialize (\<lambda>_. 0) (UnitInfo (UnitInfoCmd [] 0)) (new_cursor (m_buffer s) 8) = Inr ((True, z), d) \<and>
    command_serialize z (new_cursor (replicate 512 0) 512) = Inr (True, s) \<and>
    unat (m_curPos d) = 8"
  using command_round_trip [of "UnitInfo ((UnitInfoCmd [] 0)\<lparr>m_ctype := 1, m_unit_type := 0x1c, m_unit := 3,
        m_company_id := 0x00a0de\<rparr>)" "UnitInfo (UnitInfoCmd [] 0)" 8 "\<lambda>_. 0"]
  by (auto simp: unit_info_proper_def base_proper_def command_fresh_def command_pad_def unit_info_bytes_def
      base_bytes_def)

section \<open>Typing\<close>

text \<open>
  What holds of the objects from their construction on: arrays have their length, and the parts an
  object owns are well-typed.
\<close>

definition command_shape :: "command \<Rightarrow> bool" where
  "command_shape c = (case c of
     OutputPlugSignalFormat c \<Rightarrow> length (m_fdf c) = 3
   | InputPlugSignalFormat c \<Rightarrow> length (m_fdf c) = 3
   | ExtendedPlugInfo c \<Rightarrow> info_typed (extended_plug_info.m_infoType c)
   | FunctionBlock c \<Rightarrow> function_block_typed c
   | _ \<Rightarrow> True)"

text \<open>\<open>command_typed c c'\<close>: the object \<open>c'\<close> is well-typed after it was parsed into the object \<open>c\<close>.\<close>

primrec command_typed :: "command \<Rightarrow> command \<Rightarrow> bool" where
  "command_typed (Connect c) c' = (case c' of Connect c' \<Rightarrow> True | _ \<Rightarrow> False)"
| "command_typed (UnitInfo c) c' = (case c' of UnitInfo c' \<Rightarrow> unit_info_typed c' | _ \<Rightarrow> False)"
| "command_typed (SubUnitInfo c) c' = (case c' of SubUnitInfo c' \<Rightarrow> subunit_info_typed c' | _ \<Rightarrow> False)"
| "command_typed (PlugInfo c) c' = (case c' of PlugInfo c' \<Rightarrow> True | _ \<Rightarrow> False)"
| "command_typed (OutputPlugSignalFormat c) c' =
     (case c' of OutputPlugSignalFormat c' \<Rightarrow> plug_signal_format_typed c' | _ \<Rightarrow> False)"
| "command_typed (InputPlugSignalFormat c) c' =
     (case c' of InputPlugSignalFormat c' \<Rightarrow> plug_signal_format_typed c' | _ \<Rightarrow> False)"
| "command_typed (VendorDependent c) c' =
     (case c' of VendorDependent c' \<Rightarrow> m_companyId c' < 0x1000000 | _ \<Rightarrow> False)"
| "command_typed (ExtendedSubunitInfo c) c' =
     (case c' of ExtendedSubunitInfo c' \<Rightarrow> pages_appended c c' | _ \<Rightarrow> False)"
| "command_typed (SignalSource c) c' = (case c' of SignalSource c' \<Rightarrow> signal_source_typed c' | _ \<Rightarrow> False)"
| "command_typed (ExtendedStreamFormat c) c' =
     (case c' of ExtendedStreamFormat c' \<Rightarrow> extended_stream_format_typed c c' | _ \<Rightarrow> False)"
| "command_typed (ExtendedPlugInfo c) c' =
     (case c' of ExtendedPlugInfo c' \<Rightarrow> extended_plug_info_typed c c' | _ \<Rightarrow> False)"
| "command_typed (FunctionBlock c) c' =
     (case c' of FunctionBlock c' \<Rightarrow> function_block_typed c' \<and>
        (function_block_parts c \<longrightarrow> function_block_parts c') | _ \<Rightarrow> False)"

text \<open>The faults a class can run into on the bytes of a device.\<close>

definition command_faults :: "command \<Rightarrow> fault set" where
  "command_faults c = (case c of
     ExtendedPlugInfo c \<Rightarrow> {NullPointer, OutOfBounds}
   | FunctionBlock c \<Rightarrow> if function_block_parts c then {} else {NullPointer}
   | _ \<Rightarrow> {})"

lemma constructed_shape:
  "command_shape (OutputPlugSignalFormat (OutputPlugSignalFormatCmd f ct))"
  "command_shape (InputPlugSignalFormat (InputPlugSignalFormatCmd f ct))"
  "command_shape (ExtendedPlugInfo (ExtendedPlugInfoCmd f ct sub))"
  "command_shape (FunctionBlock (FunctionBlockCmd f ct t i a))"
  by (simp_all add: command_shape_def OutputPlugSignalFormatCmd_def InputPlugSignalFormatCmd_def
      ExtendedPlugInfoCmd_def FunctionBlockCmd_def info_typed_def InfoType_initialize_def InfoType_def
      function_block_typed_def processing_typed_def Processing_new_def setSubunitType_def
      plug_signal_format.defs extended_plug_info.defs function_block.defs avc_command.defs AVCCommand_def)

lemma parses_as_command:
  "parses F f P \<Longrightarrow> (\<And>c. P c \<Longrightarrow> Q (K c)) \<Longrightarrow> parses F (as_command K f) Q"
  unfolding as_command_def by (rule parses_then)

lemma parses_connect: "parses F (ConnectCmd_deserialize c) (\<lambda>c. True)"
  unfolding ConnectCmd_deserialize_def by (rule parses_mono [OF parses_base order_refl]) simp

lemma parses_input_format:
  "length (m_fdf c) = 3 \<Longrightarrow> parses F (InputPlugSignalFormatCmd_deserialize ind c) plug_signal_format_typed"
  using parses_plug_signal_format by (simp add: input_output_same)

lemma parses_command:
  assumes "command_shape c"
  shows "parses (command_faults c) (command_deserialize ind c) (\<lambda>c'. command_typed c c' \<and> command_shape c')"
proof (cases c)
  case (Connect x)
  show ?thesis unfolding Connect command_deserialize.simps
    by (rule parses_as_command [OF parses_connect]) (simp add: command_shape_def)
next
  case (UnitInfo x)
  show ?thesis unfolding UnitInfo command_deserialize.simps
    by (rule parses_as_command [OF parses_unit_info]) (simp add: command_shape_def)
next
  case (SubUnitInfo x)
  show ?thesis unfolding SubUnitInfo command_deserialize.simps
    by (rule parses_as_command [OF parses_subunit_info]) (simp add: command_shape_def)
next
  case (PlugInfo x)
  show ?thesis unfolding PlugInfo command_deserialize.simps
    by (rule parses_as_command [OF parses_plug_info]) (simp add: command_shape_def)
next
  case (OutputPlugSignalFormat x)
  show ?thesis unfolding OutputPlugSignalFormat command_deserialize.simps
    using assms [unfolded OutputPlugSignalFormat] by (intro parses_as_command [OF parses_plug_signal_format])
      (simp_all add: command_shape_def plug_signal_format_typed_def)
next
  case (InputPlugSignalFormat x)
  show ?thesis unfolding InputPlugSignalFormat command_deserialize.simps
    using assms [unfolded InputPlugSignalFormat] by (intro parses_as_command [OF parses_input_format])
      (simp_all add: command_shape_def plug_signal_format_typed_def)
next
  case (VendorDependent x)
  show ?thesis unfolding VendorDependent command_deserialize.simps
    by (rule parses_as_command [OF parses_vendor_dependent]) (simp add: command_shape_def)
next
  case (ExtendedSubunitInfo x)
  show ?thesis unfolding ExtendedSubunitInfo command_deserialize.simps
    by (rule parses_as_command [OF parses_extended_subunit_info]) (simp add: command_shape_def)
next
  case (SignalSource x)
  show ?thesis unfolding SignalSource command_deserialize.simps
    by (rule parses_as_command [OF parses_signal_source]) (simp add: command_shape_def)
next
  case (ExtendedStreamFormat x)
  show ?thesis unfolding ExtendedStreamFormat command_deserialize.simps
    by (rule parses_as_command [OF parses_extended_stream_format]) (simp add: command_shape_def)
next
  case (ExtendedPlugInfo x)
  show ?thesis unfolding ExtendedPlugInfo command_deserialize.simps
    using assms [unfolded ExtendedPlugInfo] by (intro parses_as_command [OF parses_extended_plug_info])
      (simp_all add: command_shape_def command_faults_def extended_plug_info_typed_def)
next
  case (FunctionBlock x)
  show ?thesis unfolding FunctionBlock command_deserialize.simps
    using assms [unfolded FunctionBlock] by (intro parses_as_command [OF parses_function_block])
      (simp_all add: command_shape_def command_faults_def)
qed

text \<open>
  C13. A response of a device cannot put a command into a state outside its type. Whatever bytes are
  parsed, however short, the command that comes out is of the same class, has every field inside
  the range its width on the bus gives it, every count agreeing with the vector it counts, every
  name without a terminator inside, and is again an object that can receive a response. Parsing ends
  without a result in two classes only: an extended plug info (a name that is not terminated or was
  cut off), and a function block command whose feature part lacks a volume or a balance object.
\<close>

theorem command_deserialize_typed:
  assumes "command_shape c" "cursor_ok d"
  shows "case command_deserialize ind c d of
      Inl e \<Rightarrow> e \<in> command_faults c
    | Inr ((b, c'), d') \<Rightarrow> command_typed c c' \<and> command_shape c' \<and> m_buffer d' = m_buffer d"
  using parsesD [OF parses_command [OF assms(1)] assms(2), of ind] by (auto split: sum.splits)

theorem command_deserialize_typed_witness:
  "case command_deserialize (\<lambda>_. 0xee) (SubUnitInfo (SubUnitInfoCmd [] 0 (\<lambda>_. 0)))
      (new_cursor [0x0c, 0xff, 0x31, 0x57, 0x08] 5) of
     Inl e \<Rightarrow> False
   | Inr ((b, c'), d') \<Rightarrow> command_typed (SubUnitInfo (SubUnitInfoCmd [] 0 (\<lambda>_. 0))) c' \<and> command_shape c'"
  using command_deserialize_typed [of "SubUnitInfo (SubUnitInfoCmd [] 0 (\<lambda>_. 0))"
      "new_cursor [0x0c, 0xff, 0x31, 0x57, 0x08] 5" "\<lambda>_. 0xee"]
  by (auto simp: command_shape_def command_faults_def cursor_ok_def new_cursor_def split: sum.splits)

end
