(* ===== verification/AVC_Requests.thy ===== *)
theory AVC_Requests
  imports AVC_Command
begin

text \<open>
  What serializing does to the frame when nothing is known of the members of a command. Every
  serializer only appends, never leaves the frame, and starts with the three bytes of the header;
  it can fail to return in two ways, a name table that is too short and a part that is missing.
\<close>

section \<open>Appending\<close>

definition in_frame :: "buffer_cursor \<Rightarrow> bool" where
  "in_frame s \<longleftrightarrow> cursor_ok s \<and> unat (m_curPos s) \<le> unat (m_length s)"

definition appended :: "buffer_cursor \<Rightarrow> buffer_cursor \<Rightarrow> bool" where
  "appended s s' \<longleftrightarrow> inside s s' \<and> in_frame s' \<and> unat (m_curPos s) \<le> unat (m_curPos s') \<and>
     take (unat (m_curPos s)) (m_buffer s') = take (unat (m_curPos s)) (m_buffer s)"

definition emits :: "fault set \<Rightarrow> writer \<Rightarrow> bool" where
  "emits F f \<longleftrightarrow> (\<forall>s. in_frame s \<longrightarrow> (case f s of Inl e \<Rightarrow> e \<in> F | Inr (b, s') \<Rightarrow> appended s s'))"

named_theorems emitting \<open>rules for calls that append to the frame\<close>

lemma emitsD: "emits F f \<Longrightarrow> in_frame s \<Longrightarrow> case f s of Inl e \<Rightarrow> e \<in> F | Inr (b, s') \<Rightarrow> appended s s'"
  by (simp add: emits_def)

lemma appended_refl: "in_frame s \<Longrightarrow> appended s s"
  by (simp add: appended_def in_frame_def inside_refl)

lemma appended_trans:
  assumes "appended s t" "appended t u"
  shows "appended s u"
proof -
  have le: "min (unat (m_curPos s)) (unat (m_curPos t)) = unat (m_curPos s)"
    using assms(1) by (simp add: appended_def)
  have "take (unat (m_curPos s)) (m_buffer u) = take (unat (m_curPos s)) (take (unat (m_curPos t)) (m_buffer u))"
    by (simp add: take_take le)
  also have "\<dots> = take (unat (m_curPos s)) (take (unat (m_curPos t)) (m_buffer t))"
    using assms(2) by (simp only: appended_def)
  also have "\<dots> = take (unat (m_curPos s)) (m_buffer s)"
    using assms(1) by (simp add: take_take le) (simp add: appended_def)
  finally show ?thesis using assms inside_trans [of s t u] by (simp add: appended_def)
qed

lemma emits_done [emitting]: "emits F (done_with b)"
  by (simp add: emits_def done_with_def appended_refl)

lemma emits_bind:
  assumes "emits F f" "\<And>b. emits F (g b)"
  shows "emits F (\<lambda>s. bind_result (f s) (\<lambda>(b, s). g b s))"
  unfolding emits_def
proof (intro allI impI)
  fix s assume s: "in_frame s"
  show "case bind_result (f s) (\<lambda>(b, s). g b s) of Inl e \<Rightarrow> e \<in> F | Inr (b, s') \<Rightarrow> appended s s'"
  proof (cases "f s")
    case (Inr r)
    obtain b t where r: "r = (b, t)" by (cases r)
    with Inr emitsD [OF assms(1) s] have t: "appended s t" by simp
    then have "in_frame t" by (simp add: appended_def)
    from emitsD [OF assms(2) [of b] this] show ?thesis
      using Inr r appended_trans [OF t] by (cases "g b t") auto
  qed (use emitsD [OF assms(1) s] in simp)
qed

lemma emits_after [emitting]: "emits F f \<Longrightarrow> emits F g \<Longrightarrow> emits F (after f g)"
  using emits_bind [of F f "\<lambda>b. g"] by (simp add: after_def [abs_def])

lemma emits_also_ok [emitting]: "emits F f \<Longrightarrow> emits F g \<Longrightarrow> emits F (also_ok f g)"
  using emits_bind [of F f "\<lambda>b s. bind_result (g s) (\<lambda>(c, s). done_with (b \<and> c) s)"]
    emits_bind [of F g "\<lambda>c. done_with (b \<and> c)" for b] emits_done
  by (simp add: also_ok_def [abs_def] done_with_def)

lemma emits_byte [emitting]: "emits F (write_byte v)"
  unfolding emits_def
proof (intro allI impI)
  fix s assume s: "in_frame s"
  show "case write_byte v s of Inl e \<Rightarrow> e \<in> F | Inr (b, s') \<Rightarrow> appended s s'"
  proof (cases "isCurPosValid s")
    case True
    then have f: "fits s 1" using s by (simp add: fits_def in_frame_def isCurPosValid_iff)
    obtain b t where w: "write_byte v s = Inr (b, t)" "inside s t"
      using write_byte_inside s unfolding in_frame_def by blast
    with write_byte_fits [OF f, of v] have t: "t = put s [v]" by simp
    have p: "unat (m_curPos s + 1) = Suc (unat (m_curPos s))"
      using f cursor_ok_bound [of s] by (intro unat_pos_Suc) (auto simp: fits_def)
    have "unat (m_curPos s) < length (m_buffer s)"
      using f by (auto simp: fits_def cursor_ok_def)
    then show ?thesis
      using w s f p by (auto simp: t appended_def in_frame_def inside_def put_def fits_def)
  qed (use s in \<open>simp add: write_byte_def appended_refl\<close>)
qed

lemma emits_if [emitting]: "(c \<Longrightarrow> emits F f) \<Longrightarrow> (\<not> c \<Longrightarrow> emits F g) \<Longrightarrow> emits F (if c then f else g)"
  by simp

lemma emits_u16 [emitting]: "emits F (write_u16 v)"
proof -
  have "write_u16 v = (\<lambda>s. bind_result (write_byte (ucast (drop_bit 8 v)) s)
      (\<lambda>(b, s). (if b then write_byte (ucast v) else done_with False) s))"
    unfolding write_u16_bytes [abs_def] by (auto simp: fun_eq_iff done_with_def intro!: arg_cong [of _ _ "bind_result _"])
  then show ?thesis by (simp only:) (intro emits_bind emitting)
qed

lemma emits_writes [emitting]: "emits F (writes vs)"
  by (induction vs) (simp_all add: writes.simps emitting)

lemma emits_each [emitting]: "(\<And>x. x \<in> set xs \<Longrightarrow> emits F (f x)) \<Longrightarrow> emits F (serialize_each f xs)"
  by (induction xs) (simp_all add: emitting)

lemma emits_option [emitting]:
  "(p = None \<Longrightarrow> emits F f) \<Longrightarrow> (\<And>x. p = Some x \<Longrightarrow> emits F (g x)) \<Longrightarrow>
   emits F (case p of None \<Rightarrow> f | Some x \<Rightarrow> g x)"
  by (cases p) simp_all

lemma emits_mono: "emits F f \<Longrightarrow> F \<subseteq> G \<Longrightarrow> emits G f"
  unfolding emits_def by (fastforce split: sum.splits)

section \<open>The serializers\<close>

text \<open>The name of the command type is looked up in a table that is one entry short.\<close>

lemma responseToString_Inl: "responseToString b = Inl e \<longleftrightarrow> b = 0xf \<and> e = OutOfBounds"
proof -
  have "unat b = 15 \<longleftrightarrow> b = 0xf" by (auto simp: word_unat_eq_iff)
  then show ?thesis by (auto simp: responseToString_def string_at_def responseToStrings_def)
qed

definition header_faults :: "'a avc_command_scheme \<Rightarrow> fault set" where
  "header_faults c = (if m_ctype c = 0xf then {OutOfBounds} else {})"

lemma emits_base: "emits (header_faults c) (AVCCommand_serialize c)"
proof (cases "responseToString (m_ctype c)")
  case (Inl e)
  then show ?thesis unfolding responseToString_Inl by (simp add: emits_def AVCCommand_serialize_def header_faults_def
        responseToString_Inl [THEN iffD2])
next
  case (Inr x)
  then have "AVCCommand_serialize c = after (writes [m_ctype c, m_subunit c, m_opcode c]) (done_with True)"
    by (intro ext) (simp add: AVCCommand_serialize_def)
  then show ?thesis by (simp only:) (intro emitting)
qed

lemmas emits_header [emitting] = emits_mono [OF emits_base]

lemmas generic_serializers =
  ConnectCmd_serialize_def UnitInfoCmd_serialize_def SubUnitInfoCmd_serialize_def PlugInfoCmd_serialize_def
  OutputPlugSignalFormatCmd_serialize_def InputPlugSignalFormatCmd_serialize_def
  VendorDependentCmd_serialize_def PageData_serialize_def

lemma emits_generic:
  "emits (header_faults c0) (ConnectCmd_serialize c0)"
  "emits (header_faults c1) (UnitInfoCmd_serialize c1)"
  "emits (header_faults c2) (SubUnitInfoCmd_serialize c2)"
  "emits (header_faults c3) (PlugInfoCmd_serialize c3)"
  "emits (header_faults c4) (OutputPlugSignalFormatCmd_serialize c4)"
  "emits (header_faults c4) (InputPlugSignalFormatCmd_serialize c4)"
  "emits (header_faults c5) (VendorDependentCmd_serialize c5)"
  unfolding generic_serializers Let_def by (intro emitting order_refl)+

lemma emits_page_data [emitting]: "emits F (PageData_serialize p)"
  unfolding generic_serializers by (intro emitting)

lemma emits_extended_subunit_info: "emits (header_faults c) (ExtendedSubunitInfoCmd_serialize c)"
  unfolding ExtendedSubunitInfoCmd_serialize_def Let_def by (intro emits_bind emitting order_refl)

lemma emits_signal_address [emitting]: "emits F (SignalAddress_serialize a)"
  by (cases a) (auto simp: SignalUnitAddress_serialize_def SignalSubunitAddress_serialize_def intro!: emitting)

lemma emits_signal_source: "emits (header_faults c) (SignalSourceCmd_serialize c)"
  unfolding SignalSourceCmd_serialize_def serialize_or_reserved_def Let_def by (intro emitting order_refl)

lemma emits_plug_address_data [emitting]: "emits F (PlugAddressData_serialize a)"
  by (cases a) (auto simp: UnitPlugAddress_serialize_def SubunitPlugAddress_serialize_def
      FunctionBlockPlugAddress_serialize_def UndefinedPlugAddress_serialize_def
      UnitPlugSpecificData_serialize_def SubunitPlugSpecificData_serialize_def
      FunctionBlockPlugSpecificData_serialize_def UndefinedPlugSpecificData_serialize_def intro!: emitting)

lemma emits_plug_address [emitting]:
  "emits F (PlugAddress_serialize p)" "emits F (PlugAddressSpecificData_serialize p)"
  unfolding PlugAddress_serialize_def PlugAddressSpecificData_serialize_def by (intro emitting)+

lemma emits_streams [emitting]: "emits F (Streams_serialize x)"
  by (cases x) (auto simp: StreamsSync_serialize_def StreamsCompound_serialize_def StreamFormatInfo_serialize_def
      Let_def intro!: emitting)

lemma emits_extended_stream_format: "emits (header_faults c) (ExtendedStreamFormatCmd_serialize c)"
  unfolding ExtendedStreamFormatCmd_serialize_def FormatInformation_serialize_def by (intro emitting order_refl)

lemma InfoTypeToString_Inl:
  "extendedPlugInfoInfoTypeToString b = Inl e \<longleftrightarrow> b = 8 \<and> e = OutOfBounds"
proof -
  have "unat b = 8 \<longleftrightarrow> b = 8" by (auto simp: word_unat_eq_iff)
  then show ?thesis
    by (auto simp: extendedPlugInfoInfoTypeToString_def string_at_def extendedPlugInfoInfoTypeStrings_def)
qed

lemma emits_info_data [emitting]: "emits F (InfoType_serialize_data i)"
  unfolding InfoType_serialize_data_def serialize_if_def PlugType_serialize_def PlugName_serialize_def
    NumberOfChannels_serialize_def ChannelPosition_serialize_def serialize_cluster_def serialize_channel_def
    ChannelName_serialize_def PlugInput_serialize_def PlugOutput_serialize_def ClusterInfo_serialize_def Let_def
  by (intro emitting)

lemma emits_info: "emits (if info_type.m_infoType i = 8 then {OutOfBounds} else {}) (InfoType_serialize i)"
proof (cases "extendedPlugInfoInfoTypeToString (info_type.m_infoType i)")
  case (Inl e)
  then show ?thesis unfolding InfoTypeToString_Inl
    by (simp add: emits_def InfoType_serialize_def InfoTypeToString_Inl [THEN iffD2])
next
  case (Inr x)
  then have "InfoType_serialize i = after (write_byte (info_type.m_infoType i)) (InfoType_serialize_data i)"
    by (intro ext) (simp add: InfoType_serialize_def)
  then show ?thesis by (simp only:) (intro emitting)
qed

lemmas emits_info_type [emitting] = emits_mono [OF emits_info]

definition plug_info_faults :: "extended_plug_info \<Rightarrow> fault set" where
  "plug_info_faults c = (if info_type.m_infoType (extended_plug_info.m_infoType c) = 8 then {OutOfBounds} else {}) \<union> header_faults c"

lemma emits_extended_plug_info: "emits (plug_info_faults c) (ExtendedPlugInfoCmd_serialize c)"
  unfolding ExtendedPlugInfoCmd_serialize_def plug_info_faults_def by (intro emitting Un_upper1 Un_upper2)

text \<open>A feature whose selector asks for a part that was never set is dereferenced as a null pointer.\<close>

definition part_faults :: "function_block \<Rightarrow> fault set" where
  "part_faults c = (if function_block.m_functionBlockType c = eFBT_Feature then
     (case m_pFBFeature c of None \<Rightarrow> {} | Some f \<Rightarrow>
        if fb_feature.m_controlSelector f = eCSE_Feature_Volume \<and> m_pVolume f = None \<or>
           fb_feature.m_controlSelector f = eCSE_Feature_LRBalance \<and> m_pLRBalance f = None
        then {NullPointer} else {}) else {})"

lemma emits_call [emitting]:
  "(p = None \<Longrightarrow> NullPointer \<in> F) \<Longrightarrow> (\<And>x. p = Some x \<Longrightarrow> emits F (f x)) \<Longrightarrow> emits F (call f p)"
  by (cases p) (simp_all add: emits_def call_def [abs_def])

lemma emits_function_block: "emits (part_faults c \<union> header_faults c) (FunctionBlockCmd_serialize c)"
  unfolding FunctionBlockCmd_serialize_def serialize_or_fail_def Selector_serialize_def Feature_serialize_def
    FeatureVolume_serialize_def FeatureLRBalance_serialize_def Processing_serialize_def ProcessingMixer_serialize_def
    EnhancedMixer_serialize_def Codec_serialize_def Let_def
  by (intro emitting Un_upper2) (simp_all add: part_faults_def)

definition request_faults :: "command \<Rightarrow> fault set" where
  "request_faults c = (case c of
     ExtendedPlugInfo c \<Rightarrow> plug_info_faults c
   | FunctionBlock c \<Rightarrow> part_faults c \<union> header_faults c
   | _ \<Rightarrow> header_faults (command_base c))"

lemma header_faults_base: "header_faults (avc_command.truncate c) = header_faults c"
  by (simp add: header_faults_def avc_command.defs)

lemma emits_command: "emits (request_faults c) (command_serialize c)"
  by (cases c) (simp_all add: request_faults_def header_faults_base emits_generic emits_extended_subunit_info
      emits_signal_source emits_extended_stream_format emits_extended_plug_info emits_function_block)

section \<open>The header comes first\<close>

definition headed :: "'a avc_command_scheme \<Rightarrow> writer \<Rightarrow> bool" where
  "headed c f \<longleftrightarrow> (\<forall>s b s'. in_frame s \<longrightarrow> f s = Inr (b, s') \<longrightarrow>
     (\<exists>a t. AVCCommand_serialize c s = Inr (a, t) \<and> appended t s'))"

lemma headed_bind:
  assumes "\<And>b. emits UNIV (g b)"
  shows "headed c (\<lambda>s. bind_result (AVCCommand_serialize c s) (\<lambda>(b, s). g b s))"
  unfolding headed_def
proof (intro allI impI)
  fix s b s' assume s: "in_frame s" and e: "bind_result (AVCCommand_serialize c s) (\<lambda>(b, s). g b s) = Inr (b, s')"
  from e obtain a t where t: "AVCCommand_serialize c s = Inr (a, t)" "g a t = Inr (b, s')"
    by (auto simp: bind_result_Inr_iff)
  with emitsD [OF emits_base [of c] s] have "in_frame t" by (auto simp: appended_def)
  from emitsD [OF assms [of a] this] t show "\<exists>a t. AVCCommand_serialize c s = Inr (a, t) \<and> appended t s'" by auto
qed

lemma headed_after: "emits UNIV g \<Longrightarrow> headed c (after (AVCCommand_serialize c) g)"
  using headed_bind [of "\<lambda>b. g" c] by (simp add: after_def [abs_def])

lemma headed_also_ok: "emits UNIV g \<Longrightarrow> headed c (also_ok (AVCCommand_serialize c) g)"
  using headed_bind [of "\<lambda>b s. bind_result (g s) (\<lambda>(c, s). done_with (b \<and> c) s)" c]
    emits_bind [of UNIV g "\<lambda>c. done_with (b \<and> c)" for b] emits_done
  by (simp add: also_ok_def [abs_def] done_with_def)

lemma headed_connect: "headed c (ConnectCmd_serialize c)"
  unfolding headed_def ConnectCmd_serialize_def
proof (intro allI impI)
  fix s b s' assume s: "in_frame s" and e: "also_ok (done_with True) (AVCCommand_serialize c) s = Inr (b, s')"
  then have t: "AVCCommand_serialize c s = Inr (b, s')"
    by (auto simp: also_ok_def done_with_def bind_result_Inr_iff)
  with emitsD [OF emits_base [of c] s] have "in_frame s'" by (auto simp: appended_def)
  then show "\<exists>a t. AVCCommand_serialize c s = Inr (a, t) \<and> appended t s'" using t appended_refl by blast
qed

lemma headed_extended_subunit_info: "headed c (ExtendedSubunitInfoCmd_serialize c)"
proof -
  let ?g = "also_ok (write_byte (extended_subunit_info.m_page c)) (also_ok (write_byte (m_fbType c))
     (serialize_each PageData_serialize (m_infoPageDatas c)))"
  let ?h = "\<lambda>status. after (writes (replicate (5 * 5 - length (m_infoPageDatas c) * 5) 0xff)) (done_with status)"
  have "headed c (\<lambda>s. bind_result (AVCCommand_serialize c s) (\<lambda>(a, s).
      bind_result (?g s) (\<lambda>(b, s). ?h (a \<and> b) s)))"
    by (intro headed_bind emits_bind emitting)
  also have "(\<lambda>s. bind_result (AVCCommand_serialize c s) (\<lambda>(a, s).
      bind_result (?g s) (\<lambda>(b, s). ?h (a \<and> b) s))) = ExtendedSubunitInfoCmd_serialize c"
    unfolding ExtendedSubunitInfoCmd_serialize_def Let_def also_ok_def [of "AVCCommand_serialize c"]
    by (auto simp: bind_result_assoc case_prod_unfold)
  finally show ?thesis .
qed

lemmas headed_rules = headed_after headed_also_ok emitting subset_UNIV

lemma headed_generic:
  "headed c1 (UnitInfoCmd_serialize c1)" "headed c2 (SubUnitInfoCmd_serialize c2)"
  "headed c3 (PlugInfoCmd_serialize c3)" "headed c4 (OutputPlugSignalFormatCmd_serialize c4)"
  "headed c4 (InputPlugSignalFormatCmd_serialize c4)" "headed c5 (VendorDependentCmd_serialize c5)"
  "headed c6 (SignalSourceCmd_serialize c6)" "headed c7 (ExtendedStreamFormatCmd_serialize c7)"
  "headed c8 (ExtendedPlugInfoCmd_serialize c8)" "headed c9 (FunctionBlockCmd_serialize c9)"
  unfolding generic_serializers SignalSourceCmd_serialize_def serialize_or_reserved_def
    ExtendedStreamFormatCmd_serialize_def FormatInformation_serialize_def ExtendedPlugInfoCmd_serialize_def
    FunctionBlockCmd_serialize_def serialize_or_fail_def Selector_serialize_def Feature_serialize_def
    FeatureVolume_serialize_def FeatureLRBalance_serialize_def Processing_serialize_def
    ProcessingMixer_serialize_def EnhancedMixer_serialize_def Codec_serialize_def Let_def
  by (intro headed_rules; simp)+

lemma headed_base: "headed (avc_command.truncate c) f = headed c f"
  by (simp add: headed_def AVCCommand_serialize_def [abs_def] avc_command.defs)

lemma headed_command: "headed (command_base c) (command_serialize c)"
  by (cases c) (simp_all add: headed_base headed_connect headed_generic headed_extended_subunit_info)

lemma command_frame:
  "case command_serialize c (new_cursor (replicate 512 0) 512) of
     Inl e \<Rightarrow> e \<in> request_faults c
   | Inr (b, s) \<Rightarrow> length (m_buffer s) = 512 \<and> 3 \<le> unat (m_curPos s) \<and> unat (m_curPos s) \<le> 512 \<and>
       take 3 (m_buffer s) = [m_ctype (command_base c), m_subunit (command_base c), m_opcode (command_base c)]"
proof -
  let ?s = "new_cursor (replicate 512 0) 512" and ?h = "base_bytes (command_base c)"
  have f: "in_frame ?s" "fits ?s 3" by (simp_all add: in_frame_def cursor_ok_def new_cursor_def fits_def)
  show ?thesis
  proof (cases "command_serialize c ?s")
    case (Inr r)
    obtain b s where r: "r = (b, s)" by (cases r)
    with Inr have e: "command_serialize c ?s = Inr (b, s)" by simp
    have a: "appended ?s s" using emitsD [OF emits_command f(1), of c] e by simp
    obtain a t where t: "AVCCommand_serialize (command_base c) ?s = Inr (a, t)" "appended t s"
      using headed_command [of c] f(1) e unfolding headed_def by blast
    have "base_proper (command_base c)"
      using t(1) responseToString_Inl [of "m_ctype (command_base c)" OutOfBounds]
      by (auto simp: base_proper_def AVCCommand_serialize_def)
    from sends_base [OF this] have "t = put ?s ?h" using f(2) t(1) by (auto simp: sends_def base_bytes_def numeral_3_eq_3)
    then have "take 3 (m_buffer s) = ?h" "3 \<le> unat (m_curPos s)"
      using t(2) by (auto simp: appended_def put_def new_cursor_def base_bytes_def)
    moreover have "length (m_buffer s) = 512" "unat (m_curPos s) \<le> 512"
      using a by (auto simp: appended_def inside_def in_frame_def new_cursor_def)
    ultimately show ?thesis using e by (simp add: base_bytes_def)
  qed (use emitsD [OF emits_command f(1), of c] in simp)
qed

text \<open>
  C16. No command can write outside its frame, whatever values its members have, sensible or not:
  serializing into the 512 bytes of a frame leaves the length of the frame and the position inside
  it, and the frame starts with the command type, the subunit and the opcode. The only ways not to return are
  the reserved command type, an information type just behind the table of names, and a feature
  without the part that its selector asks for.
\<close>

theorem command_request_safe:
  "case command_serialize c (new_cursor (replicate 512 0) 512) of
     Inl e \<Rightarrow> e \<in> request_faults c
   | Inr (b, s) \<Rightarrow> length (m_buffer s) = 512 \<and> 3 \<le> unat (m_curPos s) \<and> unat (m_curPos s) \<le> 512 \<and>
       take 3 (m_buffer s) = [m_ctype (command_base c), m_subunit (command_base c), m_opcode (command_base c)]"
  by (rule command_frame)

end
