(* ===== verification/AVC_Positions.thy ===== *)
theory AVC_Positions
  imports AVC_Requests
begin

text \<open>
  How far parsing goes, and what it leaves alone. Apart from the name of a plug, which is read through a
  pointer, no parser moves behind the end of the bytes it was given; and after the three bytes of
  the header no parser touches the members that all commands share.
\<close>

section \<open>Tracking the position\<close>

definition tracks :: "bool \<Rightarrow> 'a reader \<Rightarrow> ('a \<Rightarrow> bool) \<Rightarrow> bool" where
  "tracks bounded f Q \<longleftrightarrow> (\<forall>d b x d'. cursor_ok d \<longrightarrow> (bounded \<longrightarrow> in_frame d) \<longrightarrow> f d = Inr ((b, x), d') \<longrightarrow>
     cursor_ok d' \<and> (bounded \<longrightarrow> in_frame d') \<and> m_length d' = m_length d \<and> Q x)"

named_theorems tracking \<open>rules for parsers that stay inside their bytes\<close>

lemma tracksD:
  assumes "tracks bounded f Q" "cursor_ok d" "bounded \<longrightarrow> in_frame d" "f d = Inr ((b, x), d')"
  shows "cursor_ok d'" "bounded \<longrightarrow> in_frame d'" "m_length d' = m_length d" "Q x"
  using assms unfolding tracks_def by blast+

lemma tracks_give [tracking]: "Q x \<Longrightarrow> tracks bounded (give b x) Q"
  by (simp add: tracks_def give_def)

lemma tracks_bind:
  assumes "tracks bounded f P" "\<And>b x. P x \<Longrightarrow> tracks bounded (g b x) Q"
  shows "tracks bounded (get f g) Q"
  unfolding tracks_def
proof (intro allI impI)
  fix d b x d'
  assume d: "cursor_ok d" "bounded \<longrightarrow> in_frame d" "get f g d = Inr ((b, x), d')"
  then obtain a y e where e: "f d = Inr ((a, y), e)" "g a y e = Inr ((b, x), d')"
    by (auto simp: get_def bind_result_Inr_iff)
  note t = tracksD [OF assms(1) d(1,2) e(1)]
  from tracksD [OF assms(2) [OF t(4)] t(1,2) e(2)] t(3)
  show "cursor_ok d' \<and> (bounded \<longrightarrow> in_frame d') \<and> m_length d' = m_length d \<and> Q x" by simp
qed

lemma tracks_get [tracking]:
  "tracks bounded f (\<lambda>_. True) \<Longrightarrow> (\<And>b x. tracks bounded (g b x) Q) \<Longrightarrow> tracks bounded (get f g) Q"
  by (rule tracks_bind)

lemma tracks_byte [tracking]: "tracks bounded (read_byte old) (\<lambda>_. True)"
  unfolding tracks_def
proof (intro allI impI)
  fix d b x d'
  assume d: "cursor_ok d" "bounded \<longrightarrow> in_frame d" "read_byte old d = Inr ((b, x), d')"
  have "unat (m_curPos d + 1) = Suc (unat (m_curPos d))" if "isCurPosValid d"
    using that cursor_ok_bound [OF d(1)] by (intro unat_pos_Suc) (simp add: isCurPosValid_iff)
  then show "cursor_ok d' \<and> (bounded \<longrightarrow> in_frame d') \<and> m_length d' = m_length d \<and> True"
    using d by (auto simp: read_byte_def in_frame_def isCurPosValid_iff bind_result_Inr_iff split: if_splits)
qed

lemma tracks_peek [tracking]: "tracks bounded (peek_byte old) (\<lambda>_. True)"
  by (auto simp: tracks_def peek_byte_def bind_result_Inr_iff split: if_splits)

lemma tracks_if [tracking]:
  "(c \<Longrightarrow> tracks bounded f Q) \<Longrightarrow> (\<not> c \<Longrightarrow> tracks bounded g Q) \<Longrightarrow> tracks bounded (if c then f else g) Q"
  by simp

lemma tracks_option [tracking]:
  "(p = None \<Longrightarrow> tracks bounded f Q) \<Longrightarrow> (\<And>x. p = Some x \<Longrightarrow> tracks bounded (g x) Q) \<Longrightarrow>
   tracks bounded (case p of None \<Rightarrow> f | Some x \<Rightarrow> g x) Q"
  by (cases p) simp_all

lemma tracks_reads [tracking]: "tracks bounded (reads vs) (\<lambda>_. True)"
  by (induction vs) (simp_all add: reads.simps tracking)

lemma tracks_u16 [tracking]: "tracks bounded (read_u16 old) (\<lambda>_. True)"
proof -
  have "read_u16 old = get (read_byte 0) (\<lambda>a hi. if a then get (read_byte 0) (\<lambda>b lo.
      if b then give True (push_bit 8 (ucast hi) OR ucast lo) else give False old) else give False old)"
    by (auto simp: fun_eq_iff read_u16_def get_def read_byte_def give_def Let_def bind_result_assoc
        intro!: arg_cong [of _ _ "bind_result _"])
  then show ?thesis by (simp only:) (intro tracking TrueI)
qed

lemma tracks_each [tracking]:
  "(\<And>i. tracks bounded (f i) (\<lambda>_. True)) \<Longrightarrow> tracks bounded (deserialize_each f i n acc) (\<lambda>_. True)"
  by (induction n arbitrary: i acc) (simp_all add: tracking)

section \<open>The parsers\<close>

lemma tracks_table [tracking]: "tracks bounded (read_table n v t k) (\<lambda>_. True)"
  by (induction n arbitrary: v t k) (simp_all add: tracking)

lemma tracks_page_data [tracking]: "tracks bounded (PageData_deserialize p) (\<lambda>_. True)"
  unfolding PageData_deserialize_def by (intro tracking TrueI)

lemma tracks_pages [tracking]: "tracks bounded (read_pages ind i n b acc) (\<lambda>_. True)"
  by (induction n arbitrary: i b acc) (simp_all add: tracking)

lemma tracks_signal_address [tracking]: "tracks bounded (SignalAddress_deserialize ind a) (\<lambda>_. True)"
  by (cases a) (simp_all add: SignalUnitAddress_deserialize_def SignalSubunitAddress_deserialize_def tracking)

lemma tracks_plug_address_data [tracking]: "tracks bounded (PlugAddressData_deserialize a) (\<lambda>_. True)"
  by (cases a) (simp_all add: UnitPlugAddress_deserialize_def SubunitPlugAddress_deserialize_def
      FunctionBlockPlugAddress_deserialize_def UndefinedPlugAddress_deserialize_def
      UnitPlugSpecificData_deserialize_def SubunitPlugSpecificData_deserialize_def
      FunctionBlockPlugSpecificData_deserialize_def UndefinedPlugSpecificData_deserialize_def tracking)

lemma tracks_plug_address [tracking]:
  "tracks bounded (PlugAddress_deserialize p) (\<lambda>_. True)"
  "tracks bounded (PlugAddressSpecificData_deserialize p) (\<lambda>_. True)"
  unfolding PlugAddress_deserialize_def PlugAddressSpecificData_deserialize_def by (intro tracking TrueI)+

lemma tracks_streams [tracking]: "tracks bounded (Streams_deserialize ind x) (\<lambda>_. True)"
  by (cases x) (simp_all add: StreamsSync_deserialize_def StreamsCompound_deserialize_def
      StreamFormatInfo_deserialize_def tracking)

lemma tracks_format_information [tracking]: "tracks bounded (FormatInformation_deserialize ind i) (\<lambda>_. True)"
  unfolding FormatInformation_deserialize_def by (intro tracking TrueI)

lemma tracks_name [tracking]: "tracks bounded (read_name ind i n name) (\<lambda>_. True)"
  by (induction n arbitrary: i name) (simp_all add: Let_def tracking)

lemma tracks_drain [tracking]: "tracks bounded (drain v) (\<lambda>_. True)"
  unfolding tracks_def
proof (intro allI impI)
  fix d b x d' assume d: "cursor_ok d" "bounded \<longrightarrow> in_frame d" "drain v d = Inr ((b, x), d')"
  show "cursor_ok d' \<and> (bounded \<longrightarrow> in_frame d') \<and> m_length d' = m_length d \<and> True"
    using drain_end [OF d(1), of v] d(2,3) by (auto simp: in_frame_def)
qed

lemma tracks_call [tracking]:
  "(\<And>x. tracks bounded (f x) Q) \<Longrightarrow> tracks bounded (call_reader f p) Q"
proof (cases p)
  case None
  then show ?thesis by (simp add: tracks_def call_reader_def)
next
  case (Some x)
  then have "call_reader f p = f x" by (simp add: call_reader_def fun_eq_iff)
  then show "(\<And>x. tracks bounded (f x) Q) \<Longrightarrow> ?thesis" by simp
qed

text \<open>The pointer to a name can be moved behind the end, so the position is not tracked there.\<close>

lemma tracks_pointer: "tracks False (read_pointer old len) (\<lambda>_. True)"
  by (auto simp: tracks_def read_pointer_def Let_def split: if_splits)

lemma tracks_plug_name: "tracks False (PlugName_deserialize ind name) (\<lambda>_. True)"
proof -
  have "tracks False (\<lambda>d. bind_result (c_string_at (m_buffer d) p) (\<lambda>name. give True name d)) (\<lambda>_. True)" for p
    by (auto simp: tracks_def bind_result_Inr_iff give_def)
  then show ?thesis unfolding PlugName_deserialize_def by (intro tracks_get tracks_byte tracks_pointer)
qed

lemma tracks_info_type [tracking]: "tracks False (InfoType_deserialize ind i) (\<lambda>_. True)"
  unfolding InfoType_deserialize_def InfoType_deserialize_data_def PlugType_deserialize_def
    NumberOfChannels_deserialize_def ChannelPosition_deserialize_def deserialize_cluster_def
    deserialize_channel_def ChannelName_deserialize_def PlugInput_deserialize_def PlugOutput_deserialize_def
    ClusterInfo_deserialize_def
  by (intro tracking tracks_plug_name TrueI)

lemma tracks_levels [tracking]: "tracks bounded (read_levels n b levels) (\<lambda>_. True)"
  by (induction n arbitrary: b levels) (simp_all add: tracking)

lemma tracks_feature [tracking]: "tracks bounded (Feature_deserialize ind f) (\<lambda>_. True)"
  unfolding Feature_deserialize_def FeatureVolume_deserialize_def FeatureLRBalance_deserialize_def
  by (intro tracking TrueI)

lemma tracks_processing [tracking]: "tracks bounded (Processing_deserialize ind p) (\<lambda>_. True)"
  unfolding Processing_deserialize_def ProcessingMixer_deserialize_def EnhancedMixer_deserialize_def Let_def
  by (intro tracking TrueI)

section \<open>What is kept\<close>

definition kept :: "'a avc_command_scheme \<Rightarrow> 'b avc_command_scheme \<Rightarrow> bool" where
  "kept c c' \<longleftrightarrow> m_nodeId c' = m_nodeId c \<and> m_fcpFrame c' = m_fcpFrame c \<and> m_ctype c' = m_ctype c \<and>
     m_subunit c' = m_subunit c \<and> m_opcode c' = m_opcode c \<and> m_eResponse c' = m_eResponse c \<and>
     m_commandType c' = m_commandType c"

text \<open>A parser that reads the header first and keeps the shared members after that.\<close>

definition reads_header :: "bool \<Rightarrow> 'a avc_command_scheme \<Rightarrow> 'a avc_command_scheme reader \<Rightarrow> bool" where
  "reads_header bounded c f \<longleftrightarrow> (\<forall>d b c' d' b0 b1 b2 rest. cursor_ok d \<longrightarrow> (bounded \<longrightarrow> in_frame d) \<longrightarrow>
     ahead d = b0 # b1 # b2 # rest \<longrightarrow> f d = Inr ((b, c'), d') \<longrightarrow>
     kept (c\<lparr>m_ctype := b0, m_subunit := b1, m_opcode := b2\<rparr>) c' \<and> (bounded \<longrightarrow> in_frame d') \<and>
     m_length d' = m_length d)"

lemma tracks_base: "tracks bounded (AVCCommand_deserialize c) (\<lambda>_. True)"
  unfolding AVCCommand_deserialize_def by (intro tracking TrueI)

lemma reads_header_get:
  assumes "\<And>b c. tracks bounded (g b c) (kept c)" "kept c c0"
  shows "reads_header bounded c (get (AVCCommand_deserialize c0) g)"
  unfolding reads_header_def
proof (intro allI impI)
  fix d b c' d' b0 b1 b2 rest
  assume d: "cursor_ok d" "bounded \<longrightarrow> in_frame d" "ahead d = b0 # b1 # b2 # rest"
    "get (AVCCommand_deserialize c0) g d = Inr ((b, c'), d')"
  let ?c = "c0\<lparr>m_ctype := b0, m_subunit := b1, m_opcode := b2\<rparr>"
  have h: "AVCCommand_deserialize c0 d = Inr ((True, ?c), advance 3 d)"
    using gets_base [of c0 ?c] d(1,3) by (auto simp: gets_def base_bytes_def base_received_def numeral_3_eq_3)
  note t = tracksD [OF tracks_base d(1,2) h]
  from h d(4) have "g True ?c (advance 3 d) = Inr ((b, c'), d')" by (simp add: get_def)
  from tracksD [OF assms(1) t(1,2) this] t(3) assms(2)
  show "kept (c\<lparr>m_ctype := b0, m_subunit := b1, m_opcode := b2\<rparr>) c' \<and> (bounded \<longrightarrow> in_frame d') \<and>
     m_length d' = m_length d" by (auto simp: kept_def)
qed

lemma kept_refl: "kept c c" by (simp add: kept_def)

lemma reads_header_connect: "reads_header bounded c (ConnectCmd_deserialize c)"
proof -
  have "get f give d = f d" for f :: "avc_command reader" and d
    by (cases "f d") (auto simp: get_def give_def)
  then have "get (AVCCommand_deserialize c) give = AVCCommand_deserialize c" by (intro ext)
  then show ?thesis
    using reads_header_get [of bounded give c c] by (simp add: ConnectCmd_deserialize_def tracks_give kept_refl)
qed

lemma reads_header_generic:
  "reads_header bounded c1 (UnitInfoCmd_deserialize ind c1)"
  "reads_header bounded c2 (SubUnitInfoCmd_deserialize ind c2)"
  "reads_header bounded c3 (PlugInfoCmd_deserialize ind c3)"
  "reads_header bounded c4 (OutputPlugSignalFormatCmd_deserialize ind c4)"
  "reads_header bounded c4 (InputPlugSignalFormatCmd_deserialize ind c4)"
  "reads_header bounded c5 (VendorDependentCmd_deserialize ind c5)"
  "reads_header bounded c6 (ExtendedSubunitInfoCmd_deserialize ind c6)"
  unfolding UnitInfoCmd_deserialize_def SubUnitInfoCmd_deserialize_def PlugInfoCmd_deserialize_def
    OutputPlugSignalFormatCmd_deserialize_def InputPlugSignalFormatCmd_deserialize_def
    VendorDependentCmd_deserialize_def ExtendedSubunitInfoCmd_deserialize_def Let_def
  by (intro reads_header_get tracking kept_refl; simp add: kept_def)+

lemma reads_header_signal_source: "reads_header bounded c (SignalSourceCmd_deserialize ind c)"
  unfolding SignalSourceCmd_deserialize_def SignalSource_addresses_def
  by (intro reads_header_get tracking; simp add: kept_def)

lemma reads_header_stream_format: "reads_header bounded c (ExtendedStreamFormatCmd_deserialize ind c)"
  unfolding ExtendedStreamFormatCmd_deserialize_def
  by (intro reads_header_get tracking; simp add: kept_def)

lemma reads_header_plug_info: "reads_header False c (ExtendedPlugInfoCmd_deserialize ind c)"
  unfolding ExtendedPlugInfoCmd_deserialize_def
  by (intro reads_header_get tracking; simp add: kept_def)

lemma reads_header_function_block: "reads_header bounded c (FunctionBlockCmd_deserialize ind c)"
  unfolding FunctionBlockCmd_deserialize_def FunctionBlock_deserialize_data_def Selector_deserialize_def
    Codec_deserialize_def
  by (intro reads_header_get tracking; simp add: kept_def)

text \<open>All commands: the position is tracked in every class but the extended plug info.\<close>

definition position_tracked :: "command \<Rightarrow> bool" where
  "position_tracked c = (case c of ExtendedPlugInfo c \<Rightarrow> False | _ \<Rightarrow> True)"

lemma reads_header_class:
  assumes "reads_header bounded c f" "as_command K f d = Inr ((b, c'), d')"
    "in_frame d" "ahead d = b0 # b1 # b2 # rest" "\<And>x. command_base (K x) = avc_command.truncate x"
  shows "kept ((avc_command.truncate c)\<lparr>m_ctype := b0, m_subunit := b1, m_opcode := b2\<rparr>) (command_base c') \<and>
    (bounded \<longrightarrow> in_frame d' \<and> m_length d' = m_length d)"
proof -
  obtain x where x: "f d = Inr ((b, x), d')" "c' = K x"
    using assms(2) by (auto simp: as_command_def get_def give_def bind_result_Inr_iff)
  have "cursor_ok d" using assms(3) by (simp add: in_frame_def)
  then have "kept (c\<lparr>m_ctype := b0, m_subunit := b1, m_opcode := b2\<rparr>) x \<and>
      (bounded \<longrightarrow> in_frame d' \<and> m_length d' = m_length d)"
    using assms(1,3,4) x(1) unfolding reads_header_def by blast
  then show ?thesis using assms(5) x(2) by (auto simp: kept_def avc_command.defs)
qed

lemma truncate_base: "avc_command.truncate c = c" for c :: avc_command
  by (cases c) (simp add: avc_command.defs)

lemma reads_header_final:
  assumes "reads_header bounded x f" "command_deserialize ind c = as_command K f"
    "command_base c = avc_command.truncate x" "\<And>x. command_base (K x) = avc_command.truncate x"
    "position_tracked c \<longrightarrow> bounded"
    "in_frame d" "ahead d = b0 # b1 # b2 # rest" "command_deserialize ind c d = Inr ((b, c'), d')"
  shows "kept ((command_base c)\<lparr>m_ctype := b0, m_subunit := b1, m_opcode := b2\<rparr>) (command_base c') \<and>
    (position_tracked c \<longrightarrow> in_frame d' \<and> m_length d' = m_length d)"
  using reads_header_class [OF assms(1) _ assms(6,7,4), of b c' d'] assms(2,3,5,8) by simp

lemma reads_header_command:
  assumes "in_frame d" "ahead d = b0 # b1 # b2 # rest" "command_deserialize ind c d = Inr ((b, c'), d')"
  shows "kept ((command_base c)\<lparr>m_ctype := b0, m_subunit := b1, m_opcode := b2\<rparr>) (command_base c') \<and>
    (position_tracked c \<longrightarrow> in_frame d' \<and> m_length d' = m_length d)"
proof -
  note final = reads_header_final [OF _ _ _ _ _ assms]
  show ?thesis
  proof (cases c)
    case (Connect x)
    then show ?thesis by (intro final [OF reads_header_connect [of True x], where K = Connect])
      (simp_all add: position_tracked_def truncate_base)
  next
    case (UnitInfo x)
    then show ?thesis by (intro final [OF reads_header_generic(1) [of True x ind], where K = UnitInfo])
      (simp_all add: position_tracked_def avc_command.defs)
  next
    case (SubUnitInfo x)
    then show ?thesis by (intro final [OF reads_header_generic(2) [of True x ind], where K = SubUnitInfo])
      (simp_all add: position_tracked_def avc_command.defs)
  next
    case (PlugInfo x)
    then show ?thesis by (intro final [OF reads_header_generic(3) [of True x ind], where K = PlugInfo])
      (simp_all add: position_tracked_def avc_command.defs)
  next
    case (OutputPlugSignalFormat x)
    then show ?thesis by (intro final [OF reads_header_generic(4) [of True x ind], where K = OutputPlugSignalFormat])
      (simp_all add: position_tracked_def avc_command.defs)
  next
    case (InputPlugSignalFormat x)
    then show ?thesis by (intro final [OF reads_header_generic(5) [of True x ind], where K = InputPlugSignalFormat])
      (simp_all add: position_tracked_def avc_command.defs)
  next
    case (VendorDependent x)
    then show ?thesis by (intro final [OF reads_header_generic(6) [of True x ind], where K = VendorDependent])
      (simp_all add: position_tracked_def avc_command.defs)
  next
    case (ExtendedSubunitInfo x)
    then show ?thesis by (intro final [OF reads_header_generic(7) [of True x ind], where K = ExtendedSubunitInfo])
      (simp_all add: position_tracked_def avc_command.defs)
  next
    case (SignalSource x)
    then show ?thesis by (intro final [OF reads_header_signal_source [of True x ind], where K = SignalSource])
      (simp_all add: position_tracked_def avc_command.defs)
  next
    case (ExtendedStreamFormat x)
    then show ?thesis by (intro final [OF reads_header_stream_format [of True x ind], where K = ExtendedStreamFormat])
      (simp_all add: position_tracked_def avc_command.defs)
  next
    case (ExtendedPlugInfo x)
    then show ?thesis by (intro final [OF reads_header_plug_info [of x ind], where K = ExtendedPlugInfo])
      (simp_all add: position_tracked_def avc_command.defs)
  next
    case (FunctionBlock x)
    then show ?thesis by (intro final [OF reads_header_function_block [of True x ind], where K = FunctionBlock])
      (simp_all add: position_tracked_def avc_command.defs)
  qed
qed

end
