(* ===== verification/FcpTransaction.thy ===== *)
theory FcpTransaction
  imports CmdSerialize
begin

text \<open>
  Function control protocol transactions of \<open>libieee1394/ieee1394service.cpp\<close>: a request is written to
  a node, and the answer arrives later in a callback that decides whether it belongs to the request.

  What the bus does is the record \<open>fcp_env\<close>, one for every try: the results of the calls into
  libraw1394 and, for every round of the waiting loop, the time that is read and the message that
  \<open>raw1394_loop_iterate\<close> hands to the callback, if any. Nothing is assumed of the messages. A list of
  rounds that is too short for the loop to end is the result \<open>None\<close>.
\<close>

section \<open>State\<close>

datatype eFcpStatus = eFS_Empty | eFS_Waiting | eFS_Responded | eFS_Error

abbreviation (input) "MAX_FCP_BLOCK_SIZE_BYTES \<equiv> (512 :: nat)"
abbreviation (input) "MAX_FCP_BLOCK_SIZE_QUADS \<equiv> (128 :: nat)"
abbreviation (input) "INVALID_NODE_ID \<equiv> (0xFF :: u16)"
abbreviation (input) "FCP_COMMAND_ADDR \<equiv> (0xFFFFF0000B00 :: u64)"
abbreviation (input) "FCP_MAX_TRIES \<equiv> (2 :: nat)"
abbreviation (input) "FCP_RESPONSE_TIMEOUT_USEC \<equiv> (200000 :: u64)"

record sFcpBlock =
  status :: eFcpStatus
  target_nodeid :: u16
  request_length :: nat
  request :: "byte list"
  response_length :: nat
  response :: "byte list"

text \<open>
  \<open>last_response\<close> is the static copy of the last response in the callback, \<open>handle_lock\<close> the number of
  times the lock on the handle is held.
\<close>

record fcp_service =
  m_fcp_block :: sFcpBlock
  last_response :: "byte list"
  m_filterFCPResponse :: bool
  handle_lock :: int

record fcp_message =
  from_node :: u16
  is_response :: bool
  payload :: "byte list"

record fcp_env =
  start_fcp_listen :: bool
  stop_fcp_listen :: bool
  raw1394_write :: "u16 \<Rightarrow> u64 \<Rightarrow> byte list \<Rightarrow> bool"
  request_time :: u64
  poll_rounds :: "(u64 \<times> fcp_message option) list"

section \<open>Matching a response\<close>

text \<open>A quadlet in bus order, as \<open>CondSwapFromBus32\<close> makes it of the bytes in memory.\<close>

definition bus_quadlet :: "byte list \<Rightarrow> u32" where
  "bus_quadlet bs = push_bit 24 (ucast (bs ! 0)) OR push_bit 16 (ucast (bs ! 1))
     OR push_bit 8 (ucast (bs ! 2)) OR ucast (bs ! 3)"

definition FCP_MASK_RESPONSE :: "u32 \<Rightarrow> u32" where
  "FCP_MASK_RESPONSE x = x AND 0x0F000000"

definition FCP_MASK_SUBUNIT_AND_OPCODE :: "u32 \<Rightarrow> u32" where
  "FCP_MASK_SUBUNIT_AND_OPCODE x = x AND 0x00FFFF00"

abbreviation (input) "FCP_RESPONSE_INTERIM \<equiv> (0x0F000000 :: u32)"

text \<open>The parameter \<open>debug\<close> is the build option \<open>DEBUG\<close>, which adds one check.\<close>

definition handleFcpResponse :: "bool \<Rightarrow> fcp_message \<Rightarrow> fcp_service \<Rightarrow> fcp_service result" where
  "handleFcpResponse debug m sv =
     (if is_response m \<and> 3 < length (payload m) then
        (let len = (if MAX_FCP_BLOCK_SIZE_BYTES < length (payload m) then MAX_FCP_BLOCK_SIZE_BYTES
                    else length (payload m));
             blk = m_fcp_block sv in
         bind_result (mem_read (payload m) 0 4) (\<lambda>q.
         bind_result (mem_read (request blk) 0 4) (\<lambda>r.
           (let first_quadlet = bus_quadlet q in
            if FCP_MASK_RESPONSE first_quadlet = FCP_RESPONSE_INTERIM then Inr sv
            else if from_node m \<noteq> target_nodeid blk then Inr sv
            else if first_quadlet = 0 then Inr sv
            else if debug \<and> FCP_MASK_RESPONSE first_quadlet < 0x08000000 then Inr sv
            else if FCP_MASK_SUBUNIT_AND_OPCODE first_quadlet
                 \<noteq> FCP_MASK_SUBUNIT_AND_OPCODE (bus_quadlet r) then Inr sv
            else
              bind_result (mem_read (last_response sv) 0 len) (\<lambda>last.
              bind_result (mem_read (payload m) 0 len) (\<lambda>data.
                if m_filterFCPResponse sv \<and> last = data then Inr sv
                else
                  bind_result (mem_write (response blk) 0 data) (\<lambda>resp.
                  bind_result (if m_filterFCPResponse sv then mem_write (last_response sv) 0 data
                               else Inr (last_response sv)) (\<lambda>last.
                    Inr (sv\<lparr>m_fcp_block := blk\<lparr>response_length := (len + 3) div 4, response := resp,
                          status := eFS_Responded\<rparr>, last_response := last\<rparr>)))))))))
      else Inr sv)"

section \<open>Transactions\<close>

fun wait_response ::
    "bool \<Rightarrow> u64 \<Rightarrow> (u64 \<times> fcp_message option) list \<Rightarrow> fcp_service \<Rightarrow> fcp_service result option" where
  "wait_response debug timeout [] sv =
     (if status (m_fcp_block sv) = eFS_Waiting then None else Some (Inr sv))"
| "wait_response debug timeout ((now, msg) # rounds) sv =
     (if status (m_fcp_block sv) = eFS_Waiting \<and> now < timeout then
        (case msg of
           None \<Rightarrow> wait_response debug timeout rounds sv
         | Some m \<Rightarrow> (case handleFcpResponse debug m sv of
             Inl e \<Rightarrow> Some (Inl e)
           | Inr sv \<Rightarrow> wait_response debug timeout rounds sv))
      else Some (Inr sv))"

definition set_status :: "eFcpStatus \<Rightarrow> fcp_service \<Rightarrow> fcp_service" where
  "set_status st sv = sv\<lparr>m_fcp_block := (m_fcp_block sv)\<lparr>status := st\<rparr>\<rparr>"

text \<open>\<open>writeNoLock\<close> refuses the invalid node; \<open>length\<close> counts quadlets.\<close>

definition writeNoLock :: "fcp_env \<Rightarrow> u16 \<Rightarrow> u64 \<Rightarrow> nat \<Rightarrow> byte list \<Rightarrow> bool result" where
  "writeNoLock env nodeId addr len data =
     (if nodeId = INVALID_NODE_ID then Inr False
      else bind_result (mem_read data 0 (len * 4)) (\<lambda>bs. Inr (raw1394_write env nodeId addr bs)))"

definition doFcpTransactionTry ::
    "bool \<Rightarrow> fcp_env \<Rightarrow> fcp_service \<Rightarrow> (bool \<times> fcp_service) result option" where
  "doFcpTransactionTry debug env sv =
     (let out = (\<lambda>retval sv. Some (Inr (retval \<and> stop_fcp_listen env, set_status eFS_Empty sv))) in
      if \<not> start_fcp_listen env then out False sv
      else
        (let sv = set_status eFS_Waiting sv; blk = m_fcp_block sv in
         case writeNoLock env (target_nodeid blk) FCP_COMMAND_ADDR (request_length blk) (request blk) of
           Inl e \<Rightarrow> Some (Inl e)
         | Inr b \<Rightarrow>
             if \<not> b then out False sv
             else
               (case wait_response debug (request_time env + FCP_RESPONSE_TIMEOUT_USEC) (poll_rounds env) sv of
                  None \<Rightarrow> None
                | Some (Inl e) \<Rightarrow> Some (Inl e)
                | Some (Inr sv) \<Rightarrow>
                    if status (m_fcp_block sv) = eFS_Waiting then out False sv
                    else if status (m_fcp_block sv) = eFS_Error then out False sv
                    else out True sv)))"

fun fcp_tries :: "bool \<Rightarrow> fcp_env list \<Rightarrow> fcp_service \<Rightarrow> (bool \<times> fcp_service) result option" where
  "fcp_tries debug [] sv = Some (Inr (False, sv))"
| "fcp_tries debug (env # envs) sv =
     (case doFcpTransactionTry debug env sv of
        None \<Rightarrow> None
      | Some (Inl e) \<Rightarrow> Some (Inl e)
      | Some (Inr (True, sv)) \<Rightarrow> Some (Inr (True, sv))
      | Some (Inr (False, sv)) \<Rightarrow> fcp_tries debug envs sv)"

definition doFcpTransaction ::
    "bool \<Rightarrow> (nat \<Rightarrow> fcp_env) \<Rightarrow> fcp_service \<Rightarrow> (bool \<times> fcp_service) result option" where
  "doFcpTransaction debug env sv = fcp_tries debug (map env [0..<FCP_MAX_TRIES]) sv"

text \<open>The pointer that is returned points to the response in the service.\<close>

definition transactionBlock ::
    "bool \<Rightarrow> (nat \<Rightarrow> fcp_env) \<Rightarrow> u16 \<Rightarrow> byte list \<Rightarrow> nat \<Rightarrow> fcp_service \<Rightarrow>
       ((byte list \<times> nat) option \<times> fcp_service) result option" where
  "transactionBlock debug env nodeId buf len sv =
     (if nodeId = INVALID_NODE_ID then Some (Inr (None, sv))
      else
        (let sv = sv\<lparr>handle_lock := handle_lock sv + 1\<rparr>;
             n = (if len < MAX_FCP_BLOCK_SIZE_QUADS then len else MAX_FCP_BLOCK_SIZE_QUADS);
             zero = replicate MAX_FCP_BLOCK_SIZE_BYTES 0 in
         case bind_result (mem_read buf 0 (n * 4)) (mem_write zero 0) of
           Inl e \<Rightarrow> Some (Inl e)
         | Inr req \<Rightarrow>
             (case doFcpTransaction debug env (sv\<lparr>m_fcp_block :=
                  \<lparr>status = eFS_Empty, target_nodeid = 0xffc0 OR nodeId, request_length = n, request = req,
                   response_length = 0, response = zero\<rparr>\<rparr>) of
                None \<Rightarrow> None
              | Some (Inl e) \<Rightarrow> Some (Inl e)
              | Some (Inr (success, sv)) \<Rightarrow>
                  Some (Inr (if success
                    then Some (response (m_fcp_block sv), response_length (m_fcp_block sv))
                    else None, sv)))))"

definition transactionBlockClose :: "fcp_service \<Rightarrow> fcp_service" where
  "transactionBlockClose sv = sv\<lparr>handle_lock := handle_lock sv - 1\<rparr>"

definition setFCPResponseFiltering :: "bool \<Rightarrow> fcp_service \<Rightarrow> fcp_service" where
  "setFCPResponseFiltering enable sv = sv\<lparr>m_filterFCPResponse := enable\<rparr>"

section \<open>The masks byte by byte\<close>

lemma quadlet_byte_masks:
  "(0x0F000000 :: u32) = push_bit 24 (mask 4)" "(0x00FFFF00 :: u32) = push_bit 8 (mask 16)"
  "(0xf :: byte) = mask 4"
  by (simp_all add: mask_eq_exp_minus_1 push_bit_eq_mult)

lemma byte_bit_less: "bit (x :: byte) n \<Longrightarrow> n < 8"
  using bit_imp_le_length [of x n] by simp

lemma mask_response_bytes:
  "FCP_MASK_RESPONSE (bus_quadlet bs) = push_bit 24 (ucast (bs ! 0 AND 0xf))"
  unfolding FCP_MASK_RESPONSE_def bus_quadlet_def quadlet_byte_masks
  by (rule bit_word_eqI) (auto simp: bit_simps dest: byte_bit_less)

lemma mask_subunit_bytes:
  "FCP_MASK_SUBUNIT_AND_OPCODE (bus_quadlet bs) = push_bit 16 (ucast (bs ! 1)) OR push_bit 8 (ucast (bs ! 2))"
  unfolding FCP_MASK_SUBUNIT_AND_OPCODE_def bus_quadlet_def quadlet_byte_masks
  by (rule bit_word_eqI) (auto simp: bit_simps dest: byte_bit_less)

lemma two_bytes_inject:
  fixes a b c d :: byte
  shows "push_bit 16 (ucast a) OR push_bit 8 (ucast b) = (push_bit 16 (ucast c) OR push_bit 8 (ucast d) :: u32)
    \<longleftrightarrow> a = c \<and> b = d"
proof
  assume e: "push_bit 16 (ucast a) OR push_bit 8 (ucast b) = (push_bit 16 (ucast c) OR push_bit 8 (ucast d) :: u32)"
  have hi: "ucast (drop_bit 16 (push_bit 16 (ucast x) OR push_bit 8 (ucast y) :: u32)) = x"
    and lo: "ucast (drop_bit 8 (push_bit 16 (ucast x) OR push_bit 8 (ucast y) :: u32)) = y" for x y :: byte
    by (rule bit_word_eqI, auto simp: bit_simps dest: byte_bit_less)+
  show "a = c \<and> b = d" using hi [of a b] hi [of c d] lo [of a b] lo [of c d] e by metis
qed simp

lemma push_24_inject:
  fixes a b :: byte
  shows "push_bit 24 (ucast a) = (push_bit 24 (ucast b) :: u32) \<longleftrightarrow> a = b"
proof
  assume e: "push_bit 24 (ucast a) = (push_bit 24 (ucast b) :: u32)"
  have "ucast (drop_bit 24 (push_bit 24 (ucast x) :: u32)) = x" for x :: byte
    by (rule bit_word_eqI) (auto simp: bit_simps dest: byte_bit_less)
  then show "a = b" using e by metis
qed simp

lemma interim_byte: "FCP_MASK_RESPONSE (bus_quadlet bs) = FCP_RESPONSE_INTERIM \<longleftrightarrow> bs ! 0 AND 0xf = 0xf"
proof -
  have "FCP_RESPONSE_INTERIM = push_bit 24 (ucast (0xf :: byte))" by (simp add: push_bit_eq_mult)
  then show ?thesis unfolding mask_response_bytes by (simp only: push_24_inject)
qed

lemma bus_quadlet_take: "4 \<le> length bs \<Longrightarrow> bus_quadlet (take 4 bs) = bus_quadlet bs"
  by (simp add: bus_quadlet_def)

section \<open>Accepted responses\<close>

text \<open>
  The messages that are taken for the answer of a request: they come from the node that was asked,
  are long enough, are not interim and not empty, and carry the subunit and the opcode of the
  request.
\<close>

definition answers :: "fcp_message \<Rightarrow> u16 \<Rightarrow> byte list \<Rightarrow> bool" where
  "answers m node req \<longleftrightarrow> is_response m \<and> 4 \<le> length (payload m) \<and> from_node m = node \<and>
     payload m ! 0 AND 0xf \<noteq> 0xf \<and> bus_quadlet (payload m) \<noteq> 0 \<and>
     payload m ! 1 = req ! 1 \<and> payload m ! 2 = req ! 2"

definition copied :: "fcp_message \<Rightarrow> nat" where
  "copied m = min MAX_FCP_BLOCK_SIZE_BYTES (length (payload m))"

definition answered_with :: "fcp_message \<Rightarrow> sFcpBlock \<Rightarrow> bool" where
  "answered_with m blk \<longleftrightarrow> status blk = eFS_Responded \<and> response_length blk = (copied m + 3) div 4 \<and>
     take (copied m) (response blk) = take (copied m) (payload m)"

definition block_ok :: "sFcpBlock \<Rightarrow> bool" where
  "block_ok blk \<longleftrightarrow> length (request blk) = 512 \<and> length (response blk) = 512 \<and> request_length blk \<le> 128"

definition service_ok :: "fcp_service \<Rightarrow> bool" where
  "service_ok sv \<longleftrightarrow> block_ok (m_fcp_block sv) \<and> length (last_response sv) = 512"

text \<open>What a transaction leaves alone: the request, its target, the option and the lock.\<close>

definition same_request :: "fcp_service \<Rightarrow> fcp_service \<Rightarrow> bool" where
  "same_request sv sv' \<longleftrightarrow> service_ok sv' \<and> request (m_fcp_block sv') = request (m_fcp_block sv) \<and>
     request_length (m_fcp_block sv') = request_length (m_fcp_block sv) \<and>
     target_nodeid (m_fcp_block sv') = target_nodeid (m_fcp_block sv) \<and>
     m_filterFCPResponse sv' = m_filterFCPResponse sv \<and> handle_lock sv' = handle_lock sv"

lemma same_request_trans: "same_request a b \<Longrightarrow> same_request b c \<Longrightarrow> same_request a c"
  by (simp add: same_request_def)

lemma handleFcpResponse_cases:
  assumes "service_ok sv"
  obtains "handleFcpResponse debug m sv = Inr sv"
  | sv' where "handleFcpResponse debug m sv = Inr sv'" "same_request sv sv'"
      "answers m (target_nodeid (m_fcp_block sv)) (request (m_fcp_block sv))"
      "answered_with m (m_fcp_block sv')"
proof (cases "is_response m \<and> 3 < length (payload m)")
  case True
  let ?blk = "m_fcp_block sv" and ?n = "copied m"
  let ?last = "if m_filterFCPResponse sv then take ?n (payload m) @ drop ?n (last_response sv)
    else last_response sv"
  let ?sv = "sv\<lparr>m_fcp_block := ?blk\<lparr>response_length := (?n + 3) div 4,
      response := take ?n (payload m) @ drop ?n (response ?blk), status := eFS_Responded\<rparr>,
      last_response := ?last\<rparr>"
  have len: "(if MAX_FCP_BLOCK_SIZE_BYTES < length (payload m) then MAX_FCP_BLOCK_SIZE_BYTES
      else length (payload m)) = ?n" by (simp add: copied_def)
  have n: "?n \<le> 512" "?n \<le> length (payload m)" by (simp_all add: copied_def)
  have reads: "mem_read (payload m) 0 4 = Inr (take 4 (payload m))"
    "mem_read (request ?blk) 0 4 = Inr (take 4 (request ?blk))"
    "mem_read (last_response sv) 0 ?n = Inr (take ?n (last_response sv))"
    "mem_read (payload m) 0 ?n = Inr (take ?n (payload m))"
    using assms True n by (simp_all add: mem_read_def service_ok_def block_ok_def)
  have wr: "mem_write (response ?blk) 0 (take ?n (payload m)) = Inr (take ?n (payload m) @ drop ?n (response ?blk))"
    "mem_write (last_response sv) 0 (take ?n (payload m)) = Inr (take ?n (payload m) @ drop ?n (last_response sv))"
    using assms n by (simp_all add: mem_write_def service_ok_def block_ok_def min_absorb2)
  have q: "bus_quadlet (take 4 (payload m)) = bus_quadlet (payload m)"
      "bus_quadlet (take 4 (request ?blk)) = bus_quadlet (request ?blk)"
    using assms True by (simp_all add: bus_quadlet_take service_ok_def block_ok_def)
  have eq: "handleFcpResponse debug m sv = Inr ?sv" if "handleFcpResponse debug m sv \<noteq> Inr sv"
    using that True unfolding handleFcpResponse_def len Let_def reads wr bind_result.simps
    by (auto split: if_splits)
  have ans: "answers m (target_nodeid ?blk) (request ?blk)" if "handleFcpResponse debug m sv \<noteq> Inr sv"
    using that True unfolding handleFcpResponse_def len Let_def reads bind_result.simps q interim_byte
      mask_subunit_bytes two_bytes_inject answers_def
    by (simp split: if_splits)
  have ok: "same_request sv ?sv" "answered_with m (m_fcp_block ?sv)"
    using assms n by (auto simp: same_request_def service_ok_def block_ok_def answered_with_def)
  show ?thesis using that(1) that(2) [OF eq ok(1) ans ok(2)] by blast
next
  case False
  then have "handleFcpResponse debug m sv = Inr sv" by (auto simp: handleFcpResponse_def)
  then show ?thesis by (rule that(1))
qed

text \<open>The waiting loop ends with an answer, or with what it started from.\<close>

lemma wait_response_sound:
  assumes "service_ok sv" "status (m_fcp_block sv) = eFS_Waiting"
    "wait_response debug timeout rounds sv = Some r"
  shows "r = Inr sv \<or> (\<exists>sv' t m. r = Inr sv' \<and> same_request sv sv' \<and> (t, Some m) \<in> set rounds \<and>
     answers m (target_nodeid (m_fcp_block sv)) (request (m_fcp_block sv)) \<and> answered_with m (m_fcp_block sv'))"
  using assms(3)
proof (induction rounds)
  case (Cons x rounds)
  obtain now msg where x: "x = (now, msg)" by (cases x)
  show ?case
  proof (cases "now < timeout")
    case True
    show ?thesis
    proof (cases msg)
      case None
      then show ?thesis using Cons x True assms(2) by fastforce
    next
      case (Some m)
      from assms(1) show ?thesis
      proof (rule handleFcpResponse_cases [of sv debug m])
        assume "handleFcpResponse debug m sv = Inr sv"
        then show ?thesis using Cons x True assms(2) Some by fastforce
      next
        fix sv' assume h: "handleFcpResponse debug m sv = Inr sv'" "same_request sv sv'"
          "answers m (target_nodeid (m_fcp_block sv)) (request (m_fcp_block sv))"
          "answered_with m (m_fcp_block sv')"
        then have "status (m_fcp_block sv') = eFS_Responded" by (simp add: answered_with_def)
        then have "wait_response debug timeout rounds sv' = Some (Inr sv')"
          by (cases rounds) auto
        then show ?thesis using Cons.prems x True assms(2) Some h by auto
      qed
    qed
  qed (use Cons x assms(2) in auto)
qed (use assms(2) in simp)

lemma wait_response_ends:
  assumes "service_ok sv" "\<exists>(t, msg)\<in>set rounds. timeout \<le> t"
  shows "wait_response debug timeout rounds sv \<noteq> None"
  using assms
proof (induction rounds arbitrary: sv)
  case (Cons x rounds)
  obtain now msg where x: "x = (now, msg)" by (cases x)
  show ?case
  proof (cases "status (m_fcp_block sv) = eFS_Waiting \<and> now < timeout")
    case True
    then have ih: "service_ok sv' \<Longrightarrow> wait_response debug timeout rounds sv' \<noteq> None" for sv'
      using Cons x by (auto simp: not_le)
    show ?thesis
    proof (cases msg)
      case (Some m)
      from Cons.prems(1) show ?thesis
        by (rule handleFcpResponse_cases [of sv debug m])
          (use ih x True Some Cons.prems(1) in \<open>auto simp: same_request_def\<close>)
    qed (use ih x True Cons.prems(1) in auto)
  qed (use x in auto)
qed simp

text \<open>A message that is taken while the loop waits ends it, unless it is filtered as a duplicate.\<close>

definition accepted :: "bool \<Rightarrow> fcp_message \<Rightarrow> u16 \<Rightarrow> byte list \<Rightarrow> bool" where
  "accepted debug m node req \<longleftrightarrow> answers m node req \<and> (debug \<longrightarrow> 0x08000000 \<le> FCP_MASK_RESPONSE (bus_quadlet (payload m)))"

lemma handleFcpResponse_accepts:
  assumes "service_ok sv" "\<not> m_filterFCPResponse sv"
    "accepted debug m (target_nodeid (m_fcp_block sv)) (request (m_fcp_block sv))"
  shows "\<exists>sv'. handleFcpResponse debug m sv = Inr sv' \<and> status (m_fcp_block sv') = eFS_Responded"
proof -
  let ?blk = "m_fcp_block sv" and ?n = "copied m"
  have m: "is_response m" "3 < length (payload m)" using assms(3) by (auto simp: accepted_def answers_def)
  have len: "(if MAX_FCP_BLOCK_SIZE_BYTES < length (payload m) then MAX_FCP_BLOCK_SIZE_BYTES
      else length (payload m)) = ?n" by (simp add: copied_def)
  have n: "?n \<le> 512" "?n \<le> length (payload m)" by (simp_all add: copied_def)
  have reads: "mem_read (payload m) 0 4 = Inr (take 4 (payload m))"
    "mem_read (request ?blk) 0 4 = Inr (take 4 (request ?blk))"
    "mem_read (last_response sv) 0 ?n = Inr (take ?n (last_response sv))"
    "mem_read (payload m) 0 ?n = Inr (take ?n (payload m))"
    "mem_write (response ?blk) 0 (take ?n (payload m)) = Inr (take ?n (payload m) @ drop ?n (response ?blk))"
    using assms m n by (simp_all add: mem_read_def mem_write_def service_ok_def block_ok_def min_absorb2)
  have q: "bus_quadlet (take 4 (payload m)) = bus_quadlet (payload m)"
      "bus_quadlet (take 4 (request ?blk)) = bus_quadlet (request ?blk)"
    using assms m by (simp_all add: bus_quadlet_take service_ok_def block_ok_def)
  show ?thesis
    using assms(2,3) m unfolding handleFcpResponse_def len Let_def reads bind_result.simps q interim_byte
      mask_subunit_bytes two_bytes_inject answers_def accepted_def
    by (auto simp: not_less)
qed

lemma wait_response_found:
  assumes "service_ok sv" "\<not> m_filterFCPResponse sv" "\<forall>(now, msg)\<in>set pre. now < timeout" "t < timeout"
    "accepted debug m (target_nodeid (m_fcp_block sv)) (request (m_fcp_block sv))"
  shows "\<exists>sv'. wait_response debug timeout (pre @ (t, Some m) # post) sv = Some (Inr sv') \<and>
    (status (m_fcp_block sv) = eFS_Waiting \<longrightarrow> status (m_fcp_block sv') = eFS_Responded)"
  using assms
proof (induction pre arbitrary: sv)
  case Nil
  obtain sv' where sv': "handleFcpResponse debug m sv = Inr sv'" "status (m_fcp_block sv') = eFS_Responded"
    using handleFcpResponse_accepts [OF Nil(1,2,5)] by blast
  have "wait_response debug timeout post sv' = Some (Inr sv')" using sv' by (cases post) auto
  then show ?case using Nil sv' by simp
next
  case (Cons x pre)
  obtain now msg where x: "x = (now, msg)" by (cases x)
  show ?case
  proof (cases "status (m_fcp_block sv) = eFS_Waiting")
    case True
    have now: "now < timeout" using Cons.prems(3) x by simp
    have ih: "\<exists>sv'. wait_response debug timeout (pre @ (t, Some m) # post) sv = Some (Inr sv') \<and>
        (status (m_fcp_block sv) = eFS_Waiting \<longrightarrow> status (m_fcp_block sv') = eFS_Responded)"
      using Cons.IH [of sv] Cons.prems by simp
    show ?thesis
    proof (cases msg)
      case None
      then show ?thesis using ih x True now by simp
    next
      case (Some k)
      from Cons.prems(1) show ?thesis
      proof (rule handleFcpResponse_cases [of sv debug k])
        assume "handleFcpResponse debug k sv = Inr sv"
        then show ?thesis using ih x True now Some by simp
      next
        fix sv' assume h: "handleFcpResponse debug k sv = Inr sv'" "answered_with k (m_fcp_block sv')"
        then have r: "status (m_fcp_block sv') = eFS_Responded" by (simp add: answered_with_def)
        then have "wait_response debug timeout (pre @ (t, Some m) # post) sv' = Some (Inr sv')"
          by (cases "pre @ (t, Some m) # post") auto
        then show ?thesis using h r x True now Some by simp
      qed
    qed
  qed (use x in auto)
qed

section \<open>Tries and transactions\<close>

lemma set_status_simps [simp]:
  "service_ok (set_status st sv) = service_ok sv"
  "same_request sv (set_status st sv') = same_request sv sv'"
  "same_request (set_status st sv) sv' = same_request sv sv'"
  "m_fcp_block (set_status st sv) = (m_fcp_block sv)\<lparr>status := st\<rparr>"
  "m_filterFCPResponse (set_status st sv) = m_filterFCPResponse sv"
  by (simp_all add: set_status_def service_ok_def block_ok_def same_request_def)

lemma same_request_refl: "service_ok sv \<Longrightarrow> same_request sv sv"
  by (simp add: same_request_def)

text \<open>The clock that the waiting loop reads reaches the end of the waiting time.\<close>

definition clock_expires :: "fcp_env \<Rightarrow> bool" where
  "clock_expires env \<longleftrightarrow> (\<exists>(t, msg)\<in>set (poll_rounds env). request_time env + FCP_RESPONSE_TIMEOUT_USEC \<le> t)"

definition exchange :: "fcp_env \<Rightarrow> u16 \<Rightarrow> byte list \<Rightarrow> nat \<Rightarrow> byte list \<Rightarrow> nat \<Rightarrow> bool" where
  "exchange env node req quads resp n \<longleftrightarrow>
     raw1394_write env node FCP_COMMAND_ADDR (take (4 * quads) req) \<and>
     (\<exists>t m. (t, Some m) \<in> set (poll_rounds env) \<and> answers m node req \<and>
        n = (copied m + 3) div 4 \<and> take (copied m) resp = take (copied m) (payload m))"

lemma doFcpTransactionTry_returns:
  assumes "service_ok sv" "clock_expires env"
  obtains retval sv' where "doFcpTransactionTry debug env sv = Some (Inr (retval, sv'))" "same_request sv sv'"
    "retval \<Longrightarrow> exchange env (target_nodeid (m_fcp_block sv)) (request (m_fcp_block sv))
        (request_length (m_fcp_block sv)) (response (m_fcp_block sv')) (response_length (m_fcp_block sv'))"
proof -
  let ?sv = "set_status eFS_Waiting sv" and ?timeout = "request_time env + FCP_RESPONSE_TIMEOUT_USEC"
  let ?blk = "m_fcp_block sv"
  have rd: "mem_read (request ?blk) 0 (request_length ?blk * 4) = Inr (take (4 * request_length ?blk) (request ?blk))"
    using assms(1) by (simp add: mem_read_def service_ok_def block_ok_def mult.commute)
  have ok: "service_ok ?sv" "status (m_fcp_block ?sv) = eFS_Waiting" using assms by simp_all
  obtain r where r: "wait_response debug ?timeout (poll_rounds env) ?sv = Some r"
    using wait_response_ends [OF ok(1)] assms(2) unfolding clock_expires_def by blast
  note sound = wait_response_sound [OF ok r]
  show ?thesis
  proof (cases "start_fcp_listen env \<and> target_nodeid ?blk \<noteq> INVALID_NODE_ID \<and>
      raw1394_write env (target_nodeid ?blk) FCP_COMMAND_ADDR (take (4 * request_length ?blk) (request ?blk))")
    case False
    then have "doFcpTransactionTry debug env sv = Some (Inr (False, set_status eFS_Empty sv)) \<or>
        doFcpTransactionTry debug env sv = Some (Inr (False, set_status eFS_Empty ?sv))"
      by (auto simp: doFcpTransactionTry_def Let_def writeNoLock_def rd)
    then show ?thesis using that [of False] same_request_refl [OF assms(1)] by auto
  next
    case True
    from sound show ?thesis
    proof
      assume "r = Inr ?sv"
      then show ?thesis using that [of False] True r same_request_refl [OF assms(1)]
        by (simp add: doFcpTransactionTry_def Let_def writeNoLock_def rd)
    next
      assume "\<exists>sv' t m. r = Inr sv' \<and> same_request ?sv sv' \<and> (t, Some m) \<in> set (poll_rounds env) \<and>
        answers m (target_nodeid (m_fcp_block ?sv)) (request (m_fcp_block ?sv)) \<and> answered_with m (m_fcp_block sv')"
      then obtain sv' t m where a: "r = Inr sv'" "same_request sv sv'" "(t, Some m) \<in> set (poll_rounds env)"
        "answers m (target_nodeid ?blk) (request ?blk)" "answered_with m (m_fcp_block sv')" by auto
      have "doFcpTransactionTry debug env sv = Some (Inr (stop_fcp_listen env, set_status eFS_Empty sv'))"
        using True r a(1,5) by (simp add: doFcpTransactionTry_def Let_def writeNoLock_def rd answered_with_def)
      then show ?thesis
        using a True
        by (intro that [of "stop_fcp_listen env" "set_status eFS_Empty sv'"])
          (auto simp: exchange_def answered_with_def)
    qed
  qed
qed

lemma fcp_tries_return:
  assumes "service_ok sv" "\<forall>env\<in>set envs. clock_expires env"
  shows "\<exists>retval sv'. fcp_tries debug envs sv = Some (Inr (retval, sv')) \<and> same_request sv sv' \<and>
    (retval \<longrightarrow> (\<exists>env\<in>set envs. exchange env (target_nodeid (m_fcp_block sv)) (request (m_fcp_block sv))
        (request_length (m_fcp_block sv)) (response (m_fcp_block sv')) (response_length (m_fcp_block sv'))))"
  using assms
proof (induction envs arbitrary: sv)
  case (Cons env envs)
  from Cons.prems have "clock_expires env" by simp
  from Cons.prems(1) this show ?case
  proof (rule doFcpTransactionTry_returns [where debug = debug])
    fix retval sv'
    assume t: "doFcpTransactionTry debug env sv = Some (Inr (retval, sv'))" "same_request sv sv'"
      "retval \<Longrightarrow> exchange env (target_nodeid (m_fcp_block sv)) (request (m_fcp_block sv))
        (request_length (m_fcp_block sv)) (response (m_fcp_block sv')) (response_length (m_fcp_block sv'))"
    show ?case
    proof (cases retval)
      case False
      obtain retval2 sv2 where i: "fcp_tries debug envs sv' = Some (Inr (retval2, sv2))" "same_request sv' sv2"
        "retval2 \<longrightarrow> (\<exists>env\<in>set envs. exchange env (target_nodeid (m_fcp_block sv')) (request (m_fcp_block sv'))
          (request_length (m_fcp_block sv')) (response (m_fcp_block sv2)) (response_length (m_fcp_block sv2)))"
        using Cons.IH [of sv'] Cons.prems(2) t(2) by (auto simp: same_request_def)
      then show ?thesis using t(1,2) False same_request_trans [OF t(2) i(2)]
        by (auto simp: same_request_def)
    qed (use t in auto)
  qed
qed (use same_request_refl in auto)

lemma two_tries: "set (map env [0..<FCP_MAX_TRIES]) = {env 0, env 1}"
  by (simp add: upt_rec)

definition request_of :: "byte list \<Rightarrow> nat \<Rightarrow> byte list" where
  "request_of buf n = take (n * 4) buf @ replicate (MAX_FCP_BLOCK_SIZE_BYTES - n * 4) 0"

lemma transactionBlock_request:
  fixes len :: nat
  defines "n \<equiv> min len MAX_FCP_BLOCK_SIZE_QUADS"
  assumes "nodeId \<noteq> INVALID_NODE_ID" "n * 4 \<le> length buf"
  shows "transactionBlock debug env nodeId buf len sv =
    (case doFcpTransaction debug env (sv\<lparr>handle_lock := handle_lock sv + 1, m_fcp_block :=
        \<lparr>status = eFS_Empty, target_nodeid = 0xffc0 OR nodeId, request_length = n, request = request_of buf n,
         response_length = 0, response = replicate MAX_FCP_BLOCK_SIZE_BYTES 0\<rparr>\<rparr>) of
       None \<Rightarrow> None
     | Some (Inl e) \<Rightarrow> Some (Inl e)
     | Some (Inr (success, sv)) \<Rightarrow>
         Some (Inr (if success then Some (response (m_fcp_block sv), response_length (m_fcp_block sv)) else None, sv)))"
proof -
  have n: "(if len < MAX_FCP_BLOCK_SIZE_QUADS then len else MAX_FCP_BLOCK_SIZE_QUADS) = n" "n \<le> 128"
    by (simp_all add: n_def)
  have "bind_result (mem_read buf 0 (n * 4)) (mem_write (replicate MAX_FCP_BLOCK_SIZE_BYTES 0) 0)
      = Inr (request_of buf n)"
    using assms n by (simp add: mem_read_def mem_write_def request_of_def min_absorb2)
  then show ?thesis using assms(2) by (simp add: transactionBlock_def Let_def n(1))
qed

text \<open>The service at the start of the first try.\<close>

definition first_try :: "u16 \<Rightarrow> byte list \<Rightarrow> nat \<Rightarrow> fcp_service \<Rightarrow> fcp_service" where
  "first_try nodeId buf n sv = sv\<lparr>handle_lock := handle_lock sv + 1, m_fcp_block :=
     \<lparr>status = eFS_Waiting, target_nodeid = 0xffc0 OR nodeId, request_length = n, request = request_of buf n,
      response_length = 0, response = replicate MAX_FCP_BLOCK_SIZE_BYTES 0\<rparr>\<rparr>"

lemma first_try_ok:
  "n * 4 \<le> length buf \<Longrightarrow> n \<le> 128 \<Longrightarrow> length (last_response sv) = 512 \<Longrightarrow> service_ok (first_try nodeId buf n sv)"
  by (simp add: first_try_def service_ok_def block_ok_def request_of_def)

lemma first_try_simps [simp]:
  "target_nodeid (m_fcp_block (first_try nodeId buf n sv)) = 0xffc0 OR nodeId"
  "request_length (m_fcp_block (first_try nodeId buf n sv)) = n"
  "request (m_fcp_block (first_try nodeId buf n sv)) = request_of buf n"
  "status (m_fcp_block (first_try nodeId buf n sv)) = eFS_Waiting"
  "m_filterFCPResponse (first_try nodeId buf n sv) = m_filterFCPResponse sv"
  "handle_lock (first_try nodeId buf n sv) = handle_lock sv + 1"
  by (simp_all add: first_try_def)

lemma transaction_of_try:
  fixes len :: nat
  defines "n \<equiv> min len MAX_FCP_BLOCK_SIZE_QUADS"
  assumes "nodeId \<noteq> INVALID_NODE_ID" "n * 4 \<le> length buf" "start_fcp_listen (env 0)" "stop_fcp_listen (env 0)"
    "raw1394_write (env 0) (0xffc0 OR nodeId) FCP_COMMAND_ADDR (take (n * 4) buf)"
    "wait_response debug (request_time (env 0) + FCP_RESPONSE_TIMEOUT_USEC) (poll_rounds (env 0))
       (first_try nodeId buf n sv) = Some (Inr sv')" "status (m_fcp_block sv') = eFS_Responded"
  shows "transactionBlock debug env nodeId buf len sv =
    Some (Inr (Some (response (m_fcp_block sv'), response_length (m_fcp_block sv')), set_status eFS_Empty sv'))"
proof -
  have n: "n * 4 \<le> length buf" "n \<le> 128" using assms by (simp_all add: n_def)
  let ?sv0 = "sv\<lparr>handle_lock := handle_lock sv + 1, m_fcp_block :=
        \<lparr>status = eFS_Empty, target_nodeid = 0xffc0 OR nodeId, request_length = n, request = request_of buf n,
         response_length = 0, response = replicate MAX_FCP_BLOCK_SIZE_BYTES 0\<rparr>\<rparr>"
  have w: "set_status eFS_Waiting ?sv0 = first_try nodeId buf n sv"
    by (simp add: set_status_def first_try_def)
  have rd: "mem_read (request_of buf n) 0 (n * 4) = Inr (take (n * 4) buf)"
    using n by (simp add: mem_read_def request_of_def)
  have valid: "0xffc0 OR nodeId \<noteq> INVALID_NODE_ID"
  proof
    assume "0xffc0 OR nodeId = INVALID_NODE_ID"
    then have "bit (0xffc0 OR nodeId) 15 = bit INVALID_NODE_ID 15" by simp
    then show False by (simp add: bit_or_iff)
  qed
  have "doFcpTransactionTry debug (env 0) ?sv0 = Some (Inr (True, set_status eFS_Empty sv'))"
    unfolding doFcpTransactionTry_def Let_def w using assms(2-) valid
    by (simp add: writeNoLock_def rd)
  then have "doFcpTransaction debug env ?sv0 = Some (Inr (True, set_status eFS_Empty sv'))"
    by (simp add: doFcpTransaction_def upt_rec)
  then show ?thesis
    using transactionBlock_request [of nodeId len buf debug env sv] assms(2,3) unfolding n_def by simp
qed

text \<open>When no earlier message answers the request, the response is the one that does.\<close>

lemma wait_response_first:
  assumes "service_ok sv" "\<not> m_filterFCPResponse sv" "status (m_fcp_block sv) = eFS_Waiting"
    "\<forall>(now, msg)\<in>set pre. now < timeout \<and> (\<forall>k. msg = Some k \<longrightarrow> \<not> answers k (target_nodeid (m_fcp_block sv)) (request (m_fcp_block sv)))"
    "t < timeout" "accepted debug m (target_nodeid (m_fcp_block sv)) (request (m_fcp_block sv))"
  shows "\<exists>sv'. wait_response debug timeout (pre @ (t, Some m) # post) sv = Some (Inr sv') \<and>
    same_request sv sv' \<and> answered_with m (m_fcp_block sv')"
  using assms(4)
proof (induction pre)
  case Nil
  obtain sv' where sv': "handleFcpResponse debug m sv = Inr sv'" "status (m_fcp_block sv') = eFS_Responded"
    using handleFcpResponse_accepts [OF assms(1,2,6)] by blast
  have "wait_response debug timeout post sv' = Some (Inr sv')" using sv' by (cases post) auto
  moreover have "same_request sv sv' \<and> answered_with m (m_fcp_block sv')"
    by (rule handleFcpResponse_cases [OF assms(1), of debug m]) (use sv' assms(3) in auto)
  ultimately show ?case using assms(3,5) sv' by simp
next
  case (Cons x pre)
  obtain now msg where x: "x = (now, msg)" by (cases x)
  have now: "now < timeout" and no: "\<And>k. msg = Some k \<Longrightarrow> \<not> answers k (target_nodeid (m_fcp_block sv)) (request (m_fcp_block sv))"
    using Cons.prems x by auto
  have "handleFcpResponse debug k sv = Inr sv" if "msg = Some k" for k
    by (rule handleFcpResponse_cases [OF assms(1), of debug k]) (use no [OF that] in auto)
  then show ?case using Cons now assms(3) x by (cases msg) auto
qed

lemma transaction_spec:
  assumes "nodeId \<noteq> INVALID_NODE_ID" "0 < len" "min len MAX_FCP_BLOCK_SIZE_QUADS * 4 \<le> length buf"
    "length (last_response sv) = MAX_FCP_BLOCK_SIZE_BYTES" "clock_expires (env 0)" "clock_expires (env 1)"
  shows "\<exists>r sv'. transactionBlock debug env nodeId buf len sv = Some (Inr (r, sv')) \<and>
    handle_lock sv' = handle_lock sv + 1 \<and> length (last_response sv') = MAX_FCP_BLOCK_SIZE_BYTES \<and>
    (\<forall>resp n. r = Some (resp, n) \<longrightarrow> length resp = MAX_FCP_BLOCK_SIZE_BYTES \<and>
       (\<exists>i<FCP_MAX_TRIES. \<exists>t m. (t, Some m) \<in> set (poll_rounds (env i)) \<and>
          raw1394_write (env i) (0xffc0 OR nodeId) FCP_COMMAND_ADDR
            (take (min len MAX_FCP_BLOCK_SIZE_QUADS * 4) buf) \<and>
          from_node m = 0xffc0 OR nodeId \<and> is_response m \<and> 4 \<le> length (payload m) \<and>
          payload m ! 0 AND 0xf \<noteq> 0xf \<and> payload m ! 1 = buf ! 1 \<and> payload m ! 2 = buf ! 2 \<and>
          n = (min MAX_FCP_BLOCK_SIZE_BYTES (length (payload m)) + 3) div 4 \<and>
          take (min MAX_FCP_BLOCK_SIZE_BYTES (length (payload m))) resp
            = take (min MAX_FCP_BLOCK_SIZE_BYTES (length (payload m))) (payload m)))"
proof -
  define n where "n = min len MAX_FCP_BLOCK_SIZE_QUADS"
  define sv0 where "sv0 = sv\<lparr>handle_lock := handle_lock sv + 1, m_fcp_block :=
        \<lparr>status = eFS_Empty, target_nodeid = 0xffc0 OR nodeId, request_length = n, request = request_of buf n,
         response_length = 0, response = replicate MAX_FCP_BLOCK_SIZE_BYTES 0\<rparr>\<rparr>"
  have n: "n * 4 \<le> length buf" "n \<le> 128" "0 < n" using assms by (simp_all add: n_def)
  have ok: "service_ok sv0"
    using assms(4) n by (simp add: sv0_def service_ok_def block_ok_def request_of_def)
  have req: "take (4 * n) (request_of buf n) = take (n * 4) buf" "request_of buf n ! 1 = buf ! 1"
    "request_of buf n ! 2 = buf ! 2"
    using n by (auto simp: request_of_def nth_append mult.commute)
  have "\<forall>e\<in>set (map env [0..<FCP_MAX_TRIES]). clock_expires e" unfolding two_tries using assms by simp
  from fcp_tries_return [OF ok this, of debug] obtain retval sv' where r:
    "doFcpTransaction debug env sv0 = Some (Inr (retval, sv'))" "same_request sv0 sv'"
    "retval \<longrightarrow> (\<exists>e\<in>{env 0, env 1}. exchange e (0xffc0 OR nodeId) (request_of buf n) n
        (response (m_fcp_block sv')) (response_length (m_fcp_block sv')))"
    unfolding doFcpTransaction_def two_tries by (auto simp: sv0_def)
  from transactionBlock_request [of nodeId len buf debug env sv] assms(1,3) r(1)
  have t: "transactionBlock debug env nodeId buf len sv = Some (Inr (if retval
      then Some (response (m_fcp_block sv'), response_length (m_fcp_block sv')) else None, sv'))"
    unfolding n_def [symmetric] sv0_def [symmetric] by simp
  have s: "handle_lock sv' = handle_lock sv + 1" "length (last_response sv') = 512"
      "length (response (m_fcp_block sv')) = 512"
    using r(2) by (auto simp: same_request_def sv0_def service_ok_def block_ok_def)
  have "\<exists>i<FCP_MAX_TRIES. exchange (env i) (0xffc0 OR nodeId) (request_of buf n) n
        (response (m_fcp_block sv')) (response_length (m_fcp_block sv'))" if retval
    using that r(3) by (metis (no_types, lifting) One_nat_def insertE lessI one_add_one plus_1_eq_Suc
        pos2 singletonD)
  then show ?thesis
    unfolding t n_def [symmetric] using s req by (auto simp: exchange_def answers_def copied_def)
qed

text \<open>A bus for the witnesses: node 2 answers a request with an interim response first.\<close>

definition demo_bus :: fcp_env where
  "demo_bus = \<lparr>start_fcp_listen = True, stop_fcp_listen = True, raw1394_write = (\<lambda>_ _ _. True), request_time = 100,
     poll_rounds = [(150, None),
       (200, Some \<lparr>from_node = 0xffc2, is_response = True, payload = [0x0f, 0xff, 0x30, 0xff]\<rparr>),
       (300, Some \<lparr>from_node = 0xffc2, is_response = True, payload = [0x0c, 0xff, 0x30, 0x07]\<rparr>),
       (200100, None)]\<rparr>"

definition demo_service :: fcp_service where
  "demo_service = \<lparr>m_fcp_block = \<lparr>status = eFS_Empty, target_nodeid = 0, request_length = 0,
     request = replicate 512 0, response_length = 0, response = replicate 512 0\<rparr>,
     last_response = replicate 512 0, m_filterFCPResponse = False, handle_lock = 0\<rparr>"

text \<open>C7. A request for a valid node is answered within two tries or given up: when the clock of
  every waiting loop reaches its timeout, the transaction returns without touching memory out of bounds
  and holds the lock once more. A response is only returned when the padded request was written to
  that node, and it is, up to 512 bytes, a message that arrived from the same node in the same try, is
  not an interim response, and has the subunit and opcode bytes of the request.\<close>

theorem transactionBlock_returns_answer:
  assumes "nodeId \<noteq> INVALID_NODE_ID" "0 < len" "min len MAX_FCP_BLOCK_SIZE_QUADS * 4 \<le> length buf"
    "length (last_response sv) = MAX_FCP_BLOCK_SIZE_BYTES" "clock_expires (env 0)" "clock_expires (env 1)"
  shows "\<exists>r sv'. transactionBlock debug env nodeId buf len sv = Some (Inr (r, sv')) \<and>
    handle_lock sv' = handle_lock sv + 1 \<and> length (last_response sv') = MAX_FCP_BLOCK_SIZE_BYTES \<and>
    (\<forall>resp n. r = Some (resp, n) \<longrightarrow> length resp = MAX_FCP_BLOCK_SIZE_BYTES \<and>
       (\<exists>i<FCP_MAX_TRIES. \<exists>t m. (t, Some m) \<in> set (poll_rounds (env i)) \<and>
          raw1394_write (env i) (0xffc0 OR nodeId) FCP_COMMAND_ADDR
            (take (min len MAX_FCP_BLOCK_SIZE_QUADS * 4) buf) \<and>
          from_node m = 0xffc0 OR nodeId \<and> is_response m \<and> 4 \<le> length (payload m) \<and>
          payload m ! 0 AND 0xf \<noteq> 0xf \<and> payload m ! 1 = buf ! 1 \<and> payload m ! 2 = buf ! 2 \<and>
          n = (min MAX_FCP_BLOCK_SIZE_BYTES (length (payload m)) + 3) div 4 \<and>
          take (min MAX_FCP_BLOCK_SIZE_BYTES (length (payload m))) resp
            = take (min MAX_FCP_BLOCK_SIZE_BYTES (length (payload m))) (payload m)))"
  using assms by (rule transaction_spec)

theorem transactionBlock_returns_answer_witness:
  "\<exists>r sv'. transactionBlock False (\<lambda>_. demo_bus) 2 [0x01, 0xff, 0x30, 0xff] 1 demo_service = Some (Inr (r, sv')) \<and>
     handle_lock sv' = 1"
  using transactionBlock_returns_answer [of 2 1 "[0x01, 0xff, 0x30, 0xff]" demo_service "\<lambda>_. demo_bus" False]
  by (auto simp: demo_bus_def demo_service_def clock_expires_def)

text \<open>C20. The device that answers is heard: when the first try can listen and write, and the clock has
  not reached the timeout up to the round in which the matching message arrives, the transaction
  returns a response at once, whatever unrelated messages came before it.\<close>

theorem transactionBlock_hears_answer:
  assumes "nodeId \<noteq> INVALID_NODE_ID" "min len MAX_FCP_BLOCK_SIZE_QUADS * 4 \<le> length buf"
    "length (last_response sv) = MAX_FCP_BLOCK_SIZE_BYTES" "\<not> m_filterFCPResponse sv"
    "start_fcp_listen (env 0)" "stop_fcp_listen (env 0)"
    "raw1394_write (env 0) (0xffc0 OR nodeId) FCP_COMMAND_ADDR (take (min len MAX_FCP_BLOCK_SIZE_QUADS * 4) buf)"
    "poll_rounds (env 0) = pre @ (t, Some m) # post"
    "\<forall>(now, msg)\<in>set pre. now < request_time (env 0) + FCP_RESPONSE_TIMEOUT_USEC"
    "t < request_time (env 0) + FCP_RESPONSE_TIMEOUT_USEC"
    "accepted debug m (0xffc0 OR nodeId) (request_of buf (min len MAX_FCP_BLOCK_SIZE_QUADS))"
  shows "\<exists>resp n sv'. transactionBlock debug env nodeId buf len sv = Some (Inr (Some (resp, n), sv'))"
proof -
  define n where "n = min len MAX_FCP_BLOCK_SIZE_QUADS"
  have n: "n * 4 \<le> length buf" "n \<le> 128" using assms by (simp_all add: n_def)
  note ok = first_try_ok [OF n assms(3), of nodeId]
  obtain sv' where w: "wait_response debug (request_time (env 0) + FCP_RESPONSE_TIMEOUT_USEC)
      (poll_rounds (env 0)) (first_try nodeId buf n sv) = Some (Inr sv')" "status (m_fcp_block sv') = eFS_Responded"
    using wait_response_found [OF ok _ assms(9,10), of debug m post] assms(4,8,11)
    by (auto simp: n_def)
  show ?thesis
    using transaction_of_try [of nodeId len buf env debug sv sv', OF assms(1,2,5,6,7) w [unfolded n_def]] by blast
qed

theorem transactionBlock_hears_answer_witness:
  "\<exists>resp n sv'. transactionBlock False (\<lambda>_. demo_bus) 2 [0x01, 0xff, 0x30, 0xff] 1 demo_service
     = Some (Inr (Some (resp, n), sv'))"
  by (rule transactionBlock_hears_answer
      [where pre = "take 2 (poll_rounds demo_bus)" and t = 300 and post = "[(200100, None)]"
         and m = "\<lparr>from_node = 0xffc2, is_response = True, payload = [0x0c, 0xff, 0x30, 0x07]\<rparr>"])
    (simp_all add: demo_bus_def demo_service_def accepted_def answers_def request_of_def bus_quadlet_def)

end
