(* ===== verification/AVC_Fire.thy ===== *)
theory AVC_Fire
  imports AVC_Positions FcpTransaction
begin

text \<open>
  Sending a command: \<open>AVCCommand::fire\<close> of \<open>libavc/general/avc_generic.cpp\<close>. The command writes itself
  into its frame, the frame goes through a transaction of the 1394 service, and the command parses
  the response. Here the serializers, the commands and the transactions meet.
\<close>

section \<open>Members of any command\<close>

primrec set_fcpFrame :: "byte list \<Rightarrow> command \<Rightarrow> command" where
  "set_fcpFrame f (Connect c) = Connect (c\<lparr>m_fcpFrame := f\<rparr>)"
| "set_fcpFrame f (UnitInfo c) = UnitInfo (c\<lparr>m_fcpFrame := f\<rparr>)"
| "set_fcpFrame f (SubUnitInfo c) = SubUnitInfo (c\<lparr>m_fcpFrame := f\<rparr>)"
| "set_fcpFrame f (PlugInfo c) = PlugInfo (c\<lparr>m_fcpFrame := f\<rparr>)"
| "set_fcpFrame f (OutputPlugSignalFormat c) = OutputPlugSignalFormat (c\<lparr>m_fcpFrame := f\<rparr>)"
| "set_fcpFrame f (InputPlugSignalFormat c) = InputPlugSignalFormat (c\<lparr>m_fcpFrame := f\<rparr>)"
| "set_fcpFrame f (VendorDependent c) = VendorDependent (c\<lparr>m_fcpFrame := f\<rparr>)"
| "set_fcpFrame f (ExtendedSubunitInfo c) = ExtendedSubunitInfo (c\<lparr>m_fcpFrame := f\<rparr>)"
| "set_fcpFrame f (SignalSource c) = SignalSource (c\<lparr>m_fcpFrame := f\<rparr>)"
| "set_fcpFrame f (ExtendedStreamFormat c) = ExtendedStreamFormat (c\<lparr>m_fcpFrame := f\<rparr>)"
| "set_fcpFrame f (ExtendedPlugInfo c) = ExtendedPlugInfo (c\<lparr>m_fcpFrame := f\<rparr>)"
| "set_fcpFrame f (FunctionBlock c) = FunctionBlock (c\<lparr>m_fcpFrame := f\<rparr>)"

primrec set_eResponse :: "byte \<Rightarrow> command \<Rightarrow> command" where
  "set_eResponse r (Connect c) = Connect (c\<lparr>m_eResponse := r\<rparr>)"
| "set_eResponse r (UnitInfo c) = UnitInfo (c\<lparr>m_eResponse := r\<rparr>)"
| "set_eResponse r (SubUnitInfo c) = SubUnitInfo (c\<lparr>m_eResponse := r\<rparr>)"
| "set_eResponse r (PlugInfo c) = PlugInfo (c\<lparr>m_eResponse := r\<rparr>)"
| "set_eResponse r (OutputPlugSignalFormat c) = OutputPlugSignalFormat (c\<lparr>m_eResponse := r\<rparr>)"
| "set_eResponse r (InputPlugSignalFormat c) = InputPlugSignalFormat (c\<lparr>m_eResponse := r\<rparr>)"
| "set_eResponse r (VendorDependent c) = VendorDependent (c\<lparr>m_eResponse := r\<rparr>)"
| "set_eResponse r (ExtendedSubunitInfo c) = ExtendedSubunitInfo (c\<lparr>m_eResponse := r\<rparr>)"
| "set_eResponse r (SignalSource c) = SignalSource (c\<lparr>m_eResponse := r\<rparr>)"
| "set_eResponse r (ExtendedStreamFormat c) = ExtendedStreamFormat (c\<lparr>m_eResponse := r\<rparr>)"
| "set_eResponse r (ExtendedPlugInfo c) = ExtendedPlugInfo (c\<lparr>m_eResponse := r\<rparr>)"
| "set_eResponse r (FunctionBlock c) = FunctionBlock (c\<lparr>m_eResponse := r\<rparr>)"

section \<open>Firing\<close>

text \<open>Of the printing of a frame only the memory it reads matters.\<close>

definition showFcpFrame :: "byte list \<Rightarrow> u16 \<Rightarrow> unit result" where
  "showFcpFrame buf frameSize = bind_result (mem_read buf 0 (unat frameSize)) (\<lambda>_. Inr ())"

text \<open>
  A command is also written as text for messages. The text serializer takes every value, and the
  result of the call is dropped; what can go wrong is the lookup of names and the use of a missing
  part, which do not depend on where the values go. So a buffer stands for the text.
\<close>

definition text_serialize :: "command \<Rightarrow> unit result" where
  "text_serialize c =
     bind_result (command_serialize c (new_cursor (replicate 65536 0) 65536)) (\<lambda>_. Inr ())"

definition fire_response :: "indeterminate \<Rightarrow> byte list \<Rightarrow> nat \<Rightarrow> command \<Rightarrow> (bool \<times> command) result" where
  "fire_response ind resp resp_len c =
     bind_result (mem_read resp 0 1) (\<lambda>buf.
       let c = set_eResponse (buf ! 0) c; de = new_cursor resp (word_of_nat resp_len) in
       if buf ! 0 \<in> {eR_Accepted, eR_Implemented, eR_Rejected, eR_NotImplemented} then
         bind_result (command_deserialize ind c de) (\<lambda>((result, c), de).
         bind_result (showFcpFrame resp (ucast (nrOfBytes de))) (\<lambda>_.
         bind_result (text_serialize c) (\<lambda>_. Inr (result, c))))
       else
         bind_result (command_deserialize ind c de) (\<lambda>((_, c), de).
         bind_result (showFcpFrame resp (ucast (nrOfBytes de))) (\<lambda>_. Inr (False, c))))"

text \<open>
  The parameter \<open>verbose\<close> says whether the level of messages asks for the request to be printed. A
  fault ends the call without a result; \<open>None\<close> is a waiting loop that never ends.
\<close>

definition fire ::
    "bool \<Rightarrow> bool \<Rightarrow> (nat \<Rightarrow> fcp_env) \<Rightarrow> indeterminate \<Rightarrow> command \<Rightarrow> fcp_service \<Rightarrow>
       (bool \<times> command \<times> fcp_service) result option" where
  "fire verbose debug env ind c sv =
     (case command_serialize c (new_cursor (replicate 512 0) 512) of
        Inl e \<Rightarrow> Some (Inl e)
      | Inr (ok, se) \<Rightarrow>
          (let c = set_fcpFrame (m_buffer se) c; fcpFrameSize = (ucast (nrOfBytes se) :: u16) in
           if \<not> ok then Some (Inr (False, c, sv))
           else
             (case (if verbose then bind_result (showFcpFrame (m_buffer se) fcpFrameSize) (\<lambda>_. text_serialize c)
                    else Inr ()) of
                Inl e \<Rightarrow> Some (Inl e)
              | Inr _ \<Rightarrow>
                  (case transactionBlock debug env (m_nodeId (command_base c)) (m_fcpFrame (command_base c))
                      ((unat fcpFrameSize + 3) div 4) sv of
                     None \<Rightarrow> None
                   | Some (Inl e) \<Rightarrow> Some (Inl e)
                   | Some (Inr (None, sv)) \<Rightarrow> Some (Inr (False, c, transactionBlockClose sv))
                   | Some (Inr (Some (resp, resp_len), sv)) \<Rightarrow>
                       (case fire_response ind resp (resp_len * 4) c of
                          Inl e \<Rightarrow> Some (Inl e)
                        | Inr (result, c) \<Rightarrow> Some (Inr (result, c, transactionBlockClose sv)))))))"

section \<open>Requests and responses as bytes\<close>

lemma command_base_set [simp]:
  "command_base (set_fcpFrame f c) = (command_base c)\<lparr>m_fcpFrame := f\<rparr>"
  "command_base (set_eResponse r c) = (command_base c)\<lparr>m_eResponse := r\<rparr>"
  by (cases c; simp add: avc_command.defs)+

lemma takes_set [simp]:
  "command_takes (set_fcpFrame f c) x = command_takes c x"
  "command_takes (set_eResponse r c) x = command_takes c x"
  "command_fresh (set_fcpFrame f c) = command_fresh c"
  "command_fresh (set_eResponse r c) = command_fresh c"
  by (cases c; cases x; simp add: getCommandType_def extended_stream_format_takes_def
      extended_plug_info_takes_def function_block_takes_def command_fresh_def)+

lemma command_bytes_header: "\<exists>rest. command_bytes c = base_bytes (command_base c) @ rest"
  by (cases c) (auto simp: base_bytes_def avc_command.defs unit_info_bytes_def subunit_info_bytes_def
      plug_info_bytes_def plug_signal_format_bytes_def vendor_dependent_bytes_def
      extended_subunit_info_bytes_def signal_source_bytes_def extended_stream_format_bytes_def
      extended_plug_info_bytes_def function_block_bytes_def)

text \<open>The bytes of a response.\<close>

definition frame_bytes :: "command \<Rightarrow> byte list" where
  "frame_bytes c = command_bytes c @ command_pad c"

lemma frame_bytes_nth:
  "frame_bytes c ! 0 = m_ctype (command_base c)" "frame_bytes c ! Suc 0 = m_subunit (command_base c)"
  "frame_bytes c ! 2 = m_opcode (command_base c)" "3 \<le> length (frame_bytes c)"
proof -
  obtain rest where "command_bytes c = base_bytes (command_base c) @ rest" using command_bytes_header by blast
  then show "frame_bytes c ! 0 = m_ctype (command_base c)" "frame_bytes c ! Suc 0 = m_subunit (command_base c)"
    "frame_bytes c ! 2 = m_opcode (command_base c)" "3 \<le> length (frame_bytes c)"
    by (simp_all add: frame_bytes_def base_bytes_def)
qed

lemma nrOfBytes_small:
  assumes "unat (m_curPos s) \<le> 512"
  shows "unat (ucast (nrOfBytes s) :: u16) = unat (m_curPos s)"
proof -
  have "unat (nrOfBytes s) = unat (m_curPos s)" using assms by (simp add: nrOfBytes_def unat_ucast_64_32)
  then show ?thesis using assms by (simp add: unsigned_ucast_eq take_bit_nat_eq_self)
qed

text \<open>What a request looks like to the transaction.\<close>

lemma request_frame:
  assumes "command_serialize c (new_cursor (replicate 512 0) 512) = Inr (b, se)"
  shows "length (m_buffer se) = 512" "3 \<le> unat (m_curPos se)" "unat (m_curPos se) \<le> 512"
    "unat (ucast (nrOfBytes se) :: u16) = unat (m_curPos se)"
    "m_buffer se ! 1 = m_subunit (command_base c)" "m_buffer se ! 2 = m_opcode (command_base c)"
proof -
  have f: "length (m_buffer se) = 512" "3 \<le> unat (m_curPos se)" "unat (m_curPos se) \<le> 512"
    "take 3 (m_buffer se) = [m_ctype (command_base c), m_subunit (command_base c), m_opcode (command_base c)]"
    using command_frame [of c] assms by simp_all
  then show "length (m_buffer se) = 512" "3 \<le> unat (m_curPos se)" "unat (m_curPos se) \<le> 512" by simp_all
  show "unat (ucast (nrOfBytes se) :: u16) = unat (m_curPos se)" using f(3) by (rule nrOfBytes_small)
  show "m_buffer se ! 1 = m_subunit (command_base c)" "m_buffer se ! 2 = m_opcode (command_base c)"
    using f(4) nth_take [of 1 3 "m_buffer se"] nth_take [of 2 3 "m_buffer se"] by simp_all
qed

section \<open>A device that answers\<close>

lemma bus_quadlet_first: "bs ! 0 \<noteq> 0 \<Longrightarrow> bus_quadlet bs \<noteq> 0"
proof
  assume "bs ! 0 \<noteq> 0" "bus_quadlet bs = 0"
  have "ucast (drop_bit 24 (bus_quadlet bs)) = bs ! 0"
    unfolding bus_quadlet_def by (rule bit_word_eqI) (auto simp: bit_simps dest: byte_bit_less)
  then show False using \<open>bs ! 0 \<noteq> 0\<close> \<open>bus_quadlet bs = 0\<close> by simp
qed

lemma final_code:
  assumes "b \<in> {eR_Accepted, eR_Implemented, eR_Rejected, eR_NotImplemented}"
  shows "b \<noteq> 0" "b AND 0xf \<noteq> 0xf" "(0x08000000 :: u32) \<le> push_bit 24 (ucast (b AND 0xf))"
  using assms by auto

definition response_message :: "u16 \<Rightarrow> byte list \<Rightarrow> fcp_message" where
  "response_message nodeId bs = \<lparr>from_node = 0xffc0 OR nodeId, is_response = True, payload = bs\<rparr>"

lemma response_accepted:
  assumes "m_ctype (command_base x) \<in> {eR_Accepted, eR_Implemented, eR_Rejected, eR_NotImplemented}"
    "m_subunit (command_base x) = req ! 1" "m_opcode (command_base x) = req ! 2" "4 \<le> length (frame_bytes x)"
  shows "accepted debug (response_message nodeId (frame_bytes x)) (0xffc0 OR nodeId) req"
  using assms(2-) final_code [OF assms(1)] bus_quadlet_first [of "frame_bytes x"] frame_bytes_nth [of x]
  by (simp add: accepted_def answers_def response_message_def mask_response_bytes)

text \<open>A proper response of the same class is taken over from the buffer of the service.\<close>

lemma fire_response_proper:
  assumes "command_proper x" "command_takes c x" "command_fresh c" "length (frame_bytes x) \<le> n" "n \<le> 512"
    "length resp = 512" "take (length (frame_bytes x)) resp = frame_bytes x"
    "m_ctype (command_base x) \<in> {eR_Accepted, eR_Implemented, eR_Rejected, eR_NotImplemented}"
  shows "fire_response ind resp n c = Inr (True, command_received (set_eResponse (m_ctype (command_base x)) c) x)"
proof -
  let ?c = "set_eResponse (m_ctype (command_base x)) c" and ?de = "new_cursor resp (word_of_nat n)"
  let ?z = "command_received ?c x"
  have split: "resp = frame_bytes x @ drop (length (frame_bytes x)) resp"
    using assms(7) append_take_drop_id [of "length (frame_bytes x)" resp] by simp
  have b: "mem_read resp 0 1 = Inr [m_ctype (command_base x)]"
  proof -
    have "resp ! 0 = frame_bytes x ! 0"
      using nth_take [of 0 "length (frame_bytes x)" resp] assms(7) frame_bytes_nth(4) [of x] by fastforce
    then show ?thesis using assms(6) frame_bytes_nth(1) [of x] by (cases resp) (auto simp: mem_read_def)
  qed
  have ok: "cursor_ok ?de" using assms(5,6) by (simp add: cursor_ok_def new_cursor_def)
  have "ahead ?de = take n resp" using assms(5,6) by (simp add: ahead_def new_cursor_def)
  also have "\<dots> = command_bytes x @ command_pad x @ take (n - length (frame_bytes x)) (drop (length (frame_bytes x)) resp)"
    using assms(4) by (subst split) (simp add: frame_bytes_def)
  finally have "command_deserialize ind ?c ?de = Inr ((True, ?z), advance (length (command_bytes x)) ?de)"
    using assms(1,2) ok by (intro command.deserialize_parses) simp_all
  moreover have "showFcpFrame resp (ucast (nrOfBytes (advance (length (command_bytes x)) ?de))) = Inr ()"
    using assms(4-6) by (simp add: showFcpFrame_def nrOfBytes_small new_cursor_def mem_read_def frame_bytes_def)
  moreover have "text_serialize ?z = Inr ()"
  proof -
    note r = command_bytes_received [of x ?c] command_proper_received [of x ?c]
    have "command_proper ?z" using r assms by simp
    from command.sent_bytes [OF this, of 65536 "replicate 65536 0"]
    show ?thesis using r assms(1-5) by (simp add: text_serialize_def frame_bytes_def)
  qed
  ultimately show ?thesis using b assms(8) unfolding fire_response_def by (simp add: Let_def)
qed

text \<open>A device for the witnesses: node 2 first sends an interim response to the query for its unit info.\<close>

definition demo_unit_query :: command where
  "demo_unit_query = UnitInfo ((UnitInfoCmd [] 0)\<lparr>m_nodeId := 2, m_ctype := eCT_Status\<rparr>)"

definition demo_unit_answer :: command where
  "demo_unit_answer = UnitInfo ((UnitInfoCmd [] 0)\<lparr>m_ctype := eR_Implemented, m_unit_type := 0x1c, m_unit := 3,
     m_company_id := 0x00a0de\<rparr>)"

definition demo_unit_bus :: fcp_env where
  "demo_unit_bus = \<lparr>start_fcp_listen = True, stop_fcp_listen = True, raw1394_write = (\<lambda>_ _ _. True), request_time = 100,
     poll_rounds = [(200, Some (response_message 2 [0x0f, 0xff, 0x30, 0xff, 0xff, 0xff, 0xff, 0xff])),
       (300, Some (response_message 2 (frame_bytes demo_unit_answer)))]\<rparr>"

lemmas demo_unit_defs = demo_unit_query_def demo_unit_answer_def demo_unit_bus_def UnitInfoCmd_def AVCCommand_def

text \<open>
  C9. A command and the device understand each other. When a command that serializes is fired, the
  first try can listen and write, and before the timeout a message arrives that is a final response (accepted,
  implemented, rejected or not implemented) written by a proper command of the same class for the same
  subunit and opcode, then whatever interim responses and messages for other requests came before
  it, firing succeeds: the command has the values that the device sent and the code of the response,
  and the lock is released.
\<close>

theorem fire_delivers:
  assumes "command_serialize c (new_cursor (replicate 512 0) 512) = Inr (True, se)" "command_fresh c"
    "m_nodeId (command_base c) \<noteq> INVALID_NODE_ID"
    "command_proper x" "command_takes c x" "4 \<le> length (frame_bytes x)" "length (frame_bytes x) \<le> 512"
    "m_ctype (command_base x) \<in> {eR_Accepted, eR_Implemented, eR_Rejected, eR_NotImplemented}"
    "m_subunit (command_base x) = m_subunit (command_base c)" "m_opcode (command_base x) = m_opcode (command_base c)"
    "length (last_response sv) = MAX_FCP_BLOCK_SIZE_BYTES" "\<not> m_filterFCPResponse sv"
    "start_fcp_listen (env 0)" "stop_fcp_listen (env 0)"
    "raw1394_write (env 0) (0xffc0 OR m_nodeId (command_base c)) FCP_COMMAND_ADDR
       (take ((unat (m_curPos se) + 3) div 4 * 4) (m_buffer se))"
    "poll_rounds (env 0) = pre @ (t, Some (response_message (m_nodeId (command_base c)) (frame_bytes x))) # post"
    "\<forall>(now, msg)\<in>set pre. now < request_time (env 0) + FCP_RESPONSE_TIMEOUT_USEC \<and>
       (\<forall>k. msg = Some k \<longrightarrow> \<not> answers k (0xffc0 OR m_nodeId (command_base c)) (m_buffer se))"
    "t < request_time (env 0) + FCP_RESPONSE_TIMEOUT_USEC"
  shows "\<exists>sv'. fire False debug env ind c sv = Some (Inr (True, command_received
      (set_eResponse (m_ctype (command_base x)) (set_fcpFrame (m_buffer se) c)) x, sv')) \<and>
    handle_lock sv' = handle_lock sv"
proof -
  let ?node = "m_nodeId (command_base c)" and ?m = "response_message (m_nodeId (command_base c)) (frame_bytes x)"
  let ?n = "(unat (m_curPos se) + 3) div 4" and ?c = "set_fcpFrame (m_buffer se) c" and ?f = "m_buffer se"
  note f = request_frame [OF assms(1)]
  have n: "?n * 4 \<le> length ?f" "?n \<le> 128" "min ?n 128 = ?n" "1 \<le> ?n" using f by auto
  have req: "request_of ?f ?n ! Suc 0 = ?f ! 1" "request_of ?f ?n ! 2 = ?f ! 2"
    using f(1) n(1,4) by (auto simp: request_of_def nth_append)
  have same: "answers k node (request_of ?f ?n) = answers k node ?f" for k node
    by (simp add: answers_def req)
  have acc: "accepted debug ?m (0xffc0 OR ?node) (request_of ?f ?n)"
    by (rule response_accepted) (use assms req f in simp_all)
  obtain sv' where w: "wait_response debug (request_time (env 0) + FCP_RESPONSE_TIMEOUT_USEC) (poll_rounds (env 0))
      (first_try ?node ?f ?n sv) = Some (Inr sv')"
    "same_request (first_try ?node ?f ?n sv) sv'" "answered_with ?m (m_fcp_block sv')"
    unfolding assms(16) using wait_response_first [OF first_try_ok [OF n(1,2) assms(11)], of ?node pre,
        unfolded first_try_simps same, OF assms(12) refl assms(17,18) acc, of post] by blast
  have r: "status (m_fcp_block sv') = eFS_Responded" "length (response (m_fcp_block sv')) = 512"
    "response_length (m_fcp_block sv') = (length (frame_bytes x) + 3) div 4"
    "take (length (frame_bytes x)) (response (m_fcp_block sv')) = frame_bytes x" "handle_lock sv' = handle_lock sv + 1"
    using w(2,3) assms(7)
    by (simp_all add: answered_with_def copied_def response_message_def same_request_def service_ok_def block_ok_def)
  have t: "transactionBlock debug env ?node ?f ?n sv = Some (Inr (Some (response (m_fcp_block sv'),
      (length (frame_bytes x) + 3) div 4), set_status eFS_Empty sv'))"
    using transaction_of_try [of ?node ?n ?f env debug sv sv'] assms n w r(1,3) by simp
  have "fire_response ind (response (m_fcp_block sv')) ((length (frame_bytes x) + 3) div 4 * 4) ?c
      = Inr (True, command_received (set_eResponse (m_ctype (command_base x)) ?c) x)"
    by (rule fire_response_proper) (use assms r in auto)
  then show ?thesis
    unfolding fire_def using assms(1) f(4) t r(5)
    by (simp add: Let_def transactionBlockClose_def set_status_def)
qed

lemma demo_unit_frame:
  "\<exists>se. command_serialize demo_unit_query (new_cursor (replicate 512 0) 512) = Inr (True, se)"
proof -
  have "sends (command_serialize demo_unit_query) [1, 0xff, 0x30, 0xff, 0xff, 0xff, 0xff, 0xff]"
    unfolding demo_unit_query_def command_serialize.simps UnitInfoCmd_serialize_def
    by (rule sends_cong [OF sends_after [OF sends_base sends_after [OF sends_writes sends_done]]])
      (simp_all add: base_proper_def base_bytes_def UnitInfoCmd_def AVCCommand_def unit_info.defs avc_command.defs)
  then show ?thesis by (auto simp: sends_def fits_def cursor_ok_def new_cursor_def)
qed

theorem fire_delivers_witness:
  "\<exists>c' sv'. fire False False (\<lambda>_. demo_unit_bus) (\<lambda>_. 0) demo_unit_query demo_service
     = Some (Inr (True, c', sv')) \<and> handle_lock sv' = 0"
proof -
  obtain se where se: "command_serialize demo_unit_query (new_cursor (replicate 512 0) 512) = Inr (True, se)"
    using demo_unit_frame by blast
  have "\<exists>sv'. fire False False (\<lambda>_. demo_unit_bus) (\<lambda>_. 0) demo_unit_query demo_service = Some (Inr (True, command_received
      (set_eResponse (m_ctype (command_base demo_unit_answer)) (set_fcpFrame (m_buffer se) demo_unit_query))
        demo_unit_answer, sv')) \<and> handle_lock sv' = handle_lock demo_service"
    by (rule fire_delivers [OF se, where t = 300 and post = "[]" and
          pre = "[(200, Some (response_message 2 [0x0f, 0xff, 0x30, 0xff, 0xff, 0xff, 0xff, 0xff]))]"])
      (simp_all add: demo_unit_defs frame_bytes_def command_fresh_def unit_info_proper_def base_proper_def
        unit_info_bytes_def base_bytes_def command_pad_def response_message_def answers_def avc_command.defs
        unit_info.defs demo_service_def)
  then show ?thesis by (auto simp: demo_service_def)
qed

section \<open>Any device\<close>

lemma request_faults_set: "request_faults (set_fcpFrame f c) = request_faults c"
  by (cases c) (simp_all add: request_faults_def header_faults_def plug_info_faults_def part_faults_def avc_command.defs)

text \<open>What firing needs of a transaction.\<close>

lemma response_header:
  fixes m :: fcp_message
  assumes "take (min 512 (length (payload m))) resp = take (min 512 (length (payload m))) (payload m)"
    "4 \<le> length (payload m)" "payload m ! 1 = x" "payload m ! 2 = y" "k = (min 512 (length (payload m)) + 3) div 4"
  shows "resp ! 1 = x \<and> resp ! 2 = y \<and> 4 \<le> k * 4 \<and> k * 4 \<le> 512"
proof -
  have "resp ! i = payload m ! i" if "i < 4" for i
  proof -
    have "i < min 512 (length (payload m))" using that assms(2) by simp
    then have "take (min 512 (length (payload m))) resp ! i = resp ! i"
      "take (min 512 (length (payload m))) (payload m) ! i = payload m ! i" by (rule nth_take)+
    then show ?thesis using assms(1) by metis
  qed
  from this [of 1] this [of 2] have "resp ! 1 = x" "resp ! 2 = y" using assms(3,4) by simp_all
  moreover have "4 \<le> k * 4" "k * 4 \<le> 512" using assms(2,5) by auto
  ultimately show ?thesis by blast
qed

lemma transaction_response:
  assumes "nodeId \<noteq> INVALID_NODE_ID" "0 < len" "min len MAX_FCP_BLOCK_SIZE_QUADS * 4 \<le> length buf"
    "length (last_response sv) = MAX_FCP_BLOCK_SIZE_BYTES" "clock_expires (env 0)" "clock_expires (env 1)"
  shows "\<exists>r sv'. transactionBlock debug env nodeId buf len sv = Some (Inr (r, sv')) \<and> handle_lock sv' = handle_lock sv + 1 \<and>
    (\<forall>resp k. r = Some (resp, k) \<longrightarrow> length resp = 512 \<and> resp ! 1 = buf ! 1 \<and> resp ! 2 = buf ! 2 \<and>
       4 \<le> k * 4 \<and> k * 4 \<le> 512)"
  using transaction_spec [OF assms, of debug]
proof (elim exE conjE, intro exI conjI allI impI)
  fix r :: "(byte list \<times> nat) option" and sv' :: fcp_service and resp :: "byte list" and k :: nat
  assume r: "r = Some (resp, k)"
  assume "\<forall>resp n. r = Some (resp, n) \<longrightarrow> length resp = 512 \<and>
       (\<exists>i<FCP_MAX_TRIES. \<exists>t m. (t, Some m) \<in> set (poll_rounds (env i)) \<and>
          raw1394_write (env i) (0xffc0 OR nodeId) FCP_COMMAND_ADDR (take (min len MAX_FCP_BLOCK_SIZE_QUADS * 4) buf) \<and>
          from_node m = 0xffc0 OR nodeId \<and> is_response m \<and> 4 \<le> length (payload m) \<and>
          payload m ! 0 AND 0xf \<noteq> 0xf \<and> payload m ! 1 = buf ! 1 \<and> payload m ! 2 = buf ! 2 \<and>
          n = (min MAX_FCP_BLOCK_SIZE_BYTES (length (payload m)) + 3) div 4 \<and>
          take (min MAX_FCP_BLOCK_SIZE_BYTES (length (payload m))) resp
            = take (min MAX_FCP_BLOCK_SIZE_BYTES (length (payload m))) (payload m))"
  note this [rule_format, OF r]
  then obtain m :: fcp_message where m: "length resp = 512" "4 \<le> length (payload m)" "payload m ! 1 = buf ! 1"
    "payload m ! 2 = buf ! 2" "k = (min 512 (length (payload m)) + 3) div 4"
    "take (min 512 (length (payload m))) resp = take (min 512 (length (payload m))) (payload m)"
    by fast
  note h = response_header [OF m(6,2-5)]
  show "length resp = 512" "resp ! 1 = buf ! 1" "resp ! 2 = buf ! 2" "4 \<le> k * 4" "k * 4 \<le> 512"
    using m(1) h by simp_all
qed assumption+

lemma shape_set [simp]:
  "command_shape (set_fcpFrame f c) = command_shape c" "command_shape (set_eResponse r c) = command_shape c"
  by (cases c; simp add: command_shape_def function_block_typed_def)+

text \<open>The dynamic class of a command, as a number per constructor.\<close>

primrec class_of :: "command \<Rightarrow> nat" where
  "class_of (Connect c) = 0"
| "class_of (UnitInfo c) = 1"
| "class_of (SubUnitInfo c) = 2"
| "class_of (PlugInfo c) = 3"
| "class_of (OutputPlugSignalFormat c) = 4"
| "class_of (InputPlugSignalFormat c) = 5"
| "class_of (VendorDependent c) = 6"
| "class_of (ExtendedSubunitInfo c) = 7"
| "class_of (SignalSource c) = 8"
| "class_of (ExtendedStreamFormat c) = 9"
| "class_of (ExtendedPlugInfo c) = 10"
| "class_of (FunctionBlock c) = 11"

definition same_class :: "command \<Rightarrow> command \<Rightarrow> bool" where
  "same_class c c' \<longleftrightarrow> class_of c = class_of c'"

lemma typed_same_class: "command_typed c c' \<Longrightarrow> same_class c c'"
  by (cases c; cases c'; simp add: same_class_def)

lemma same_class_set [simp]:
  "same_class (set_fcpFrame f c) c' = same_class c c'" "same_class (set_eResponse r c) c' = same_class c c'"
  "same_class c (set_fcpFrame f c)"
  by (cases c; simp add: same_class_def)+

text \<open>Nothing can go wrong when a command is written as text after a final response.\<close>

lemma text_after_response:
  assumes "m_ctype (command_base c') \<noteq> 0xf" "command_typed c c'" "command_faults c = {}"
  shows "text_serialize c' = Inr ()"
proof -
  have "request_faults c' = {}"
    using assms
    by (cases c; cases c')
      (auto simp: request_faults_def header_faults_def command_faults_def part_faults_def function_block_parts_def
        has_parts_def set_and_def avc_command.defs split: option.splits if_splits)
  moreover have "in_frame (new_cursor (replicate 65536 0) 65536)"
    by (simp add: in_frame_def cursor_ok_def new_cursor_def)
  ultimately show ?thesis
    using emitsD [OF emits_command, of "new_cursor (replicate 65536 0) 65536" c']
    by (auto simp: text_serialize_def split: sum.splits)
qed

lemma faults_set [simp]:
  "command_faults (set_fcpFrame f c) = command_faults c" "command_faults (set_eResponse r c) = command_faults c"
  by (cases c; simp add: command_faults_def function_block_parts_def)+

lemma tracked_without_faults: "command_faults c = {} \<Longrightarrow> position_tracked c"
  by (cases c) (auto simp: command_faults_def position_tracked_def)

lemma fire_response_any:
  assumes "command_shape c" "command_faults c = {}" "length resp = 512" "4 \<le> n" "n \<le> 512"
  obtains b c' where "fire_response ind resp n c = Inr (b, c')" "same_class c c'" "command_shape c'"
    "kept ((command_base c)\<lparr>m_ctype := resp ! 0, m_subunit := resp ! 1, m_opcode := resp ! 2, m_eResponse := resp ! 0\<rparr>)
       (command_base c')"
    "b \<Longrightarrow> resp ! 0 \<in> {eR_Accepted, eR_Implemented, eR_Rejected, eR_NotImplemented}"
proof -
  let ?de = "new_cursor resp (word_of_nat n)" and ?c = "set_eResponse (resp ! 0) c"
  obtain b0 b1 b2 rest where resp: "resp = b0 # b1 # b2 # rest"
    using assms(3) by (cases resp; cases "tl resp"; cases "tl (tl resp)") auto
  have r: "mem_read resp 0 1 = Inr [resp ! 0]" using assms(3) by (cases resp) (simp_all add: mem_read_def)
  have ok: "in_frame ?de" using assms(3,5) by (simp add: in_frame_def cursor_ok_def new_cursor_def)
  have ahead: "ahead ?de = resp ! 0 # resp ! 1 # resp ! 2 # take (n - 3) rest"
    using assms(4,5) by (simp add: ahead_def new_cursor_def resp take_Cons' numeral_3_eq_3)
  have "case command_deserialize ind ?c ?de of Inl e \<Rightarrow> e \<in> command_faults ?c
      | Inr ((b, x), d') \<Rightarrow> cursor_ok d' \<and> m_buffer d' = m_buffer ?de \<and> command_typed ?c x \<and> command_shape x"
    using parsesD [OF parses_command [of ?c ind], of ?de] ok assms(1) by (simp add: in_frame_def)
  then obtain b c' d' where d: "command_deserialize ind ?c ?de = Inr ((b, c'), d')" "command_typed ?c c'" "command_shape c'"
    using assms(2) by (auto split: sum.splits)
  have k: "kept ((command_base c)\<lparr>m_ctype := resp ! 0, m_subunit := resp ! 1, m_opcode := resp ! 2, m_eResponse := resp ! 0\<rparr>)
       (command_base c')" and pos: "in_frame d'" "m_length d' = m_length ?de"
    using reads_header_command [OF ok ahead d(1)] tracked_without_faults [of ?c] assms(2) by (auto simp: kept_def)
  have "unat (m_curPos d') \<le> 512" using pos assms(5) by (simp add: in_frame_def new_cursor_def)
  then have s: "showFcpFrame resp (ucast (nrOfBytes d')) = Inr ()"
    using assms(3) by (simp add: showFcpFrame_def nrOfBytes_small mem_read_def)
  have t: "text_serialize c' = Inr ()" if "resp ! 0 \<in> {eR_Accepted, eR_Implemented, eR_Rejected, eR_NotImplemented}"
    using text_after_response [OF _ d(2)] k that assms(2) by (auto simp: kept_def)
  show ?thesis
  proof (cases "resp ! 0 \<in> {eR_Accepted, eR_Implemented, eR_Rejected, eR_NotImplemented}")
    case True
    then have "fire_response ind resp n c = Inr (b, c')"
      using t unfolding fire_response_def r by (simp add: Let_def d(1) s)
    then show ?thesis using that [of b c'] True d k typed_same_class [OF d(2)] by simp
  next
    case False
    then have "fire_response ind resp n c = Inr (False, c')"
      unfolding fire_response_def r by (simp add: Let_def d(1) s)
    then show ?thesis using that [of False c'] d k typed_same_class [OF d(2)] by simp
  qed
qed

text \<open>
  C3. No device can make a command misbehave. Whatever arrives on the bus, and however it is cut or
  garbled, firing a command whose class has no faults of its own returns within two tries, stays inside every
  buffer and releases the lock; the command is still of its class and well-typed, still addresses the
  same node, subunit and opcode; and firing only reports success for a response with one of the four final codes,
  which the command then carries.
\<close>

theorem fire_safe:
  assumes "command_shape c" "request_faults c = {}" "command_faults c = {}"
    "m_nodeId (command_base c) \<noteq> INVALID_NODE_ID" "length (last_response sv) = MAX_FCP_BLOCK_SIZE_BYTES"
    "clock_expires (env 0)" "clock_expires (env 1)"
  shows "\<exists>b c' sv'. fire verbose debug env ind c sv = Some (Inr (b, c', sv')) \<and> handle_lock sv' = handle_lock sv \<and>
    same_class c c' \<and> command_shape c' \<and> m_nodeId (command_base c') = m_nodeId (command_base c) \<and>
    m_subunit (command_base c') = m_subunit (command_base c) \<and> m_opcode (command_base c') = m_opcode (command_base c) \<and>
    (b \<longrightarrow> m_eResponse (command_base c') \<in> {eR_Accepted, eR_Implemented, eR_Rejected, eR_NotImplemented} \<and>
       m_ctype (command_base c') = m_eResponse (command_base c'))"
proof -
  have ok: "in_frame (new_cursor (replicate 512 0) 512)" "in_frame (new_cursor (replicate 65536 0) 65536)"
    by (simp_all add: in_frame_def cursor_ok_def new_cursor_def)
  obtain good se where se: "command_serialize c (new_cursor (replicate 512 0) 512) = Inr (good, se)"
    using emitsD [OF emits_command ok(1), of c] assms(2) by (auto split: sum.splits)
  note f = request_frame [OF se]
  let ?c = "set_fcpFrame (m_buffer se) c" and ?n = "(unat (m_curPos se) + 3) div 4"
  show ?thesis
  proof (cases good)
    case False
    then have "fire verbose debug env ind c sv = Some (Inr (False, ?c, sv))"
      by (simp add: fire_def se Let_def)
    then show ?thesis using assms(1) by auto
  next
    case True
    have "text_serialize ?c = Inr ()"
      using emitsD [OF emits_command ok(2), of ?c] assms(2) request_faults_set [of "m_buffer se" c]
      by (auto simp: text_serialize_def split: sum.splits)
    then have v: "(if verbose then bind_result (showFcpFrame (m_buffer se) (ucast (nrOfBytes se))) (\<lambda>_. text_serialize ?c)
        else Inr ()) = Inr ()"
      using f by (simp add: showFcpFrame_def mem_read_def)
    have n: "min ?n MAX_FCP_BLOCK_SIZE_QUADS * 4 \<le> length (m_buffer se)" "0 < ?n" using f by auto
    obtain r sv' where t: "transactionBlock debug env (m_nodeId (command_base c)) (m_buffer se) ?n sv = Some (Inr (r, sv'))"
        "handle_lock sv' = handle_lock sv + 1"
      and resp: "\<And>resp k. r = Some (resp, k) \<Longrightarrow> length resp = 512 \<and> resp ! 1 = m_buffer se ! 1 \<and>
          resp ! 2 = m_buffer se ! 2 \<and> 4 \<le> k * 4 \<and> k * 4 \<le> 512"
      using transaction_response [OF assms(4) n(2,1) assms(5-7)] by blast
    show ?thesis
    proof (cases r)
      case None
      then have "fire verbose debug env ind c sv = Some (Inr (False, ?c, transactionBlockClose sv'))"
        using True v t(1) f(4) by (simp add: fire_def se Let_def)
      then show ?thesis using assms(1) t(2) by (auto simp: transactionBlockClose_def)
    next
      case (Some p)
      obtain resp k where p: "p = (resp, k)" by (cases p)
      note re = resp [OF Some [unfolded p]]
      obtain b c' where c': "fire_response ind resp (k * 4) ?c = Inr (b, c')" "same_class c c'" "command_shape c'"
        "kept ((command_base c)\<lparr>m_fcpFrame := m_buffer se, m_ctype := resp ! 0, m_subunit := resp ! 1,
            m_opcode := resp ! 2, m_eResponse := resp ! 0\<rparr>) (command_base c')"
        "b \<Longrightarrow> resp ! 0 \<in> {eR_Accepted, eR_Implemented, eR_Rejected, eR_NotImplemented}"
        using fire_response_any [of ?c resp "k * 4" ind] assms(1,3) re by auto
      then have "fire verbose debug env ind c sv = Some (Inr (b, c', transactionBlockClose sv'))"
        using True v t(1) f(4) Some p by (simp add: fire_def se Let_def)
      moreover have "m_nodeId (command_base c') = m_nodeId (command_base c)"
        "m_subunit (command_base c') = m_subunit (command_base c)" "m_opcode (command_base c') = m_opcode (command_base c)"
        "m_eResponse (command_base c') = resp ! 0" "m_ctype (command_base c') = resp ! 0"
        using c'(4) re f(5,6) by (simp_all add: kept_def)
      ultimately show ?thesis using c'(2,3,5) t(2) by (auto simp: transactionBlockClose_def)
    qed
  qed
qed

theorem fire_safe_witness:
  "\<exists>b c' sv'. fire True True (\<lambda>_. demo_bus) (\<lambda>_. 0xee) demo_unit_query demo_service = Some (Inr (b, c', sv')) \<and>
     handle_lock sv' = 0 \<and> same_class demo_unit_query c' \<and> m_nodeId (command_base c') = 2"
proof -
  have "command_shape demo_unit_query" "request_faults demo_unit_query = {}" "command_faults demo_unit_query = {}"
    "m_nodeId (command_base demo_unit_query) = 2"
    by (simp_all add: demo_unit_defs command_shape_def request_faults_def header_faults_def command_faults_def
        avc_command.defs unit_info.defs)
  moreover have "length (last_response demo_service) = MAX_FCP_BLOCK_SIZE_BYTES" "handle_lock demo_service = 0"
    by (simp_all add: demo_service_def)
  moreover have "clock_expires demo_bus" by (simp add: clock_expires_def demo_bus_def)
  ultimately show ?thesis
    using fire_safe [of demo_unit_query demo_service "\<lambda>_. demo_bus" True True "\<lambda>_. 0xee"] by auto
qed

end
