(* ===== verification/Spec2Isabelle.thy ===== *)
theory Spec2Isabelle
  imports CycleTimer Timestamps StreamSafety StreamTransfer AVC_Fire
begin

text \<open>
  Verification of libffado, the drivers for FireWire audio devices. Paths are relative to
  \<open>src/src\<close>.

  \<^bold>\<open>The program and the parts that are modelled.\<close> A device sends and receives audio as isochronous
  packets, 8000 cycles a second. A stream processor takes the packets of one stream, keeps their
  frames in a timestamped buffer, and hands them to the client in periods through its ports; the
  buffer is built on a byte ring buffer, and all times come from the cycle timer of the bus. Devices
  are discovered and controlled by AV/C commands: a command serializes itself into a frame, the
  frame is sent as a function control protocol transaction, and the command parses the response.
  The development has these two halves.

  \<^bold>\<open>Conventions.\<close> \<open>FFADO_Prelude\<close> has the machine types (an \<open>int\<close> or \<open>unsigned int\<close> is a 32 bit word,
  \<open>size_t\<close> a 64 bit word), the type \<open>fault + 'a\<close> of operations that may end in a failed assertion, an
  access outside an object, a null pointer or an arithmetic trap, and checked copies of memory. A class
  is a record with the names of its members, a method a function on the record, a derived class an extended
  record. Code that is not part of the library (libraw1394, the clock) and virtual functions of
  subclasses are arguments: the records \<open>fcp_env\<close> and \<open>sp_env\<close>. An uninitialised variable has the
  value that an argument \<open>ind\<close> gives it. Debug output is left out except where it reads memory.

  \<^bold>\<open>Streaming.\<close>
  \<^item> \<open>CycleTimer\<close>: the arithmetic of \<open>libieee1394/cycletimer.h\<close>, with its wrap-around at 128 seconds and
    8000 cycles. The expansion of the timestamp of a packet is the time the sender meant; conversions are
    inverse to each other; two functions differ from their purpose at a wrap.
  \<^item> \<open>Ring_Lists\<close>, \<open>RingBuffer\<close>: \<open>libutil/ringbuffer.c\<close>. The buffer refines a bounded queue of bytes,
    stated as the locale \<open>byte_fifo\<close>; the segments for access in place are the contents.
  \<^item> \<open>IEEE_Float\<close>, \<open>TimestampedBuffer\<close>: \<open>libutil/TimestampedBuffer.cpp\<close>, with \<open>float\<close> and \<open>double\<close>
    as rational numbers that are rounded after every operation. \<open>BlockProcessing\<close> proves that the loops
    which process a period in place return and move exactly the frames of the client (locale
    \<open>block_rounds\<close>), \<open>FrameAccounting\<close> that the frame counter counts the frames in the buffer as long
    as no drop asks for more than there are, which the code does not test, and \<open>Timestamps\<close>
    that timestamps are kept exactly and that the delay-locked loop stays locked.
  \<^item> \<open>Ports\<close>: \<open>libstreaming/generic/Port.cpp\<close> and \<open>PortManager.cpp\<close>, with a store for the ports the
    manager refers to. Names stay distinct, and a free name is found.
  \<^item> \<open>StreamProcessor\<close>: \<open>libstreaming/generic/StreamProcessor.cpp\<close>, for any subclass. \<open>StreamStates\<close>
    shows that every operation follows an abstract machine of the states (locale
    \<open>packet_invariant\<close>) and when exactly a transition succeeds, \<open>StreamRecovery\<close> that a stream starts and comes back after lost packets, \<open>StreamSafety\<close>
    in which states the buffer is transparent and what that means for the frames, and \<open>StreamTransfer\<close> what the client side does.

  \<^bold>\<open>Control.\<close>
  \<^item> \<open>CmdSerialize\<close>: the buffer classes of \<open>libutil/cmd_serialize.cpp\<close>, what they do at the end of
    their buffer, a calculus for code that is a sequence of calls, and the locale \<open>bus_data\<close>, the
    contract of a class with \<open>serialize\<close> and \<open>deserialize\<close>.
  \<^item> \<open>AVC_Generic\<close>, \<open>AVC_Addresses\<close>, \<open>AVC_StreamFormat\<close>, \<open>AVC_PlugInfo\<close>, \<open>AVC_FunctionBlock\<close>: the
    classes of \<open>libavc/general\<close>, \<open>libavc/ccm\<close>, \<open>libavc/streamformat\<close> and
    \<open>libavc/audiosubunit/avc_function_block.cpp\<close>. The classes with a round trip interpret \<open>bus_data\<close>.
  \<^item> \<open>AVC_Command\<close>: the twelve commands as one datatype, the dynamic dispatch, and the round trip of
    the commands in \<open>command_proper\<close>, which leaves out processing and codec function blocks, stream formats
    other than AM824 sync and compound, plug names and names with an ampersand. \<open>AVC_Responses\<close> describes what parsing makes of arbitrary bytes, which gives the
    typing of the commands.
  \<^item> \<open>AVC_Requests\<close>: what writing does for arbitrary members. \<open>AVC_Positions\<close>: how far parsing moves,
    and that it keeps the members all commands share.
  \<^item> \<open>FcpTransaction\<close>: the transactions of \<open>libieee1394/ieee1394service.cpp\<close>. Nothing is assumed of the
    messages that arrive.
  \<^item> \<open>AVC_Fire\<close>: \<open>AVCCommand::fire\<close>, where commands and transactions meet: firing is safe against
    every device, and delivers what a proper device answers.

  \<^bold>\<open>Loops.\<close> Recursion is structural wherever the source counts. A loop that ends for another reason is
  recursion with a termination proof or an argument that says what each round sees. The waiting loop of a
  transaction takes one element of \<open>poll_rounds\<close> in every round, and its result is \<open>None\<close> when the list ends
  while the loop still waits; under the hypothesis \<open>clock_expires\<close>, that some round reads a time after the
  timeout, it is shown not to be \<open>None\<close>. The loop of block processing is a partial function into \<open>option\<close>, with
  \<open>None\<close> for never returning; the theorems about it state that it returns. No definition has fuel.

  \<^bold>\<open>Not modelled.\<close>
  \<^item> Threads: the stream processor manager, the isochronous handlers and the cycle timer helper. What they
    may do to a stream processor are calls of its methods in any order; races inside a method are not modelled.
    The methods of the ring buffer are atomic in the model.
  \<^item> The rest of the 1394 service, the configuration rom and the address range handlers: they are calls of
    libraw1394 and libiec61883 whose effect is in the hardware.
  \<^item> The subclasses of the stream processor for AMDTP, MOTU, RME and Digidesign. They are arguments of the
    model of the base class.
  \<^item> The devices, the discovery of AV/C units and plugs, the mixer controls, the device manager and
    the interface of the library: register maps and object graphs that follow the hardware.
  \<^item> Of the modelled classes, the copy constructors of function blocks that copy pointers which were
    never set, and text output.
  \<^item> Failing allocation, infinities and NaN, and build options other than \<open>DEBUG\<close> where it
    changes the acceptance of a response.
\<close>

end
